theory Spec2Isabelle
  imports Complex_Main
begin

section \<open>Binary64 arithmetic\<close>

text \<open>
  Go's \<^verbatim>\<open>float64\<close> is the IEEE 754 binary64 format, and every arithmetic operation returns
  the exact result rounded to the nearest value of the format, ties to the even significand.
  A value is a finite real (\<open>Finite 0\<close> is the positive zero), the negative zero, an infinity
  or a NaN (the payload of a NaN is not observed by the code). The three operations and the
  comparisons that the code uses are modelled, and the conversion from \<^verbatim>\<open>int\<close>.
\<close>

datatype float64 = Finite real | NegZero | PosInf | NegInf | NaN

text \<open>The binade of a non-zero real, and the spacing of the format around it: 53 significant
  bits, and the fixed spacing \<open>2 ^ - 1074\<close> of the subnormal range below \<open>2 ^ - 1022\<close>.\<close>

definition binade :: "real \<Rightarrow> int" where
  "binade x = \<lfloor>log 2 \<bar>x\<bar>\<rfloor>"

definition ulp :: "real \<Rightarrow> real" where
  "ulp x = 2 powr real_of_int (max (binade x) (- 1022) - 52)"

text \<open>The nearest integer, the even one of the two at a tie.\<close>

definition roundEven :: "real \<Rightarrow> int" where
  "roundEven y =
     (let f = \<lfloor>y\<rfloor>; d = y - real_of_int f
      in if d < 1 / 2 then f
         else if 1 / 2 < d then f + 1
         else if even f then f else f + 1)"

text \<open>
  Rounding of an exact result. A result that is exactly zero takes the sign the operation
  gives it (\<open>neg\<close>); a non-zero result that rounds to zero keeps its own sign; a rounded result
  of magnitude \<open>2 ^ 1024\<close> or more overflows to the infinity of its sign.
\<close>

definition round64 :: "bool \<Rightarrow> real \<Rightarrow> float64" where
  "round64 neg x =
     (if x = 0 then (if neg then NegZero else Finite 0)
      else let r = real_of_int (roundEven (x / ulp x)) * ulp x
           in if r = 0 then (if x < 0 then NegZero else Finite 0)
              else if 2 ^ 1024 \<le> \<bar>r\<bar> then (if x < 0 then NegInf else PosInf)
              else Finite r)"

fun valueOf :: "float64 \<Rightarrow> real" where
  "valueOf (Finite x) = x"
| "valueOf _ = 0"

fun negative :: "float64 \<Rightarrow> bool" where
  "negative (Finite x) = (x < 0)"
| "negative NegZero = True"
| "negative NegInf = True"
| "negative _ = False"

fun isInf :: "float64 \<Rightarrow> bool" where
  "isInf PosInf = True"
| "isInf NegInf = True"
| "isInf _ = False"

fun isZero :: "float64 \<Rightarrow> bool" where
  "isZero (Finite x) = (x = 0)"
| "isZero NegZero = True"
| "isZero _ = False"

text \<open>\<^verbatim>\<open>a - b\<close>. An exact zero difference is the positive zero, except \<open>(-0) - (+0)\<close>.\<close>

definition fsub :: "float64 \<Rightarrow> float64 \<Rightarrow> float64" where
  "fsub a b =
     (if a = NaN \<or> b = NaN then NaN
      else if a = PosInf then (if b = PosInf then NaN else PosInf)
      else if a = NegInf then (if b = NegInf then NaN else NegInf)
      else if b = PosInf then NegInf
      else if b = NegInf then PosInf
      else round64 (a = NegZero \<and> b = Finite 0) (valueOf a - valueOf b))"

text \<open>\<^verbatim>\<open>a * b\<close> and \<^verbatim>\<open>a / b\<close>. The sign of a zero or infinite result is the product of the signs.\<close>

definition fmul :: "float64 \<Rightarrow> float64 \<Rightarrow> float64" where
  "fmul a b =
     (if a = NaN \<or> b = NaN then NaN
      else if isInf a \<or> isInf b
      then (if isZero a \<or> isZero b then NaN
            else if negative a \<noteq> negative b then NegInf else PosInf)
      else round64 (negative a \<noteq> negative b) (valueOf a * valueOf b))"

definition fdiv :: "float64 \<Rightarrow> float64 \<Rightarrow> float64" where
  "fdiv a b =
     (if a = NaN \<or> b = NaN then NaN
      else if isInf a
      then (if isInf b then NaN else if negative a \<noteq> negative b then NegInf else PosInf)
      else if isInf b then (if negative a \<noteq> negative b then NegZero else Finite 0)
      else if isZero b
      then (if isZero a then NaN else if negative a \<noteq> negative b then NegInf else PosInf)
      else round64 (negative a \<noteq> negative b) (valueOf a / valueOf b))"

text \<open>\<^verbatim>\<open>a < b\<close>, \<^verbatim>\<open>a > b\<close> and \<^verbatim>\<open>a <= b\<close>: false as soon as one side is a NaN; the two zeros are equal.\<close>

fun flt :: "float64 \<Rightarrow> float64 \<Rightarrow> bool" where
  "flt NaN b = False"
| "flt a NaN = False"
| "flt PosInf b = False"
| "flt a NegInf = False"
| "flt NegInf b = True"
| "flt a PosInf = True"
| "flt a b = (valueOf a < valueOf b)"

definition fgt :: "float64 \<Rightarrow> float64 \<Rightarrow> bool" where
  "fgt a b = flt b a"

definition fle :: "float64 \<Rightarrow> float64 \<Rightarrow> bool" where
  "fle a b = (a \<noteq> NaN \<and> b \<noteq> NaN \<and> \<not> flt b a)"

text \<open>The conversion \<^verbatim>\<open>float64(i)\<close> of an \<^verbatim>\<open>int\<close>.\<close>

definition ofInt :: "int \<Rightarrow> float64" where
  "ofInt i = round64 False (real_of_int i)"

subsection \<open>Evaluation\<close>

lemma binade_eq:
  assumes "2 powr real_of_int e \<le> \<bar>x\<bar>" and "\<bar>x\<bar> < 2 powr (real_of_int e + 1)"
  shows "binade x = e"
proof -
  from assms(1) have pos: "0 < \<bar>x\<bar>" by (smt (verit) powr_gt_zero)
  have "real_of_int e \<le> log 2 \<bar>x\<bar>" using assms(1) pos by (simp add: le_log_iff)
  moreover have "log 2 \<bar>x\<bar> < real_of_int e + 1" using assms(2) pos by (simp add: log_less_iff)
  ultimately show ?thesis unfolding binade_def by linarith
qed

lemma roundEven_int: "roundEven (real_of_int n) = n"
  by (simp add: roundEven_def)

lemma roundEven_near: "\<bar>real_of_int (roundEven y) - y\<bar> \<le> 1 / 2"
proof -
  have "real_of_int \<lfloor>y\<rfloor> \<le> y" "y < real_of_int \<lfloor>y\<rfloor> + 1" by linarith+
  then show ?thesis by (auto simp add: roundEven_def Let_def)
qed

lemma ulp_eq:
  assumes "binade x = e" and "- 1022 \<le> e"
  shows "ulp x = 2 powr real_of_int (e - 52)"
  using assms by (simp add: ulp_def max_def)

lemma round64_scaled:
  assumes b: "binade x = e" and lo: "- 1022 \<le> e" and hi: "e \<le> 52"
    and q: "q = 2 powr real_of_int (e - 52)"
    and big: "2 ^ 52 \<le> \<bar>x / q\<bar>" and small: "\<bar>x / q\<bar> < 2 ^ 53"
    and n: "roundEven (x / q) = n"
  shows "round64 neg x = Finite (real_of_int n * q)"
proof -
  have qpos: "0 < q" by (simp add: q)
  have u: "ulp x = q" using ulp_eq [OF b lo] q by simp
  from big have "x / q \<noteq> 0" by auto
  then have x0: "x \<noteq> 0" by auto
  from roundEven_near [of "x / q"] n have near: "\<bar>real_of_int n - x / q\<bar> \<le> 1 / 2" by simp
  with big have "2 ^ 52 - 1 / 2 \<le> \<bar>real_of_int n\<bar>" by linarith
  then have n0: "n \<noteq> 0" by auto
  from near small have "\<bar>real_of_int n\<bar> < 2 ^ 53 + 1 / 2" by linarith
  then have "real_of_int \<bar>n\<bar> < real_of_int (2 ^ 53 + 1)" by simp
  then have "\<bar>n\<bar> < 2 ^ 53 + 1" by (simp only: of_int_less_iff)
  then have "\<bar>n\<bar> \<le> 2 ^ 53" by simp
  then have "real_of_int \<bar>n\<bar> \<le> real_of_int (2 ^ 53)" by (simp only: of_int_le_iff)
  then have nle: "\<bar>real_of_int n\<bar> \<le> 2 ^ 53" by simp
  have "q \<le> 2 powr 0" unfolding q using hi by (intro powr_mono) auto
  then have q1: "q \<le> 1" by simp
  have "\<bar>real_of_int n * q\<bar> = \<bar>real_of_int n\<bar> * q" using qpos by (simp add: abs_mult)
  also have "\<dots> \<le> 2 ^ 53 * 1" using nle q1 qpos by (intro mult_mono) auto
  also have "\<dots> < (2::real) ^ 1024" by simp
  finally have fin: "\<not> 2 ^ 1024 \<le> \<bar>real_of_int n * q\<bar>" by simp
  have nz: "real_of_int n * q \<noteq> 0" using n0 qpos by simp
  show ?thesis using x0 fin nz by (simp add: round64_def u n Let_def)
qed

text \<open>Rounding in a binade at or above one, and in a binade below one.\<close>

lemma round64_high:
  assumes "2 ^ k \<le> \<bar>x\<bar>" and "\<bar>x\<bar> < 2 * 2 ^ k" and "k \<le> 52"
    and "roundEven (x * 2 ^ (52 - k)) = n"
  shows "round64 neg x = Finite (real_of_int n / 2 ^ (52 - k))"
proof -
  have p: "2 powr real_of_int (int k) = 2 ^ k"
    using powr_realpow [of 2 k] by simp
  have "2 powr (real_of_int (int k) + 1) = 2 powr real_of_int (int k) * 2 powr 1"
    by (rule powr_add)
  then have p': "2 powr (real_of_int (int k) + 1) = 2 * 2 ^ k"
    by (simp only: p) simp
  have b: "binade x = int k"
  proof (rule binade_eq)
    show "2 powr real_of_int (int k) \<le> \<bar>x\<bar>" unfolding p by (rule assms(1))
    show "\<bar>x\<bar> < 2 powr (real_of_int (int k) + 1)" unfolding p' by (rule assms(2))
  qed
  define q :: real where "q = 2 powr real_of_int (int k - 52)"
  have e: "real_of_int (int k - 52) = - real (52 - k)" using assms(3) by simp
  have "2 powr (- real (52 - k)) = inverse (2 powr real (52 - k))" by (rule powr_minus)
  also have "2 powr real (52 - k) = 2 ^ (52 - k)" by (rule powr_realpow) simp
  finally have q: "q = 1 / 2 ^ (52 - k)" unfolding q_def e by (simp only: inverse_eq_divide)
  have sc: "x / q = x * 2 ^ (52 - k)" by (simp add: q)
  have "(2::real) ^ k * 2 ^ (52 - k) = 2 ^ (k + (52 - k))" by (simp only: power_add)
  then have whole: "(2::real) ^ k * 2 ^ (52 - k) = 2 ^ 52" using assms(3) by simp
  have a: "\<bar>x * 2 ^ (52 - k)\<bar> = \<bar>x\<bar> * 2 ^ (52 - k)" by (simp add: abs_mult)
  have "2 ^ k * 2 ^ (52 - k) \<le> \<bar>x\<bar> * 2 ^ (52 - k)"
    using assms(1) by (intro mult_right_mono) auto
  then have big: "2 ^ 52 \<le> \<bar>x / q\<bar>" unfolding sc a whole .
  have "\<bar>x\<bar> * 2 ^ (52 - k) < (2 * 2 ^ k) * 2 ^ (52 - k)"
    using assms(2) by (intro mult_strict_right_mono) auto
  also have "(2 * 2 ^ k) * 2 ^ (52 - k) = 2 * ((2::real) ^ k * 2 ^ (52 - k))" by simp
  also have "\<dots> = 2 ^ 53" unfolding whole by simp
  finally have small: "\<bar>x / q\<bar> < 2 ^ 53" unfolding sc a .
  have lo: "- 1022 \<le> int k" by simp
  have hi: "int k \<le> 52" using assms(3) by simp
  have n: "roundEven (x / q) = n" unfolding sc by (rule assms(4))
  from round64_scaled [OF b lo hi q_def big small n, of neg]
  show ?thesis unfolding q by simp
qed

lemma round64_low:
  assumes "1 \<le> \<bar>x\<bar> * 2 ^ k" and "\<bar>x\<bar> * 2 ^ k < 2" and "k \<le> 1022"
    and "roundEven (x * 2 ^ (52 + k)) = n"
  shows "round64 neg x = Finite (real_of_int n / 2 ^ (52 + k))"
proof -
  have p: "2 powr (- real k) = 1 / 2 ^ k" by (simp add: powr_minus powr_realpow divide_simps)
  have "2 powr (real_of_int (- int k) + 1) = 2 powr (- real k) * 2 powr 1"
    by (simp only: powr_add [symmetric]) simp
  then have p': "2 powr (real_of_int (- int k) + 1) = 2 / 2 ^ k"
    by (simp add: p)
  have b: "binade x = - int k"
  proof (rule binade_eq)
    show "2 powr real_of_int (- int k) \<le> \<bar>x\<bar>"
      using assms(1) by (simp add: p divide_simps)
    show "\<bar>x\<bar> < 2 powr (real_of_int (- int k) + 1)"
      unfolding p' using assms(2) by (simp add: divide_simps)
  qed
  define q :: real where "q = 2 powr real_of_int (- int k - 52)"
  have e: "real_of_int (- int k - 52) = - real (52 + k)" by simp
  have "2 powr (- real (52 + k)) = inverse (2 powr real (52 + k))" by (rule powr_minus)
  also have "2 powr real (52 + k) = 2 ^ (52 + k)" by (rule powr_realpow) simp
  finally have q: "q = 1 / 2 ^ (52 + k)" unfolding q_def e by (simp only: inverse_eq_divide)
  have sc: "x / q = x * 2 ^ (52 + k)" by (simp add: q)
  have "\<bar>x * 2 ^ (52 + k)\<bar> = (\<bar>x\<bar> * 2 ^ k) * 2 ^ 52" by (simp add: abs_mult power_add)
  moreover have "1 * 2 ^ 52 \<le> (\<bar>x\<bar> * 2 ^ k) * (2::real) ^ 52"
    using assms(1) by (intro mult_right_mono) auto
  moreover have "(\<bar>x\<bar> * 2 ^ k) * (2::real) ^ 52 < 2 * 2 ^ 52"
    using assms(2) by (intro mult_strict_right_mono) auto
  ultimately have big: "2 ^ 52 \<le> \<bar>x / q\<bar>" and small: "\<bar>x / q\<bar> < 2 ^ 53"
    by (simp_all add: sc)
  from round64_scaled [OF b _ _ q_def big small, of n neg] assms(3,4)
  show ?thesis by (simp add: sc q)
qed

section \<open>Context Synthesizer\<close>

text \<open>
  The position maps handed over by the trading manager are Go values of type
  \<^verbatim>\<open>map[string]interface{}\<close>. A dynamically typed entry is one of the dynamic types
  the code asserts on (\<^verbatim>\<open>string\<close>, \<^verbatim>\<open>float64\<close>, \<^verbatim>\<open>int\<close>) or anything else;
  a missing key reads as the nil interface, on which every type assertion fails.
\<close>

datatype iface = IString string | IFloat64 float64 | IInt int | IOther

text \<open>The type assertions \<^verbatim>\<open>v, ok := x.(T)\<close> on a map entry; \<open>None\<close> is \<^verbatim>\<open>ok == false\<close>.\<close>

fun assertString :: "iface option \<Rightarrow> string option" where
  "assertString (Some (IString s)) = Some s"
| "assertString _ = None"

fun assertFloat64 :: "iface option \<Rightarrow> float64 option" where
  "assertFloat64 (Some (IFloat64 x)) = Some x"
| "assertFloat64 _ = None"

fun assertInt :: "iface option \<Rightarrow> int option" where
  "assertInt (Some (IInt i)) = Some i"
| "assertInt _ = None"

record PositionSummary =
  Symbol :: string
  Side :: string
  Size :: float64
  EntryPrice :: float64
  MarkPrice :: float64
  UnrealizedPnL :: float64
  PnLPercent :: float64
  Leverage :: int
  LiquidationPrice :: float64
  TraderID :: string
  TraderName :: string

record Alert =
  Level :: string
  Type :: string
  Message :: string

text \<open>
  Of \<^verbatim>\<open>TradingContext\<close> only the two fields that the alert derivation and the monitor read
  or write are kept.
\<close>

record TradingContext =
  Positions :: "PositionSummary list"
  Alerts :: "Alert list"

text \<open>
  \<^verbatim>\<open>parsePosition\<close>, statement by statement. Each guarded assignment
  \<^verbatim>\<open>if v, ok := pos[k].(T); ok { summary.F = v }\<close> is the update of \<open>F\<close> when the assertion
  succeeds and the identity otherwise, applied to the summary built so far.
  The closing block of the function (\<^verbatim>\<open>// Calculate PnL percent\<close>) is \<open>calcPnLPercent\<close>:
  the expression \<^verbatim>\<open>((mark - entry) / entry) * 100 * float64(leverage)\<close> is a subtraction, a
  division and two multiplications of binary64, each one rounded, in that order.
  \<^verbatim>\<open>strings.ToLower\<close> belongs to the Go standard library and is a parameter. The function
  never returns nil.
\<close>

definition calcPnLPercent :: "PositionSummary \<Rightarrow> PositionSummary" where
  "calcPnLPercent summary =
    (if fgt (EntryPrice summary) (Finite 0) \<and> fgt (Size summary) (Finite 0)
     then (if Side summary = ''long''
           then summary\<lparr>PnLPercent :=
                  fmul (fmul (fdiv (fsub (MarkPrice summary) (EntryPrice summary))
                                   (EntryPrice summary))
                             (Finite 100))
                       (ofInt (Leverage summary))\<rparr>
           else summary\<lparr>PnLPercent :=
                  fmul (fmul (fdiv (fsub (EntryPrice summary) (MarkPrice summary))
                                   (EntryPrice summary))
                             (Finite 100))
                       (ofInt (Leverage summary))\<rparr>)
     else summary)"

definition parsePosition ::
  "(string \<Rightarrow> string) \<Rightarrow> (string \<rightharpoonup> iface) \<Rightarrow> string \<Rightarrow> string \<Rightarrow> PositionSummary" where
  "parsePosition ToLower pos traderID traderName =
    (let summary = \<lparr>Symbol = [], Side = [], Size = Finite 0, EntryPrice = Finite 0,
           MarkPrice = Finite 0, UnrealizedPnL = Finite 0, PnLPercent = Finite 0, Leverage = 0,
           LiquidationPrice = Finite 0, TraderID = traderID, TraderName = traderName\<rparr>;
         summary = (case assertString (pos ''symbol'') of
                      Some symbol \<Rightarrow> (\<lambda>s. s\<lparr>Symbol := symbol\<rparr>) | None \<Rightarrow> (\<lambda>s. s)) summary;
         summary = (case assertString (pos ''side'') of
                      Some side \<Rightarrow> (\<lambda>s. s\<lparr>Side := ToLower side\<rparr>) | None \<Rightarrow> (\<lambda>s. s)) summary;
         summary = (case assertFloat64 (pos ''size'') of
                      Some sz \<Rightarrow> (\<lambda>s. s\<lparr>Size := sz\<rparr>) | None \<Rightarrow> (\<lambda>s. s)) summary;
         summary = (case assertFloat64 (pos ''entry_price'') of
                      Some entry \<Rightarrow> (\<lambda>s. s\<lparr>EntryPrice := entry\<rparr>) | None \<Rightarrow> (\<lambda>s. s)) summary;
         summary = (case assertFloat64 (pos ''mark_price'') of
                      Some mark \<Rightarrow> (\<lambda>s. s\<lparr>MarkPrice := mark\<rparr>) | None \<Rightarrow> (\<lambda>s. s)) summary;
         summary = (case assertFloat64 (pos ''unrealized_pnl'') of
                      Some pnl \<Rightarrow> (\<lambda>s. s\<lparr>UnrealizedPnL := pnl\<rparr>) | None \<Rightarrow> (\<lambda>s. s)) summary;
         summary = (case assertInt (pos ''leverage'') of
                      Some lev \<Rightarrow> (\<lambda>s. s\<lparr>Leverage := lev\<rparr>) | None \<Rightarrow> (\<lambda>s. s)) summary;
         summary = (case assertFloat64 (pos ''liquidation_price'') of
                      Some liq \<Rightarrow> (\<lambda>s. s\<lparr>LiquidationPrice := liq\<rparr>) | None \<Rightarrow> (\<lambda>s. s)) summary
     in calcPnLPercent summary)"

text \<open>
  The alert messages are rendered by \<^verbatim>\<open>fmt.Sprintf\<close> from format strings outside ASCII
  and a \<^verbatim>\<open>%.1f\<close> float verb. The rendering of each of the five alert sites is a parameter;
  its arguments are the ones the source passes (symbol, side, the percentage).
\<close>

datatype alert_site = LiqDanger | LiqWarning | LossDanger | LossWarning | ProfitInfo

type_synonym alert_fmt = "alert_site \<Rightarrow> string \<Rightarrow> string \<Rightarrow> float64 \<Rightarrow> string"

text \<open>The local \<^verbatim>\<open>distancePercent\<close> of \<^verbatim>\<open>checkPositionAlerts\<close>: a subtraction, a division and
  a multiplication of binary64.\<close>

definition distancePercent :: "PositionSummary \<Rightarrow> float64" where
  "distancePercent pos =
    (if Side pos = ''long''
     then fmul (fdiv (fsub (MarkPrice pos) (LiquidationPrice pos)) (MarkPrice pos)) (Finite 100)
     else fmul (fdiv (fsub (LiquidationPrice pos) (MarkPrice pos)) (MarkPrice pos)) (Finite 100))"

definition checkPositionAlerts :: "alert_fmt \<Rightarrow> TradingContext \<Rightarrow> PositionSummary \<Rightarrow> TradingContext" where
  "checkPositionAlerts sprintf ctx pos =
    (let ctx =
           (if fgt (LiquidationPrice pos) (Finite 0) \<and> fgt (MarkPrice pos) (Finite 0)
            then (if flt (distancePercent pos) (Finite 5)
                  then ctx\<lparr>Alerts := Alerts ctx @
                         [\<lparr>Level = ''danger'', Type = ''liquidation_risk'',
                           Message = sprintf LiqDanger (Symbol pos) (Side pos) (distancePercent pos)\<rparr>]\<rparr>
                  else if flt (distancePercent pos) (Finite 10)
                  then ctx\<lparr>Alerts := Alerts ctx @
                         [\<lparr>Level = ''warning'', Type = ''liquidation_risk'',
                           Message = sprintf LiqWarning (Symbol pos) (Side pos) (distancePercent pos)\<rparr>]\<rparr>
                  else ctx)
            else ctx);
         ctx =
           (if flt (PnLPercent pos) (Finite (- 20))
            then ctx\<lparr>Alerts := Alerts ctx @
                   [\<lparr>Level = ''danger'', Type = ''large_loss'',
                     Message = sprintf LossDanger (Symbol pos) (Side pos) (PnLPercent pos)\<rparr>]\<rparr>
            else if flt (PnLPercent pos) (Finite (- 10))
            then ctx\<lparr>Alerts := Alerts ctx @
                   [\<lparr>Level = ''warning'', Type = ''large_loss'',
                     Message = sprintf LossWarning (Symbol pos) (Side pos) (PnLPercent pos)\<rparr>]\<rparr>
            else ctx)
     in if fgt (PnLPercent pos) (Finite 50)
        then ctx\<lparr>Alerts := Alerts ctx @
               [\<lparr>Level = ''info'', Type = ''large_profit'',
                 Message = sprintf ProfitInfo (Symbol pos) (Side pos) (PnLPercent pos)\<rparr>]\<rparr>
        else ctx)"


subsection \<open>Instances of the library parameters used for concrete runs\<close>

text \<open>
  On a string of ASCII bytes \<^verbatim>\<open>strings.ToLower\<close> maps the letters \<open>A\<close> to \<open>Z\<close> to lower
  case and keeps every other byte. The concrete runs below only involve such strings.
\<close>

definition asciiToLower :: "string \<Rightarrow> string" where
  "asciiToLower s =
     map (\<lambda>c. case map_of (zip ''ABCDEFGHIJKLMNOPQRSTUVWXYZ'' ''abcdefghijklmnopqrstuvwxyz'') c of
                 Some d \<Rightarrow> d | None \<Rightarrow> c) s"

text \<open>A stand-in for the message rendering: symbol and side separated by a blank.\<close>

definition plainFmt :: alert_fmt where
  "plainFmt site symbol side x = symbol @ '' '' @ side"

subsection \<open>Binary64 results at concrete prices\<close>

text \<open>
  The P&L expression at entry 100, mark 110, leverage 5, long and short; at entry 100, mark
  107, leverage 5, where the rounded result is 35.00000000000001; and at entry 17, mark 13.6
  (the binary64 value nearest to it), leverage 1, where the rounded result is - 20 exactly.
\<close>

lemma pnl_long_100_110_5:
  "fmul (fmul (fdiv (fsub (Finite 110) (Finite 100)) (Finite 100)) (Finite 100)) (ofInt 5) = Finite 50"
proof -
  have s: "fsub (Finite 110) (Finite 100) = Finite 10"
  proof -
    have "fsub (Finite 110) (Finite 100) = round64 False ((110) - (100))"
      by (simp add: fsub_def)
    also have "\<dots> = Finite (real_of_int 5629499534213120 / 2 ^ (52 - 3))"
      by (rule round64_high) (simp_all add: roundEven_def)
    finally show ?thesis by simp
  qed
  have d: "fdiv (Finite 10) (Finite 100) = Finite (3602879701896397 / 36028797018963968)"
  proof -
    have "fdiv (Finite 10) (Finite 100) = round64 False ((10) / (100))"
      by (simp add: fdiv_def)
    also have "\<dots> = Finite (real_of_int 7205759403792794 / 2 ^ (52 + 4))"
      by (rule round64_low) (simp_all add: roundEven_def)
    finally show ?thesis by simp
  qed
  have m: "fmul (Finite (3602879701896397 / 36028797018963968)) (Finite 100) = Finite 10"
  proof -
    have "fmul (Finite (3602879701896397 / 36028797018963968)) (Finite 100) = round64 False ((3602879701896397 / 36028797018963968) * (100))"
      by (simp add: fmul_def)
    also have "\<dots> = Finite (real_of_int 5629499534213120 / 2 ^ (52 - 3))"
      by (rule round64_high) (simp_all add: roundEven_def)
    finally show ?thesis by simp
  qed
  have c: "ofInt 5 = Finite 5"
  proof -
    have "ofInt 5 = round64 False (5)"
      by (simp add: ofInt_def)
    also have "\<dots> = Finite (real_of_int 5629499534213120 / 2 ^ (52 - 2))"
      by (rule round64_high) (simp_all add: roundEven_def)
    finally show ?thesis by simp
  qed
  have l: "fmul (Finite 10) (Finite 5) = Finite 50"
  proof -
    have "fmul (Finite 10) (Finite 5) = round64 False ((10) * (5))"
      by (simp add: fmul_def)
    also have "\<dots> = Finite (real_of_int 7036874417766400 / 2 ^ (52 - 5))"
      by (rule round64_high) (simp_all add: roundEven_def)
    finally show ?thesis by simp
  qed
  show ?thesis by (simp only: s d m c l)
qed

lemma pnl_short_100_110_5:
  "fmul (fmul (fdiv (fsub (Finite 100) (Finite 110)) (Finite 100)) (Finite 100)) (ofInt 5) = Finite (- 50)"
proof -
  have s: "fsub (Finite 100) (Finite 110) = Finite (- 10)"
  proof -
    have "fsub (Finite 100) (Finite 110) = round64 False ((100) - (110))"
      by (simp add: fsub_def)
    also have "\<dots> = Finite (real_of_int (- 5629499534213120) / 2 ^ (52 - 3))"
      by (rule round64_high) (simp_all add: roundEven_def)
    finally show ?thesis by simp
  qed
  have d: "fdiv (Finite (- 10)) (Finite 100) = Finite (- (3602879701896397 / 36028797018963968))"
  proof -
    have "fdiv (Finite (- 10)) (Finite 100) = round64 True ((- 10) / (100))"
      by (simp add: fdiv_def)
    also have "\<dots> = Finite (real_of_int (- 7205759403792794) / 2 ^ (52 + 4))"
      by (rule round64_low) (simp_all add: roundEven_def)
    finally show ?thesis by simp
  qed
  have m: "fmul (Finite (- (3602879701896397 / 36028797018963968))) (Finite 100) = Finite (- 10)"
  proof -
    have "fmul (Finite (- (3602879701896397 / 36028797018963968))) (Finite 100) = round64 True ((- (3602879701896397 / 36028797018963968)) * (100))"
      by (simp add: fmul_def)
    also have "\<dots> = Finite (real_of_int (- 5629499534213120) / 2 ^ (52 - 3))"
      by (rule round64_high) (simp_all add: roundEven_def)
    finally show ?thesis by simp
  qed
  have c: "ofInt 5 = Finite 5"
  proof -
    have "ofInt 5 = round64 False (5)"
      by (simp add: ofInt_def)
    also have "\<dots> = Finite (real_of_int 5629499534213120 / 2 ^ (52 - 2))"
      by (rule round64_high) (simp_all add: roundEven_def)
    finally show ?thesis by simp
  qed
  have l: "fmul (Finite (- 10)) (Finite 5) = Finite (- 50)"
  proof -
    have "fmul (Finite (- 10)) (Finite 5) = round64 True ((- 10) * (5))"
      by (simp add: fmul_def)
    also have "\<dots> = Finite (real_of_int (- 7036874417766400) / 2 ^ (52 - 5))"
      by (rule round64_high) (simp_all add: roundEven_def)
    finally show ?thesis by simp
  qed
  show ?thesis by (simp only: s d m c l)
qed

lemma pnl_long_100_107_5:
  "fmul (fmul (fdiv (fsub (Finite 107) (Finite 100)) (Finite 100)) (Finite 100)) (ofInt 5) = Finite (4925812092436481 / 140737488355328)"
proof -
  have s: "fsub (Finite 107) (Finite 100) = Finite 7"
  proof -
    have "fsub (Finite 107) (Finite 100) = round64 False ((107) - (100))"
      by (simp add: fsub_def)
    also have "\<dots> = Finite (real_of_int 7881299347898368 / 2 ^ (52 - 2))"
      by (rule round64_high) (simp_all add: roundEven_def)
    finally show ?thesis by simp
  qed
  have d: "fdiv (Finite 7) (Finite 100) = Finite (1261007895663739 / 18014398509481984)"
  proof -
    have "fdiv (Finite 7) (Finite 100) = round64 False ((7) / (100))"
      by (simp add: fdiv_def)
    also have "\<dots> = Finite (real_of_int 5044031582654956 / 2 ^ (52 + 4))"
      by (rule round64_low) (simp_all add: roundEven_def)
    finally show ?thesis by simp
  qed
  have m: "fmul (Finite (1261007895663739 / 18014398509481984)) (Finite 100) = Finite (7881299347898369 / 1125899906842624)"
  proof -
    have "fmul (Finite (1261007895663739 / 18014398509481984)) (Finite 100) = round64 False ((1261007895663739 / 18014398509481984) * (100))"
      by (simp add: fmul_def)
    also have "\<dots> = Finite (real_of_int 7881299347898369 / 2 ^ (52 - 2))"
      by (rule round64_high) (simp_all add: roundEven_def)
    finally show ?thesis by simp
  qed
  have c: "ofInt 5 = Finite 5"
  proof -
    have "ofInt 5 = round64 False (5)"
      by (simp add: ofInt_def)
    also have "\<dots> = Finite (real_of_int 5629499534213120 / 2 ^ (52 - 2))"
      by (rule round64_high) (simp_all add: roundEven_def)
    finally show ?thesis by simp
  qed
  have l: "fmul (Finite (7881299347898369 / 1125899906842624)) (Finite 5) = Finite (4925812092436481 / 140737488355328)"
  proof -
    have "fmul (Finite (7881299347898369 / 1125899906842624)) (Finite 5) = round64 False ((7881299347898369 / 1125899906842624) * (5))"
      by (simp add: fmul_def)
    also have "\<dots> = Finite (real_of_int 4925812092436481 / 2 ^ (52 - 5))"
      by (rule round64_high) (simp_all add: roundEven_def)
    finally show ?thesis by simp
  qed
  show ?thesis by (simp only: s d m c l)
qed

lemma pnl_long_17_13p6_1:
  "fmul (fmul (fdiv (fsub (Finite (7656119366529843 / 562949953421312)) (Finite 17)) (Finite 17)) (Finite 100)) (ofInt 1) = Finite (- 20)"
proof -
  have s: "fsub (Finite (7656119366529843 / 562949953421312)) (Finite 17) = Finite (- (1914029841632461 / 562949953421312))"
  proof -
    have "fsub (Finite (7656119366529843 / 562949953421312)) (Finite 17) = round64 False ((7656119366529843 / 562949953421312) - (17))"
      by (simp add: fsub_def)
    also have "\<dots> = Finite (real_of_int (- 7656119366529844) / 2 ^ (52 - 1))"
      by (rule round64_high) (simp_all add: roundEven_def)
    finally show ?thesis by simp
  qed
  have d: "fdiv (Finite (- (1914029841632461 / 562949953421312))) (Finite 17) = Finite (- (3602879701896397 / 18014398509481984))"
  proof -
    have "fdiv (Finite (- (1914029841632461 / 562949953421312))) (Finite 17) = round64 True ((- (1914029841632461 / 562949953421312)) / (17))"
      by (simp add: fdiv_def)
    also have "\<dots> = Finite (real_of_int (- 7205759403792794) / 2 ^ (52 + 3))"
      by (rule round64_low) (simp_all add: roundEven_def)
    finally show ?thesis by simp
  qed
  have m: "fmul (Finite (- (3602879701896397 / 18014398509481984))) (Finite 100) = Finite (- 20)"
  proof -
    have "fmul (Finite (- (3602879701896397 / 18014398509481984))) (Finite 100) = round64 True ((- (3602879701896397 / 18014398509481984)) * (100))"
      by (simp add: fmul_def)
    also have "\<dots> = Finite (real_of_int (- 5629499534213120) / 2 ^ (52 - 4))"
      by (rule round64_high) (simp_all add: roundEven_def)
    finally show ?thesis by simp
  qed
  have c: "ofInt 1 = Finite 1"
  proof -
    have "ofInt 1 = round64 False (1)"
      by (simp add: ofInt_def)
    also have "\<dots> = Finite (real_of_int 4503599627370496 / 2 ^ (52 - 0))"
      by (rule round64_high) (simp_all add: roundEven_def)
    finally show ?thesis by simp
  qed
  have l: "fmul (Finite (- 20)) (Finite 1) = Finite (- 20)"
  proof -
    have "fmul (Finite (- 20)) (Finite 1) = round64 True ((- 20) * (1))"
      by (simp add: fmul_def)
    also have "\<dots> = Finite (real_of_int (- 5629499534213120) / 2 ^ (52 - 4))"
      by (rule round64_high) (simp_all add: roundEven_def)
    finally show ?thesis by simp
  qed
  show ?thesis by (simp only: s d m c l)
qed

text \<open>
  The distance expression for a long position at mark 100 and liquidation price 96, at 6.7 and
  6.365 (rounded result 5 exactly), at 6.3 and 5.67 (rounded result 10 exactly), the prices
  being the binary64 values nearest to the decimals, and for a short position at 100 and 104.
\<close>

lemma dist_long_100_96:
  "fmul (fdiv (fsub (Finite 100) (Finite 96)) (Finite 100)) (Finite 100) = Finite 4"
proof -
  have s: "fsub (Finite 100) (Finite 96) = Finite 4"
  proof -
    have "fsub (Finite 100) (Finite 96) = round64 False ((100) - (96))"
      by (simp add: fsub_def)
    also have "\<dots> = Finite (real_of_int 4503599627370496 / 2 ^ (52 - 2))"
      by (rule round64_high) (simp_all add: roundEven_def)
    finally show ?thesis by simp
  qed
  have d: "fdiv (Finite 4) (Finite 100) = Finite (5764607523034235 / 144115188075855872)"
  proof -
    have "fdiv (Finite 4) (Finite 100) = round64 False ((4) / (100))"
      by (simp add: fdiv_def)
    also have "\<dots> = Finite (real_of_int 5764607523034235 / 2 ^ (52 + 5))"
      by (rule round64_low) (simp_all add: roundEven_def)
    finally show ?thesis by simp
  qed
  have m: "fmul (Finite (5764607523034235 / 144115188075855872)) (Finite 100) = Finite 4"
  proof -
    have "fmul (Finite (5764607523034235 / 144115188075855872)) (Finite 100) = round64 False ((5764607523034235 / 144115188075855872) * (100))"
      by (simp add: fmul_def)
    also have "\<dots> = Finite (real_of_int 4503599627370496 / 2 ^ (52 - 2))"
      by (rule round64_high) (simp_all add: roundEven_def)
    finally show ?thesis by simp
  qed
  show ?thesis by (simp only: s d m)
qed

lemma dist_long_6p7_6p365:
  "fmul (fdiv (fsub (Finite (7543529375845581 / 1125899906842624)) (Finite (3583176453526651 / 562949953421312))) (Finite (7543529375845581 / 1125899906842624))) (Finite 100) = Finite 5"
proof -
  have s: "fsub (Finite (7543529375845581 / 1125899906842624)) (Finite (3583176453526651 / 562949953421312)) = Finite (377176468792279 / 1125899906842624)"
  proof -
    have "fsub (Finite (7543529375845581 / 1125899906842624)) (Finite (3583176453526651 / 562949953421312)) = round64 False ((7543529375845581 / 1125899906842624) - (3583176453526651 / 562949953421312))"
      by (simp add: fsub_def)
    also have "\<dots> = Finite (real_of_int 6034823500676464 / 2 ^ (52 + 2))"
      by (rule round64_low) (simp_all add: roundEven_def)
    finally show ?thesis by simp
  qed
  have d: "fdiv (Finite (377176468792279 / 1125899906842624)) (Finite (7543529375845581 / 1125899906842624)) = Finite (7205759403792793 / 144115188075855872)"
  proof -
    have "fdiv (Finite (377176468792279 / 1125899906842624)) (Finite (7543529375845581 / 1125899906842624)) = round64 False ((377176468792279 / 1125899906842624) / (7543529375845581 / 1125899906842624))"
      by (simp add: fdiv_def)
    also have "\<dots> = Finite (real_of_int 7205759403792793 / 2 ^ (52 + 5))"
      by (rule round64_low) (simp_all add: roundEven_def)
    finally show ?thesis by simp
  qed
  have m: "fmul (Finite (7205759403792793 / 144115188075855872)) (Finite 100) = Finite 5"
  proof -
    have "fmul (Finite (7205759403792793 / 144115188075855872)) (Finite 100) = round64 False ((7205759403792793 / 144115188075855872) * (100))"
      by (simp add: fmul_def)
    also have "\<dots> = Finite (real_of_int 5629499534213120 / 2 ^ (52 - 2))"
      by (rule round64_high) (simp_all add: roundEven_def)
    finally show ?thesis by simp
  qed
  show ?thesis by (simp only: s d m)
qed

lemma dist_long_6p3_5p67:
  "fmul (fdiv (fsub (Finite (7093169413108531 / 1125899906842624)) (Finite (3191926235898839 / 562949953421312))) (Finite (7093169413108531 / 1125899906842624))) (Finite 100) = Finite 10"
proof -
  have s: "fsub (Finite (7093169413108531 / 1125899906842624)) (Finite (3191926235898839 / 562949953421312)) = Finite (709316941310853 / 1125899906842624)"
  proof -
    have "fsub (Finite (7093169413108531 / 1125899906842624)) (Finite (3191926235898839 / 562949953421312)) = round64 False ((7093169413108531 / 1125899906842624) - (3191926235898839 / 562949953421312))"
      by (simp add: fsub_def)
    also have "\<dots> = Finite (real_of_int 5674535530486824 / 2 ^ (52 + 1))"
      by (rule round64_low) (simp_all add: roundEven_def)
    finally show ?thesis by simp
  qed
  have d: "fdiv (Finite (709316941310853 / 1125899906842624)) (Finite (7093169413108531 / 1125899906842624)) = Finite (7205759403792793 / 72057594037927936)"
  proof -
    have "fdiv (Finite (709316941310853 / 1125899906842624)) (Finite (7093169413108531 / 1125899906842624)) = round64 False ((709316941310853 / 1125899906842624) / (7093169413108531 / 1125899906842624))"
      by (simp add: fdiv_def)
    also have "\<dots> = Finite (real_of_int 7205759403792793 / 2 ^ (52 + 4))"
      by (rule round64_low) (simp_all add: roundEven_def)
    finally show ?thesis by simp
  qed
  have m: "fmul (Finite (7205759403792793 / 72057594037927936)) (Finite 100) = Finite 10"
  proof -
    have "fmul (Finite (7205759403792793 / 72057594037927936)) (Finite 100) = round64 False ((7205759403792793 / 72057594037927936) * (100))"
      by (simp add: fmul_def)
    also have "\<dots> = Finite (real_of_int 5629499534213120 / 2 ^ (52 - 3))"
      by (rule round64_high) (simp_all add: roundEven_def)
    finally show ?thesis by simp
  qed
  show ?thesis by (simp only: s d m)
qed

lemma dist_short_100_104:
  "fmul (fdiv (fsub (Finite 104) (Finite 100)) (Finite 100)) (Finite 100) = Finite 4"
proof -
  have s: "fsub (Finite 104) (Finite 100) = Finite 4"
  proof -
    have "fsub (Finite 104) (Finite 100) = round64 False ((104) - (100))"
      by (simp add: fsub_def)
    also have "\<dots> = Finite (real_of_int 4503599627370496 / 2 ^ (52 - 2))"
      by (rule round64_high) (simp_all add: roundEven_def)
    finally show ?thesis by simp
  qed
  have d: "fdiv (Finite 4) (Finite 100) = Finite (5764607523034235 / 144115188075855872)"
  proof -
    have "fdiv (Finite 4) (Finite 100) = round64 False ((4) / (100))"
      by (simp add: fdiv_def)
    also have "\<dots> = Finite (real_of_int 5764607523034235 / 2 ^ (52 + 5))"
      by (rule round64_low) (simp_all add: roundEven_def)
    finally show ?thesis by simp
  qed
  have m: "fmul (Finite (5764607523034235 / 144115188075855872)) (Finite 100) = Finite 4"
  proof -
    have "fmul (Finite (5764607523034235 / 144115188075855872)) (Finite 100) = round64 False ((5764607523034235 / 144115188075855872) * (100))"
      by (simp add: fmul_def)
    also have "\<dots> = Finite (real_of_int 4503599627370496 / 2 ^ (52 - 2))"
      by (rule round64_high) (simp_all add: roundEven_def)
    finally show ?thesis by simp
  qed
  show ?thesis by (simp only: s d m)
qed

subsection \<open>Properties of \<open>parsePosition\<close>\<close>

definition orElse :: "'a option \<Rightarrow> 'a \<Rightarrow> 'a" where
  "orElse x d = (case x of Some v \<Rightarrow> v | None \<Rightarrow> d)"

text \<open>The summary as it stands right before the P&L block: every field is the asserted
  map entry, or the zero value of its type.\<close>

definition parsedFields ::
  "(string \<Rightarrow> string) \<Rightarrow> (string \<rightharpoonup> iface) \<Rightarrow> string \<Rightarrow> string \<Rightarrow> PositionSummary" where
  "parsedFields ToLower pos traderID traderName =
     \<lparr>Symbol = orElse (assertString (pos ''symbol'')) [],
      Side = orElse (map_option ToLower (assertString (pos ''side''))) [],
      Size = orElse (assertFloat64 (pos ''size'')) (Finite 0),
      EntryPrice = orElse (assertFloat64 (pos ''entry_price'')) (Finite 0),
      MarkPrice = orElse (assertFloat64 (pos ''mark_price'')) (Finite 0),
      UnrealizedPnL = orElse (assertFloat64 (pos ''unrealized_pnl'')) (Finite 0),
      PnLPercent = Finite 0,
      Leverage = orElse (assertInt (pos ''leverage'')) 0,
      LiquidationPrice = orElse (assertFloat64 (pos ''liquidation_price'')) (Finite 0),
      TraderID = traderID, TraderName = traderName\<rparr>"

lemma guarded_assign:
  "\<And>x s. (case x of Some v \<Rightarrow> (\<lambda>s. s\<lparr>Symbol := v\<rparr>) | None \<Rightarrow> (\<lambda>s. s)) s
      = s\<lparr>Symbol := orElse x (Symbol s)\<rparr>"
  "\<And>x s. (case x of Some v \<Rightarrow> (\<lambda>s. s\<lparr>Side := f v\<rparr>) | None \<Rightarrow> (\<lambda>s. s)) s
      = s\<lparr>Side := orElse (map_option f x) (Side s)\<rparr>"
  "\<And>y s. (case y of Some v \<Rightarrow> (\<lambda>s. s\<lparr>Size := v\<rparr>) | None \<Rightarrow> (\<lambda>s. s)) s
      = s\<lparr>Size := orElse y (Size s)\<rparr>"
  "\<And>y s. (case y of Some v \<Rightarrow> (\<lambda>s. s\<lparr>EntryPrice := v\<rparr>) | None \<Rightarrow> (\<lambda>s. s)) s
      = s\<lparr>EntryPrice := orElse y (EntryPrice s)\<rparr>"
  "\<And>y s. (case y of Some v \<Rightarrow> (\<lambda>s. s\<lparr>MarkPrice := v\<rparr>) | None \<Rightarrow> (\<lambda>s. s)) s
      = s\<lparr>MarkPrice := orElse y (MarkPrice s)\<rparr>"
  "\<And>y s. (case y of Some v \<Rightarrow> (\<lambda>s. s\<lparr>UnrealizedPnL := v\<rparr>) | None \<Rightarrow> (\<lambda>s. s)) s
      = s\<lparr>UnrealizedPnL := orElse y (UnrealizedPnL s)\<rparr>"
  "\<And>z s. (case z of Some v \<Rightarrow> (\<lambda>s. s\<lparr>Leverage := v\<rparr>) | None \<Rightarrow> (\<lambda>s. s)) s
      = s\<lparr>Leverage := orElse z (Leverage s)\<rparr>"
  "\<And>y s. (case y of Some v \<Rightarrow> (\<lambda>s. s\<lparr>LiquidationPrice := v\<rparr>) | None \<Rightarrow> (\<lambda>s. s)) s
      = s\<lparr>LiquidationPrice := orElse y (LiquidationPrice s)\<rparr>"
  by (simp_all add: orElse_def split: option.splits)

lemma parsePosition_closed:
  "parsePosition ToLower pos traderID traderName =
     calcPnLPercent (parsedFields ToLower pos traderID traderName)"
  unfolding parsePosition_def Let_def parsedFields_def
  by (simp add: guarded_assign)

lemma calcPnLPercent_keeps:
  "Symbol (calcPnLPercent s) = Symbol s"
  "Side (calcPnLPercent s) = Side s"
  "Size (calcPnLPercent s) = Size s"
  "EntryPrice (calcPnLPercent s) = EntryPrice s"
  "MarkPrice (calcPnLPercent s) = MarkPrice s"
  "Leverage (calcPnLPercent s) = Leverage s"
  "LiquidationPrice (calcPnLPercent s) = LiquidationPrice s"
  "TraderID (calcPnLPercent s) = TraderID s"
  by (simp_all add: calcPnLPercent_def)

lemma PnLPercent_parsedFields:
  "PnLPercent (parsedFields ToLower pos traderID traderName) = Finite 0"
  by (simp add: parsedFields_def)

text \<open>
  C4. For every position parsed by the Context Synthesizer, the P&L percent of the summary
  is \<open>((mark - entry) / entry) * 100 * leverage\<close> when the side is long and
  \<open>((entry - mark) / entry) * 100 * leverage\<close> when the side is short, provided entry price
  and size are positive; the expression is evaluated in binary64 as the code evaluates it,
  from left to right with every operation rounded. The P&L percent keeps its default, the
  positive zero, when entry price or size is not positive (zero, negative or NaN).
  In particular a long position with entry 100, mark 110, leverage 5 (and a positive size)
  has P&L percent 50, and the short position with the same figures has - 50. The entry
  price, mark price, size, leverage and side of the summary are the entries of the position
  map that carry the asserted dynamic type (the side in lower case), and the zero value
  otherwise.
\<close>

theorem parsePosition_PnLPercent:
  fixes ToLower pos traderID traderName
  defines "s \<equiv> parsePosition ToLower pos traderID traderName"
  shows "(fgt (EntryPrice s) (Finite 0) \<and> fgt (Size s) (Finite 0) \<and> Side s = ''long'' \<longrightarrow>
            PnLPercent s =
              fmul (fmul (fdiv (fsub (MarkPrice s) (EntryPrice s)) (EntryPrice s)) (Finite 100))
                   (ofInt (Leverage s)))
       \<and> (fgt (EntryPrice s) (Finite 0) \<and> fgt (Size s) (Finite 0) \<and> Side s = ''short'' \<longrightarrow>
            PnLPercent s =
              fmul (fmul (fdiv (fsub (EntryPrice s) (MarkPrice s)) (EntryPrice s)) (Finite 100))
                   (ofInt (Leverage s)))
       \<and> (\<not> fgt (EntryPrice s) (Finite 0) \<or> \<not> fgt (Size s) (Finite 0) \<longrightarrow> PnLPercent s = Finite 0)
       \<and> (Side s = ''long'' \<and> EntryPrice s = Finite 100 \<and> MarkPrice s = Finite 110 \<and> Leverage s = 5
            \<and> fgt (Size s) (Finite 0)
            \<longrightarrow> PnLPercent s = Finite 50)
       \<and> (Side s = ''short'' \<and> EntryPrice s = Finite 100 \<and> MarkPrice s = Finite 110 \<and> Leverage s = 5
            \<and> fgt (Size s) (Finite 0)
            \<longrightarrow> PnLPercent s = Finite (- 50))
       \<and> EntryPrice s = orElse (assertFloat64 (pos ''entry_price'')) (Finite 0)
       \<and> MarkPrice s = orElse (assertFloat64 (pos ''mark_price'')) (Finite 0)
       \<and> Size s = orElse (assertFloat64 (pos ''size'')) (Finite 0)
       \<and> Leverage s = orElse (assertInt (pos ''leverage'')) 0
       \<and> Side s = orElse (map_option ToLower (assertString (pos ''side''))) []"
proof -
  have fields:
    "EntryPrice s = orElse (assertFloat64 (pos ''entry_price'')) (Finite 0)"
    "MarkPrice s = orElse (assertFloat64 (pos ''mark_price'')) (Finite 0)"
    "Size s = orElse (assertFloat64 (pos ''size'')) (Finite 0)"
    "Leverage s = orElse (assertInt (pos ''leverage'')) 0"
    "Side s = orElse (map_option ToLower (assertString (pos ''side''))) []"
    unfolding s_def parsePosition_closed calcPnLPercent_keeps
    by (simp_all add: parsedFields_def)
  have pnl:
    "PnLPercent s =
      (if fgt (EntryPrice s) (Finite 0) \<and> fgt (Size s) (Finite 0)
       then (if Side s = ''long''
             then fmul (fmul (fdiv (fsub (MarkPrice s) (EntryPrice s)) (EntryPrice s)) (Finite 100))
                       (ofInt (Leverage s))
             else fmul (fmul (fdiv (fsub (EntryPrice s) (MarkPrice s)) (EntryPrice s)) (Finite 100))
                       (ofInt (Leverage s)))
       else Finite 0)"
    unfolding s_def parsePosition_closed
    by (auto simp add: calcPnLPercent_def PnLPercent_parsedFields)
  have general:
    "fgt (EntryPrice s) (Finite 0) \<and> fgt (Size s) (Finite 0) \<and> Side s = ''long'' \<longrightarrow>
       PnLPercent s =
         fmul (fmul (fdiv (fsub (MarkPrice s) (EntryPrice s)) (EntryPrice s)) (Finite 100))
              (ofInt (Leverage s))"
    "fgt (EntryPrice s) (Finite 0) \<and> fgt (Size s) (Finite 0) \<and> Side s = ''short'' \<longrightarrow>
       PnLPercent s =
         fmul (fmul (fdiv (fsub (EntryPrice s) (MarkPrice s)) (EntryPrice s)) (Finite 100))
              (ofInt (Leverage s))"
    "\<not> fgt (EntryPrice s) (Finite 0) \<or> \<not> fgt (Size s) (Finite 0) \<longrightarrow> PnLPercent s = Finite 0"
    by (auto simp add: pnl)
  have positive: "fgt (Finite 100) (Finite 0)" by (simp add: fgt_def)
  have examples:
    "Side s = ''long'' \<and> EntryPrice s = Finite 100 \<and> MarkPrice s = Finite 110 \<and> Leverage s = 5
       \<and> fgt (Size s) (Finite 0)
       \<longrightarrow> PnLPercent s = Finite 50"
    "Side s = ''short'' \<and> EntryPrice s = Finite 100 \<and> MarkPrice s = Finite 110 \<and> Leverage s = 5
       \<and> fgt (Size s) (Finite 0)
       \<longrightarrow> PnLPercent s = Finite (- 50)"
    by (simp_all add: pnl positive pnl_long_100_110_5 pnl_short_100_110_5)
  from general examples fields show ?thesis by blast
qed

text \<open>
  The two positions of the claim, one with size zero, one with a NaN for entry price, and
  the long position at entry 100, mark 107, leverage 5, run through the code.
\<close>

definition position :: "string \<Rightarrow> float64 \<Rightarrow> float64 \<Rightarrow> float64 \<Rightarrow> int \<Rightarrow> (string \<rightharpoonup> iface)" where
  "position side sz entry mark lev =
     [''side'' \<mapsto> IString side, ''size'' \<mapsto> IFloat64 sz, ''entry_price'' \<mapsto> IFloat64 entry,
      ''mark_price'' \<mapsto> IFloat64 mark, ''leverage'' \<mapsto> IInt lev]"

lemma position_entries:
  "assertString (position side sz entry mark lev ''side'') = Some side"
  "assertFloat64 (position side sz entry mark lev ''size'') = Some sz"
  "assertFloat64 (position side sz entry mark lev ''entry_price'') = Some entry"
  "assertFloat64 (position side sz entry mark lev ''mark_price'') = Some mark"
  "assertInt (position side sz entry mark lev ''leverage'') = Some lev"
  by (simp_all add: position_def)

theorem parsePosition_PnLPercent_witness:
  "PnLPercent (parsePosition asciiToLower
       (position ''LONG'' (Finite 2) (Finite 100) (Finite 110) 5) ''t1'' ''alice'') = Finite 50
   \<and> PnLPercent (parsePosition asciiToLower
       (position ''short'' (Finite 2) (Finite 100) (Finite 110) 5) ''t1'' ''alice'') = Finite (- 50)
   \<and> PnLPercent (parsePosition asciiToLower
       (position ''long'' (Finite 0) (Finite 100) (Finite 110) 5) ''t1'' ''alice'') = Finite 0
   \<and> PnLPercent (parsePosition asciiToLower
       (position ''long'' (Finite 2) NaN (Finite 110) 5) ''t1'' ''alice'') = Finite 0
   \<and> PnLPercent (parsePosition asciiToLower
       (position ''long'' (Finite 2) (Finite 100) (Finite 107) 5) ''t1'' ''alice'')
       = Finite (4925812092436481 / 140737488355328)"
proof -
  have low: "asciiToLower ''LONG'' = ''long''" "asciiToLower ''long'' = ''long''"
    "asciiToLower ''short'' = ''short''"
    by (simp_all add: asciiToLower_def)
  have pos: "fgt (Finite 2) (Finite 0)" "fgt (Finite 100) (Finite 0)"
    "\<not> fgt (Finite 0) (Finite 0)" "\<not> fgt NaN (Finite 0)"
    by (simp_all add: fgt_def)
  have "PnLPercent (parsePosition asciiToLower
          (position ''LONG'' (Finite 2) (Finite 100) (Finite 110) 5) ''t1'' ''alice'') = Finite 50"
    using parsePosition_PnLPercent
      [of asciiToLower "position ''LONG'' (Finite 2) (Finite 100) (Finite 110) 5" "''t1''" "''alice''"]
    by (simp add: orElse_def position_entries low pos pnl_long_100_110_5 pnl_short_100_110_5)
  moreover have "PnLPercent (parsePosition asciiToLower
          (position ''short'' (Finite 2) (Finite 100) (Finite 110) 5) ''t1'' ''alice'') = Finite (- 50)"
    using parsePosition_PnLPercent
      [of asciiToLower "position ''short'' (Finite 2) (Finite 100) (Finite 110) 5" "''t1''" "''alice''"]
    by (simp add: orElse_def position_entries low pos pnl_long_100_110_5 pnl_short_100_110_5)
  moreover have "PnLPercent (parsePosition asciiToLower
          (position ''long'' (Finite 0) (Finite 100) (Finite 110) 5) ''t1'' ''alice'') = Finite 0"
    using parsePosition_PnLPercent
      [of asciiToLower "position ''long'' (Finite 0) (Finite 100) (Finite 110) 5" "''t1''" "''alice''"]
    by (simp add: orElse_def position_entries low pos pnl_long_100_110_5 pnl_short_100_110_5)
  moreover have "PnLPercent (parsePosition asciiToLower
          (position ''long'' (Finite 2) NaN (Finite 110) 5) ''t1'' ''alice'') = Finite 0"
    using parsePosition_PnLPercent
      [of asciiToLower "position ''long'' (Finite 2) NaN (Finite 110) 5" "''t1''" "''alice''"]
    by (simp add: orElse_def position_entries low pos pnl_long_100_110_5 pnl_short_100_110_5)
  moreover have "PnLPercent (parsePosition asciiToLower
          (position ''long'' (Finite 2) (Finite 100) (Finite 107) 5) ''t1'' ''alice'')
          = Finite (4925812092436481 / 140737488355328)"
    using parsePosition_PnLPercent
      [of asciiToLower "position ''long'' (Finite 2) (Finite 100) (Finite 107) 5" "''t1''" "''alice''"]
    by (simp add: orElse_def position_entries low pos pnl_long_100_107_5)
  ultimately show ?thesis by blast
qed

subsection \<open>Properties of \<open>checkPositionAlerts\<close>\<close>

text \<open>The alerts one call appends, and the alerts of one type among them.\<close>

definition newAlerts :: "alert_fmt \<Rightarrow> TradingContext \<Rightarrow> PositionSummary \<Rightarrow> Alert list" where
  "newAlerts sprintf ctx pos = drop (length (Alerts ctx)) (Alerts (checkPositionAlerts sprintf ctx pos))"

definition ofType :: "string \<Rightarrow> Alert list \<Rightarrow> Alert list" where
  "ofType t as = filter (\<lambda>a. Type a = t) as"

lemma checkPositionAlerts_appends:
  "Alerts (checkPositionAlerts sprintf ctx pos) =
     Alerts ctx
     @ (if fgt (LiquidationPrice pos) (Finite 0) \<and> fgt (MarkPrice pos) (Finite 0)
        then (if flt (distancePercent pos) (Finite 5)
              then [\<lparr>Level = ''danger'', Type = ''liquidation_risk'',
                      Message = sprintf LiqDanger (Symbol pos) (Side pos) (distancePercent pos)\<rparr>]
              else if flt (distancePercent pos) (Finite 10)
              then [\<lparr>Level = ''warning'', Type = ''liquidation_risk'',
                      Message = sprintf LiqWarning (Symbol pos) (Side pos) (distancePercent pos)\<rparr>]
              else [])
        else [])
     @ (if flt (PnLPercent pos) (Finite (- 20))
        then [\<lparr>Level = ''danger'', Type = ''large_loss'',
                Message = sprintf LossDanger (Symbol pos) (Side pos) (PnLPercent pos)\<rparr>]
        else if flt (PnLPercent pos) (Finite (- 10))
        then [\<lparr>Level = ''warning'', Type = ''large_loss'',
                Message = sprintf LossWarning (Symbol pos) (Side pos) (PnLPercent pos)\<rparr>]
        else [])
     @ (if fgt (PnLPercent pos) (Finite 50)
        then [\<lparr>Level = ''info'', Type = ''large_profit'',
                Message = sprintf ProfitInfo (Symbol pos) (Side pos) (PnLPercent pos)\<rparr>]
        else [])"
  by (auto simp add: checkPositionAlerts_def Let_def)

lemma newAlerts_eq:
  "newAlerts sprintf ctx pos =
       (if fgt (LiquidationPrice pos) (Finite 0) \<and> fgt (MarkPrice pos) (Finite 0)
        then (if flt (distancePercent pos) (Finite 5)
              then [\<lparr>Level = ''danger'', Type = ''liquidation_risk'',
                      Message = sprintf LiqDanger (Symbol pos) (Side pos) (distancePercent pos)\<rparr>]
              else if flt (distancePercent pos) (Finite 10)
              then [\<lparr>Level = ''warning'', Type = ''liquidation_risk'',
                      Message = sprintf LiqWarning (Symbol pos) (Side pos) (distancePercent pos)\<rparr>]
              else [])
        else [])
     @ (if flt (PnLPercent pos) (Finite (- 20))
        then [\<lparr>Level = ''danger'', Type = ''large_loss'',
                Message = sprintf LossDanger (Symbol pos) (Side pos) (PnLPercent pos)\<rparr>]
        else if flt (PnLPercent pos) (Finite (- 10))
        then [\<lparr>Level = ''warning'', Type = ''large_loss'',
                Message = sprintf LossWarning (Symbol pos) (Side pos) (PnLPercent pos)\<rparr>]
        else [])
     @ (if fgt (PnLPercent pos) (Finite 50)
        then [\<lparr>Level = ''info'', Type = ''large_profit'',
                Message = sprintf ProfitInfo (Symbol pos) (Side pos) (PnLPercent pos)\<rparr>]
        else [])"
  unfolding newAlerts_def checkPositionAlerts_appends by simp

lemma fle_not_flt: "fle a b \<Longrightarrow> \<not> flt b a"
  by (simp add: fle_def)

text \<open>
  C5. For every position examined during alert derivation, the alerts are appended to the
  context's list. The liquidation distance is \<open>(mark - liquidation) / mark * 100\<close> for a long
  and \<open>(liquidation - mark) / mark * 100\<close> for a short position, evaluated in binary64 as the
  code evaluates it, and the comparisons are those of binary64. When mark and liquidation
  price are both positive, a distance below 5 yields exactly one \<open>liquidation_risk\<close> alert,
  of level danger; a distance in [5, 10) exactly one, of level warning; a distance of 10 or
  more none (and none either when mark or liquidation price is not positive). A P&L percent
  below - 20 yields exactly one \<open>large_loss\<close> alert, of level danger; in [- 20, - 10) exactly
  one, of level warning; at or above - 10 none. A P&L percent above 50 yields exactly one
  \<open>large_profit\<close> alert, of level info (and none otherwise). A distance or a P&L percent
  that is a NaN yields no alert of the type.
\<close>

theorem checkPositionAlerts_thresholds:
  fixes sprintf ctx pos
  defines "new \<equiv> newAlerts sprintf ctx pos"
  defines "d \<equiv> distancePercent pos"
  defines "p \<equiv> PnLPercent pos"
  defines "bothPositive \<equiv> fgt (MarkPrice pos) (Finite 0) \<and> fgt (LiquidationPrice pos) (Finite 0)"
  shows "Alerts (checkPositionAlerts sprintf ctx pos) = Alerts ctx @ new
    \<and> (Side pos = ''long'' \<longrightarrow>
         d = fmul (fdiv (fsub (MarkPrice pos) (LiquidationPrice pos)) (MarkPrice pos)) (Finite 100))
    \<and> (Side pos = ''short'' \<longrightarrow>
         d = fmul (fdiv (fsub (LiquidationPrice pos) (MarkPrice pos)) (MarkPrice pos)) (Finite 100))
    \<and> (bothPositive \<and> flt d (Finite 5) \<longrightarrow>
         ofType ''liquidation_risk'' new =
           [\<lparr>Level = ''danger'', Type = ''liquidation_risk'',
             Message = sprintf LiqDanger (Symbol pos) (Side pos) d\<rparr>])
    \<and> (bothPositive \<and> fle (Finite 5) d \<and> flt d (Finite 10) \<longrightarrow>
         ofType ''liquidation_risk'' new =
           [\<lparr>Level = ''warning'', Type = ''liquidation_risk'',
             Message = sprintf LiqWarning (Symbol pos) (Side pos) d\<rparr>])
    \<and> (bothPositive \<and> fle (Finite 10) d \<longrightarrow> ofType ''liquidation_risk'' new = [])
    \<and> (bothPositive \<and> d = NaN \<longrightarrow> ofType ''liquidation_risk'' new = [])
    \<and> (\<not> bothPositive \<longrightarrow> ofType ''liquidation_risk'' new = [])
    \<and> (flt p (Finite (- 20)) \<longrightarrow>
         ofType ''large_loss'' new =
           [\<lparr>Level = ''danger'', Type = ''large_loss'',
             Message = sprintf LossDanger (Symbol pos) (Side pos) p\<rparr>])
    \<and> (fle (Finite (- 20)) p \<and> flt p (Finite (- 10)) \<longrightarrow>
         ofType ''large_loss'' new =
           [\<lparr>Level = ''warning'', Type = ''large_loss'',
             Message = sprintf LossWarning (Symbol pos) (Side pos) p\<rparr>])
    \<and> (fle (Finite (- 10)) p \<longrightarrow> ofType ''large_loss'' new = [])
    \<and> (fgt p (Finite 50) \<longrightarrow>
         ofType ''large_profit'' new =
           [\<lparr>Level = ''info'', Type = ''large_profit'',
             Message = sprintf ProfitInfo (Symbol pos) (Side pos) p\<rparr>])
    \<and> (\<not> fgt p (Finite 50) \<longrightarrow> ofType ''large_profit'' new = [])
    \<and> (p = NaN \<longrightarrow> ofType ''large_loss'' new = [] \<and> ofType ''large_profit'' new = [])"
proof -
  have a: "Alerts (checkPositionAlerts sprintf ctx pos) = Alerts ctx @ new"
    unfolding new_def newAlerts_def checkPositionAlerts_appends by simp
  have b: "Side pos = ''long'' \<longrightarrow>
             d = fmul (fdiv (fsub (MarkPrice pos) (LiquidationPrice pos)) (MarkPrice pos)) (Finite 100)"
    "Side pos = ''short'' \<longrightarrow>
             d = fmul (fdiv (fsub (LiquidationPrice pos) (MarkPrice pos)) (MarkPrice pos)) (Finite 100)"
    by (simp_all add: d_def distancePercent_def)
  have liq: "ofType ''liquidation_risk'' new =
      (if bothPositive
       then (if flt d (Finite 5) then [\<lparr>Level = ''danger'', Type = ''liquidation_risk'',
                             Message = sprintf LiqDanger (Symbol pos) (Side pos) d\<rparr>]
             else if flt d (Finite 10) then [\<lparr>Level = ''warning'', Type = ''liquidation_risk'',
                             Message = sprintf LiqWarning (Symbol pos) (Side pos) d\<rparr>]
             else [])
       else [])"
    by (auto simp add: new_def d_def bothPositive_def newAlerts_eq ofType_def)
  have loss: "ofType ''large_loss'' new =
      (if flt p (Finite (- 20))
       then [\<lparr>Level = ''danger'', Type = ''large_loss'',
               Message = sprintf LossDanger (Symbol pos) (Side pos) p\<rparr>]
       else if flt p (Finite (- 10))
       then [\<lparr>Level = ''warning'', Type = ''large_loss'',
               Message = sprintf LossWarning (Symbol pos) (Side pos) p\<rparr>]
       else [])"
    by (simp add: new_def p_def newAlerts_eq ofType_def)
  have profit: "ofType ''large_profit'' new =
      (if fgt p (Finite 50)
       then [\<lparr>Level = ''info'', Type = ''large_profit'',
               Message = sprintf ProfitInfo (Symbol pos) (Side pos) p\<rparr>]
       else [])"
    by (simp add: new_def p_def newAlerts_eq ofType_def)
  have nan: "\<And>x. \<not> flt NaN x" "\<And>x. \<not> fgt NaN x"
    subgoal for x by simp
    subgoal for x by (cases x) (simp_all add: fgt_def)
    done
  have order: "\<And>x. fle (Finite 5) x \<Longrightarrow> \<not> flt x (Finite 5)"
    "\<And>x. fle (Finite 10) x \<Longrightarrow> \<not> flt x (Finite 10)"
    "\<And>x. fle (Finite 10) x \<Longrightarrow> \<not> flt x (Finite 5)"
    "\<And>x. fle (Finite (- 20)) x \<Longrightarrow> \<not> flt x (Finite (- 20))"
    "\<And>x. fle (Finite (- 10)) x \<Longrightarrow> \<not> flt x (Finite (- 10))"
    "\<And>x. fle (Finite (- 10)) x \<Longrightarrow> \<not> flt x (Finite (- 20))"
    subgoal for x by (simp add: fle_def)
    subgoal for x by (simp add: fle_def)
    subgoal for x by (cases x) (simp_all add: fle_def)
    subgoal for x by (simp add: fle_def)
    subgoal for x by (simp add: fle_def)
    subgoal for x by (cases x) (simp_all add: fle_def)
    done
  show ?thesis
    unfolding liq loss profit using a b nan order by auto
qed

definition mkPos :: "string \<Rightarrow> float64 \<Rightarrow> float64 \<Rightarrow> float64 \<Rightarrow> PositionSummary" where
  "mkPos side mark liq pnl =
     \<lparr>Symbol = ''BTCUSDT'', Side = side, Size = Finite 1, EntryPrice = Finite 100, MarkPrice = mark,
      UnrealizedPnL = Finite 0, PnLPercent = pnl, Leverage = 1, LiquidationPrice = liq,
      TraderID = ''t1'', TraderName = ''alice''\<rparr>"

definition noAlerts :: TradingContext where
  "noAlerts = \<lparr>Positions = [], Alerts = []\<rparr>"

text \<open>
  A long position at mark 100 and liquidation price 96 (distance 4), one at 6.7 and 6.365
  (distance 5 in binary64), one at 6.3 and 5.67 (distance 10 in binary64), a short one at
  100 and 104 (distance 4), a position without liquidation price, and P&L percents - 25,
  - 20, - 15, - 5, 60, 50 and NaN.
\<close>

theorem checkPositionAlerts_thresholds_witness:
  "ofType ''liquidation_risk'' (newAlerts plainFmt noAlerts (mkPos ''long'' (Finite 100) (Finite 96) (Finite 0)))
      = [\<lparr>Level = ''danger'', Type = ''liquidation_risk'', Message = ''BTCUSDT long''\<rparr>]
   \<and> ofType ''liquidation_risk''
        (newAlerts plainFmt noAlerts (mkPos ''long'' (Finite (7543529375845581 / 1125899906842624)) (Finite (3583176453526651 / 562949953421312)) (Finite 0)))
      = [\<lparr>Level = ''warning'', Type = ''liquidation_risk'', Message = ''BTCUSDT long''\<rparr>]
   \<and> ofType ''liquidation_risk''
        (newAlerts plainFmt noAlerts (mkPos ''long'' (Finite (7093169413108531 / 1125899906842624)) (Finite (3191926235898839 / 562949953421312)) (Finite 0))) = []
   \<and> ofType ''liquidation_risk'' (newAlerts plainFmt noAlerts (mkPos ''short'' (Finite 100) (Finite 104) (Finite 0)))
      = [\<lparr>Level = ''danger'', Type = ''liquidation_risk'', Message = ''BTCUSDT short''\<rparr>]
   \<and> ofType ''liquidation_risk'' (newAlerts plainFmt noAlerts (mkPos ''long'' (Finite 100) (Finite 0) (Finite 0))) = []
   \<and> ofType ''large_loss'' (newAlerts plainFmt noAlerts (mkPos ''long'' (Finite 100) (Finite 0) (Finite (- 25))))
      = [\<lparr>Level = ''danger'', Type = ''large_loss'', Message = ''BTCUSDT long''\<rparr>]
   \<and> ofType ''large_loss'' (newAlerts plainFmt noAlerts (mkPos ''long'' (Finite 100) (Finite 0) (Finite (- 20))))
      = [\<lparr>Level = ''warning'', Type = ''large_loss'', Message = ''BTCUSDT long''\<rparr>]
   \<and> ofType ''large_loss'' (newAlerts plainFmt noAlerts (mkPos ''long'' (Finite 100) (Finite 0) (Finite (- 15))))
      = [\<lparr>Level = ''warning'', Type = ''large_loss'', Message = ''BTCUSDT long''\<rparr>]
   \<and> ofType ''large_loss'' (newAlerts plainFmt noAlerts (mkPos ''long'' (Finite 100) (Finite 0) (Finite (- 5)))) = []
   \<and> ofType ''large_profit'' (newAlerts plainFmt noAlerts (mkPos ''long'' (Finite 100) (Finite 0) (Finite 60)))
      = [\<lparr>Level = ''info'', Type = ''large_profit'', Message = ''BTCUSDT long''\<rparr>]
   \<and> ofType ''large_profit'' (newAlerts plainFmt noAlerts (mkPos ''long'' (Finite 100) (Finite 0) (Finite 50))) = []
   \<and> ofType ''large_loss'' (newAlerts plainFmt noAlerts (mkPos ''long'' (Finite 100) (Finite 0) NaN)) = []"
proof -
  have d: "distancePercent (mkPos ''long'' (Finite 100) (Finite 96) (Finite 0)) = Finite 4"
    "distancePercent (mkPos ''long'' (Finite (7543529375845581 / 1125899906842624)) (Finite (3583176453526651 / 562949953421312)) (Finite 0)) = Finite 5"
    "distancePercent (mkPos ''long'' (Finite (7093169413108531 / 1125899906842624)) (Finite (3191926235898839 / 562949953421312)) (Finite 0)) = Finite 10"
    "distancePercent (mkPos ''short'' (Finite 100) (Finite 104) (Finite 0)) = Finite 4"
    by (simp_all add: distancePercent_def mkPos_def dist_long_100_96 dist_long_6p7_6p365
        dist_long_6p3_5p67 dist_short_100_104)
  have f: "\<And>sd m l p. MarkPrice (mkPos sd m l p) = m" "\<And>sd m l p. LiquidationPrice (mkPos sd m l p) = l"
    "\<And>sd m l p. PnLPercent (mkPos sd m l p) = p" "\<And>sd m l p. Symbol (mkPos sd m l p) = ''BTCUSDT''"
    "\<And>sd m l p. Side (mkPos sd m l p) = sd"
    by (simp_all add: mkPos_def)
  show ?thesis
    using checkPositionAlerts_thresholds [of plainFmt noAlerts "mkPos ''long'' (Finite 100) (Finite 96) (Finite 0)"]
      checkPositionAlerts_thresholds [of plainFmt noAlerts "mkPos ''long'' (Finite (7543529375845581 / 1125899906842624)) (Finite (3583176453526651 / 562949953421312)) (Finite 0)"]
      checkPositionAlerts_thresholds [of plainFmt noAlerts "mkPos ''long'' (Finite (7093169413108531 / 1125899906842624)) (Finite (3191926235898839 / 562949953421312)) (Finite 0)"]
      checkPositionAlerts_thresholds [of plainFmt noAlerts "mkPos ''short'' (Finite 100) (Finite 104) (Finite 0)"]
      checkPositionAlerts_thresholds [of plainFmt noAlerts "mkPos ''long'' (Finite 100) (Finite 0) (Finite 0)"]
      checkPositionAlerts_thresholds [of plainFmt noAlerts "mkPos ''long'' (Finite 100) (Finite 0) (Finite (- 25))"]
      checkPositionAlerts_thresholds [of plainFmt noAlerts "mkPos ''long'' (Finite 100) (Finite 0) (Finite (- 20))"]
      checkPositionAlerts_thresholds [of plainFmt noAlerts "mkPos ''long'' (Finite 100) (Finite 0) (Finite (- 15))"]
      checkPositionAlerts_thresholds [of plainFmt noAlerts "mkPos ''long'' (Finite 100) (Finite 0) (Finite (- 5))"]
      checkPositionAlerts_thresholds [of plainFmt noAlerts "mkPos ''long'' (Finite 100) (Finite 0) (Finite 60)"]
      checkPositionAlerts_thresholds [of plainFmt noAlerts "mkPos ''long'' (Finite 100) (Finite 0) (Finite 50)"]
      checkPositionAlerts_thresholds [of plainFmt noAlerts "mkPos ''long'' (Finite 100) (Finite 0) NaN"]
    by (simp add: d f plainFmt_def fle_def fgt_def dist_long_100_96 dist_long_6p7_6p365
        dist_long_6p3_5p67 dist_short_100_104)
qed


section \<open>Session Store\<close>

text \<open>
  A Go slice is a window (pointer, length, capacity) on a backing array, and \<^verbatim>\<open>append\<close>,
  reslicing and \<^verbatim>\<open>copy\<close> share or replace that array. Since one claim is about the copy
  that \<^verbatim>\<open>GetMessages\<close> returns being independent of the session's own slice, slices are
  modelled on an explicit store of backing arrays. A run-time panic of the source is the
  left injection of the result.
\<close>

datatype panic = SliceBoundsOutOfRange | IndexOutOfRange

text \<open>\<^verbatim>\<open>Message\<close>. The two tool fields are never set by the functions modelled here and
  are left out. Times are integers (nanoseconds); readings of \<^verbatim>\<open>time.Now()\<close> are inputs.\<close>

record Message =
  Role :: string
  Content :: string
  Timestamp :: int

definition zeroMessage :: Message where
  "zeroMessage = \<lparr>Role = [], Content = [], Timestamp = 0\<rparr>"

text \<open>The store: the backing arrays by address, and the next free address.\<close>

record heap =
  arrays :: "nat \<Rightarrow> Message list"
  lim :: nat

text \<open>A slice header: the address of its backing array, the offset of its first element
  in that array, its length and its capacity.\<close>

record slice =
  ptr :: nat
  off :: nat
  len :: nat
  cap :: nat

definition view :: "heap \<Rightarrow> slice \<Rightarrow> Message list" where
  "view h s = take (len s) (drop (off s) (arrays h (ptr s)))"

text \<open>
  \<^verbatim>\<open>make([]Message, n)\<close> allocates a fresh zeroed array. (The Go runtime lets all arrays
  of size zero share one address; no element is shared, so the model allocates them apart.)
\<close>

definition makeSlice :: "nat \<Rightarrow> heap \<Rightarrow> slice \<times> heap" where
  "makeSlice n h =
     (\<lparr>ptr = lim h, off = 0, len = n, cap = n\<rparr>,
      h\<lparr>arrays := (arrays h)(lim h := replicate n zeroMessage), lim := Suc (lim h)\<rparr>)"

text \<open>
  \<^verbatim>\<open>append(s, x)\<close>: in place when the capacity suffices, otherwise into a fresh array that
  holds at least the new length. How much more the runtime allocates is its growth policy,
  the parameter \<open>grow\<close> (from the old capacity to the proposed new one).
\<close>

definition appendSlice :: "(nat \<Rightarrow> nat) \<Rightarrow> slice \<Rightarrow> Message \<Rightarrow> heap \<Rightarrow> slice \<times> heap" where
  "appendSlice grow s x h =
     (if len s < cap s
      then (s\<lparr>len := len s + 1\<rparr>,
            h\<lparr>arrays := (arrays h)(ptr s := (arrays h (ptr s))[off s + len s := x])\<rparr>)
      else (let newcap = max (len s + 1) (grow (cap s))
            in (\<lparr>ptr = lim h, off = 0, len = len s + 1, cap = newcap\<rparr>,
                h\<lparr>arrays := (arrays h)(lim h :=
                       view h s @ [x] @ replicate (newcap - (len s + 1)) zeroMessage),
                  lim := Suc (lim h)\<rparr>)))"

text \<open>\<^verbatim>\<open>s[low:]\<close>, which panics unless \<open>0 \<le> low \<le> len(s)\<close>.\<close>

definition resliceFrom :: "slice \<Rightarrow> int \<Rightarrow> panic + slice" where
  "resliceFrom s low =
     (if low < 0 \<or> int (len s) < low then Inl SliceBoundsOutOfRange
      else Inr \<lparr>ptr = ptr s, off = off s + nat low, len = len s - nat low, cap = cap s - nat low\<rparr>)"

text \<open>\<^verbatim>\<open>copy(dst, src)\<close> copies \<open>min(len(dst), len(src))\<close> elements.\<close>

definition copySlice :: "slice \<Rightarrow> slice \<Rightarrow> heap \<Rightarrow> heap" where
  "copySlice dst src h =
     (let n = min (len dst) (len src); a = arrays h (ptr dst)
      in h\<lparr>arrays := (arrays h)(ptr dst :=
              take (off dst) a @ take n (view h src) @ drop (off dst + n) a)\<rparr>)"

text \<open>\<^verbatim>\<open>s[i] = x\<close>, which panics unless \<open>i < len(s)\<close>.\<close>

definition storeAt :: "slice \<Rightarrow> nat \<Rightarrow> Message \<Rightarrow> heap \<Rightarrow> panic + heap" where
  "storeAt s i x h =
     (if i < len s
      then Inr (h\<lparr>arrays := (arrays h)(ptr s := (arrays h (ptr s))[off s + i := x])\<rparr>)
      else Inl IndexOutOfRange)"

text \<open>
  \<^verbatim>\<open>Session\<close> with the fields the modelled functions read or write (user information,
  metadata and the mutex are left out).
\<close>

record Session =
  ID :: string
  CreatedAt :: int
  UpdatedAt :: int
  messages :: slice
  maxMessages :: int

definition NewSession :: "string \<Rightarrow> int \<Rightarrow> int \<Rightarrow> int \<Rightarrow> heap \<Rightarrow> Session \<times> heap" where
  "NewSession ident maxMsgs created updated h =
     (let (m, h) = makeSlice 0 h
      in (\<lparr>ID = ident, CreatedAt = created, UpdatedAt = updated, messages = m,
           maxMessages = maxMsgs\<rparr>, h))"

definition AddMessage ::
  "(nat \<Rightarrow> nat) \<Rightarrow> int \<Rightarrow> Message \<Rightarrow> Session \<Rightarrow> heap \<Rightarrow> panic + Session \<times> heap" where
  "AddMessage grow now msg s h =
     (let (m, h) = appendSlice grow (messages s) msg h;
          s = s\<lparr>messages := m\<rparr>;
          s = s\<lparr>UpdatedAt := now\<rparr>
      in if int (len (messages s)) > maxMessages s
         then (case resliceFrom (messages s) (int (len (messages s)) - maxMessages s) of
                 Inl e \<Rightarrow> Inl e
               | Inr m \<Rightarrow> Inr (s\<lparr>messages := m\<rparr>, h))
         else Inr (s, h))"

definition GetMessages :: "Session \<Rightarrow> heap \<Rightarrow> slice \<times> heap" where
  "GetMessages s h =
     (let (result, h) = makeSlice (len (messages s)) h;
          h = copySlice result (messages s) h
      in (result, h))"

subsection \<open>Properties of the session history\<close>

text \<open>A slice is well formed in a store when its window lies inside an allocated array.\<close>

definition wfSlice :: "heap \<Rightarrow> slice \<Rightarrow> bool" where
  "wfSlice h s \<longleftrightarrow> ptr s < lim h \<and> len s \<le> cap s \<and> off s + cap s \<le> length (arrays h (ptr s))"

text \<open>The last \<open>m\<close> elements of a list (all of it when it is shorter).\<close>

definition keepLast :: "int \<Rightarrow> 'a list \<Rightarrow> 'a list" where
  "keepLast m xs = drop (length xs - nat m) xs"


text \<open>A sequence of \<^verbatim>\<open>AddMessage\<close> calls, each with its clock reading.\<close>

fun AddMessages ::
  "(nat \<Rightarrow> nat) \<Rightarrow> (int \<times> Message) list \<Rightarrow> Session \<Rightarrow> heap \<Rightarrow> panic + Session \<times> heap" where
  "AddMessages grow [] s h = Inr (s, h)"
| "AddMessages grow ((now, msg) # rest) s h =
     (case AddMessage grow now msg s h of
        Inl e \<Rightarrow> Inl e
      | Inr (s', h') \<Rightarrow> AddMessages grow rest s' h')"

lemma take_drop_update_at_end:
  "take n (drop k (xs[k + n := x])) = take n (drop k xs)"
  by (simp add: drop_update_swap)

lemma take_Suc_drop_update_at_end:
  "k + n < length xs \<Longrightarrow> take (Suc n) (drop k (xs[k + n := x])) = take n (drop k xs) @ [x]"
  by (simp add: drop_update_swap take_Suc_conv_app_nth)

lemma appendSlice_spec:
  assumes "wfSlice h s" "appendSlice grow s x h = (s', h')"
  shows "view h' s' = view h s @ [x]" "wfSlice h' s'" "lim h \<le> lim h'"
    "\<And>a. a \<noteq> ptr s \<Longrightarrow> a \<noteq> lim h \<Longrightarrow> arrays h' a = arrays h a"
    "ptr s' = ptr s \<or> ptr s' = lim h" "len s' = len s + 1"
    "len s < cap s \<Longrightarrow> lim h' = lim h"
  using assms
  by (auto simp add: appendSlice_def wfSlice_def view_def Let_def take_drop_update_at_end
      take_Suc_drop_update_at_end split: if_splits)

lemma keepLast_step:
  "0 \<le> m \<Longrightarrow> keepLast m (keepLast m xs @ [x]) = keepLast m (xs @ [x])"
  by (cases "length xs \<le> nat m") (auto simp add: keepLast_def Suc_diff_le)

lemma keepLast_append:
  "0 \<le> m \<Longrightarrow> keepLast m (keepLast m xs @ ys) = keepLast m (xs @ ys)"
proof (induction ys arbitrary: xs)
  case Nil
  then show ?case by (simp add: keepLast_def)
next
  case (Cons y ys)
  have "keepLast m (keepLast m xs @ y # ys) = keepLast m ((keepLast m xs @ [y]) @ ys)" by simp
  also have "\<dots> = keepLast m (keepLast m (keepLast m xs @ [y]) @ ys)"
    using Cons.IH [OF Cons.prems, of "keepLast m xs @ [y]"] by simp
  also have "\<dots> = keepLast m (keepLast m (xs @ [y]) @ ys)"
    by (simp add: keepLast_step [OF Cons.prems])
  also have "\<dots> = keepLast m ((xs @ [y]) @ ys)"
    using Cons.IH [OF Cons.prems, of "xs @ [y]"] by simp
  finally show ?case by simp
qed

lemma length_keepLast: "0 \<le> m \<Longrightarrow> length (keepLast m xs) = min (length xs) (nat m)"
  by (auto simp add: keepLast_def)

lemma view_reslice:
  "k \<le> len s \<Longrightarrow>
     view h \<lparr>ptr = ptr s, off = off s + k, len = len s - k, cap = cap s - k\<rparr> = drop k (view h s)"
  by (simp add: view_def drop_take add.commute)

lemma length_view: "wfSlice h s \<Longrightarrow> length (view h s) = len s"
  by (auto simp add: view_def wfSlice_def)

definition sessionOK :: "heap \<Rightarrow> Session \<Rightarrow> bool" where
  "sessionOK h s \<longleftrightarrow>
     wfSlice h (messages s) \<and> 0 \<le> maxMessages s \<and> int (len (messages s)) \<le> maxMessages s"

lemma AddMessage_spec:
  assumes wf: "wfSlice h (messages s)" and m: "0 \<le> maxMessages s"
  shows "\<exists>s' h'. AddMessage grow now msg s h = Inr (s', h')
     \<and> view h' (messages s') = keepLast (maxMessages s) (view h (messages s) @ [msg])
     \<and> sessionOK h' s'
     \<and> maxMessages s' = maxMessages s \<and> ID s' = ID s
     \<and> lim h \<le> lim h'
     \<and> (\<forall>a. a \<noteq> ptr (messages s) \<and> a \<noteq> lim h \<longrightarrow> arrays h' a = arrays h a)
     \<and> (ptr (messages s') = ptr (messages s) \<or> ptr (messages s') = lim h)"
proof -
  obtain m1 h1 where a: "appendSlice grow (messages s) msg h = (m1, h1)"
    by (cases "appendSlice grow (messages s) msg h")
  note sp = appendSlice_spec [OF wf a]
  have len1: "len m1 = Suc (length (view h (messages s)))"
    using sp(6) length_view [OF wf] by simp
  show ?thesis
  proof (cases "int (len m1) > maxMessages s")
    case False
    have "AddMessage grow now msg s h = Inr (s\<lparr>messages := m1, UpdatedAt := now\<rparr>, h1)"
      using a False by (simp add: AddMessage_def)
    moreover have "view h1 m1 = keepLast (maxMessages s) (view h (messages s) @ [msg])"
      using False len1 by (simp add: sp(1) keepLast_def)
    moreover have "sessionOK h1 (s\<lparr>messages := m1, UpdatedAt := now\<rparr>)"
      using False sp(2) m by (simp add: sessionOK_def)
    ultimately show ?thesis using sp(3,4,5) by simp
  next
    case True
    define k where "k = nat (int (len m1) - maxMessages s)"
    define m2 where "m2 = \<lparr>ptr = ptr m1, off = off m1 + k, len = len m1 - k, cap = cap m1 - k\<rparr>"
    have k: "k \<le> len m1" using m by (simp add: k_def)
    have res: "resliceFrom m1 (int (len m1) - maxMessages s) = Inr m2"
      using True m by (simp add: resliceFrom_def k_def m2_def)
    have am: "AddMessage grow now msg s h = Inr (s\<lparr>messages := m2, UpdatedAt := now\<rparr>, h1)"
      using a True res by (simp add: AddMessage_def)
    have "view h1 m2 = drop k (view h1 m1)"
      unfolding m2_def by (rule view_reslice [OF k])
    moreover have kk: "k = Suc (length (view h (messages s))) - nat (maxMessages s)"
      using m len1 unfolding k_def by linarith
    ultimately have "view h1 m2 = keepLast (maxMessages s) (view h (messages s) @ [msg])"
      by (simp add: sp(1) keepLast_def)
    moreover have "sessionOK h1 (s\<lparr>messages := m2, UpdatedAt := now\<rparr>)"
      using sp(2) k m True by (auto simp add: sessionOK_def wfSlice_def m2_def k_def)
    moreover have "ptr m2 = ptr m1" by (simp add: m2_def)
    ultimately show ?thesis using am sp(3,4,5) by simp
  qed
qed

lemma AddMessages_spec:
  assumes "sessionOK h s"
  shows "\<exists>s' h'. AddMessages grow xs s h = Inr (s', h')
     \<and> view h' (messages s') =
         keepLast (maxMessages s) (view h (messages s) @ map snd xs)
     \<and> sessionOK h' s'
     \<and> maxMessages s' = maxMessages s \<and> ID s' = ID s"
  using assms
proof (induction xs arbitrary: s h)
  case Nil
  then show ?case
    by (auto simp add: keepLast_def sessionOK_def length_view)
next
  case (Cons p xs)
  obtain now msg where p: "p = (now, msg)" by (cases p)
  have wf: "wfSlice h (messages s)" and m: "0 \<le> maxMessages s"
    using Cons.prems by (simp_all add: sessionOK_def)
  from AddMessage_spec [OF wf m, of grow now msg]
  obtain s1 h1 where 1: "AddMessage grow now msg s h = Inr (s1, h1)"
    "view h1 (messages s1) = keepLast (maxMessages s) (view h (messages s) @ [msg])"
    "sessionOK h1 s1" "maxMessages s1 = maxMessages s" "ID s1 = ID s"
    by blast
  from Cons.IH [OF 1(3)]
  obtain s2 h2 where 2: "AddMessages grow xs s1 h1 = Inr (s2, h2)"
    "view h2 (messages s2) = keepLast (maxMessages s1) (view h1 (messages s1) @ map snd xs)"
    "sessionOK h2 s2" "maxMessages s2 = maxMessages s1" "ID s2 = ID s1"
    by blast
  have "keepLast (maxMessages s) (keepLast (maxMessages s) (view h (messages s) @ [msg]) @ map snd xs)
      = keepLast (maxMessages s) ((view h (messages s) @ [msg]) @ map snd xs)"
    using m by (rule keepLast_append)
  then show ?case using 1 2 p by simp
qed

lemma view_cong:
  "arrays h' (ptr s) = arrays h (ptr s) \<Longrightarrow> view h' s = view h s"
  by (simp add: view_def)

lemma GetMessages_spec:
  assumes wf: "wfSlice h (messages s)" and g: "GetMessages s h = (r, h')"
  shows "view h' r = view h (messages s)"
    "ptr r = lim h" "lim h' = Suc (lim h)" "len r = len (messages s)" "cap r = len (messages s)"
    "off r = 0"
    "\<And>a. a \<noteq> lim h \<Longrightarrow> arrays h' a = arrays h a"
    "wfSlice h' r"
proof -
  let ?n = "len (messages s)"
  have ne: "ptr (messages s) \<noteq> lim h" using wf by (simp add: wfSlice_def)
  have r: "r = \<lparr>ptr = lim h, off = 0, len = ?n, cap = ?n\<rparr>"
    using g by (auto simp add: GetMessages_def makeSlice_def Let_def)
  define h1 where "h1 = h\<lparr>arrays := (arrays h)(lim h := replicate ?n zeroMessage), lim := Suc (lim h)\<rparr>"
  have h': "h' = copySlice r (messages s) h1"
    using g by (auto simp add: GetMessages_def makeSlice_def Let_def h1_def)
  have lv: "length (view h (messages s)) = ?n" by (rule length_view [OF wf])
  have v1: "view h1 (messages s) = view h (messages s)"
    using ne by (simp add: h1_def view_def)
  have a1: "arrays h1 (lim h) = replicate ?n zeroMessage" by (simp add: h1_def)
  have arr: "arrays h' = (arrays h)(lim h := view h (messages s))"
    by (simp add: h' copySlice_def r Let_def v1 a1 lv) (simp add: h1_def)
  have lim': "lim h' = Suc (lim h)" by (simp add: h' copySlice_def Let_def h1_def)
  show "view h' r = view h (messages s)" using lv by (simp add: arr r view_def)
  show "ptr r = lim h" "len r = ?n" "cap r = ?n" "off r = 0" by (simp_all add: r)
  show "lim h' = Suc (lim h)" by (rule lim')
  show "\<And>a. a \<noteq> lim h \<Longrightarrow> arrays h' a = arrays h a" by (simp add: arr)
  show "wfSlice h' r" using lv by (simp add: wfSlice_def arr lim' r)
qed


lemma GetMessages_keeps_session:
  assumes wf: "wfSlice h (messages s)" and g: "GetMessages s h = (r, h')"
  shows "ptr r \<noteq> ptr (messages s)" "view h' (messages s) = view h (messages s)"
    "wfSlice h' (messages s)"
proof -
  note sp = GetMessages_spec [OF wf g]
  have lt: "ptr (messages s) < lim h" using wf by (simp add: wfSlice_def)
  show ne: "ptr r \<noteq> ptr (messages s)" using lt sp(2) by simp
  have same: "arrays h' (ptr (messages s)) = arrays h (ptr (messages s))"
    using lt by (simp add: sp(7))
  show "view h' (messages s) = view h (messages s)"
    using same by (rule view_cong)
  show "wfSlice h' (messages s)"
    using wf same sp(3) by (simp add: wfSlice_def)
qed

lemma storeAt_other:
  assumes ne: "ptr r \<noteq> ptr ms" and st: "storeAt r i x h' = Inr h2"
  shows "view h2 ms = view h' ms"
proof -
  have h2: "h2 = h'\<lparr>arrays := (arrays h')(ptr r := (arrays h' (ptr r))[off r + i := x])\<rparr>"
    using st by (auto simp add: storeAt_def split: if_splits)
  show ?thesis using ne by (simp add: h2 view_def)
qed

lemma appendSlice_other:
  assumes wfr: "wfSlice h' r" and ne: "ptr r \<noteq> ptr ms" and lt: "ptr ms < lim h'"
    and ap: "appendSlice grow r x h' = (r2, h2)"
  shows "view h2 ms = view h' ms"
proof -
  note sp = appendSlice_spec [OF wfr ap]
  have "ptr ms \<noteq> lim h'" using lt by simp
  then have "arrays h2 (ptr ms) = arrays h' (ptr ms)"
    using ne by (simp add: sp(4))
  then show ?thesis by (rule view_cong)
qed

lemma AddMessage_other:
  assumes wf': "wfSlice h' (messages s)" and m: "0 \<le> maxMessages s"
    and ne: "ptr r \<noteq> ptr (messages s)" and nl: "ptr r \<noteq> lim h'"
    and am: "AddMessage grow now msg s h' = Inr (s2, h2)"
  shows "view h2 r = view h' r"
proof -
  from AddMessage_spec [OF wf' m, of grow now msg]
  obtain s3 h3 where 3: "AddMessage grow now msg s h' = Inr (s3, h3)"
    and fr3: "\<forall>a. a \<noteq> ptr (messages s) \<and> a \<noteq> lim h' \<longrightarrow> arrays h3 a = arrays h' a"
    by blast
  from 3 am have "h3 = h2" by simp
  with fr3 have "\<forall>a. a \<noteq> ptr (messages s) \<and> a \<noteq> lim h' \<longrightarrow> arrays h2 a = arrays h' a"
    by simp
  with nl ne have "arrays h2 (ptr r) = arrays h' (ptr r)" by simp
  then show ?thesis by (rule view_cong)
qed

lemma NewSession_OK:
  "0 \<le> M \<Longrightarrow> sessionOK (snd (NewSession ident M created updated h0))
                      (fst (NewSession ident M created updated h0))"
  "view (snd (NewSession ident M created updated h0))
        (messages (fst (NewSession ident M created updated h0))) = []"
  "maxMessages (fst (NewSession ident M created updated h0)) = M"
  by (simp_all add: NewSession_def makeSlice_def sessionOK_def wfSlice_def view_def)

text \<open>
  C3. For every session created with a capacity \<open>M \<ge> 0\<close>, any \<open>N\<close> sequential
  \<open>AddMessage\<close> calls succeed, and \<open>GetMessages\<close> then returns a slice of length
  \<open>min N M\<close> holding the last \<open>min N M\<close> inserted messages in insertion order, equal to the
  session's own history. The returned slice is an independent copy: it lives in another
  backing array than the session's slice, so that storing into it or appending to it
  leaves the session's history unchanged, and a later \<open>AddMessage\<close> on the session leaves
  the returned slice unchanged.
\<close>

theorem Session_history:
  assumes M: "0 \<le> M"
  shows "\<exists>s h r h'.
      AddMessages grow xs (fst (NewSession ident M created updated h0))
                          (snd (NewSession ident M created updated h0)) = Inr (s, h)
    \<and> GetMessages s h = (r, h')
    \<and> length (view h' r) = min (length xs) (nat M)
    \<and> view h' r = drop (length xs - min (length xs) (nat M)) (map snd xs)
    \<and> view h' (messages s) = view h' r
    \<and> ptr r \<noteq> ptr (messages s)
    \<and> (\<forall>i x h2. storeAt r i x h' = Inr h2 \<longrightarrow> view h2 (messages s) = view h' (messages s))
    \<and> (\<forall>x r2 h2. appendSlice grow r x h' = (r2, h2) \<longrightarrow>
          view h2 (messages s) = view h' (messages s))
    \<and> (\<forall>now msg s2 h2. AddMessage grow now msg s h' = Inr (s2, h2) \<longrightarrow>
          view h2 r = view h' r)"
proof -
  let ?s0 = "fst (NewSession ident M created updated h0)"
  let ?h1 = "snd (NewSession ident M created updated h0)"
  have ok0: "sessionOK ?h1 ?s0" using M by (rule NewSession_OK(1))
  have v0: "view ?h1 (messages ?s0) = []" and m0': "maxMessages ?s0 = M"
    by (simp_all add: NewSession_OK(2,3))
  from AddMessages_spec [OF ok0, of grow xs]
  obtain s h where run: "AddMessages grow xs ?s0 ?h1 = Inr (s, h)"
    and v: "view h (messages s) = keepLast M (map snd xs)"
    and ok: "sessionOK h s" and mm: "maxMessages s = M"
    unfolding v0 m0' by auto
  have wf: "wfSlice h (messages s)" using ok by (simp add: sessionOK_def)
  obtain r h' where g: "GetMessages s h = (r, h')" by (cases "GetMessages s h")
  note sp = GetMessages_spec [OF wf g]
  note ks = GetMessages_keeps_session [OF wf g]
  have vr: "view h' r = keepLast M (map snd xs)" using sp(1) v by simp
  have len: "length (view h' r) = min (length xs) (nat M)"
    using M by (simp add: vr length_keepLast)
  have lst: "view h' r = drop (length xs - min (length xs) (nat M)) (map snd xs)"
    by (cases "length xs \<le> nat M") (simp_all add: vr keepLast_def min_def)
  have same: "view h' (messages s) = view h' r" using ks(2) sp(1) by simp
  have lt: "ptr (messages s) < lim h'" using ks(3) by (simp add: wfSlice_def)
  have nl: "ptr r \<noteq> lim h'" using sp(2,3) by simp
  have m0: "0 \<le> maxMessages s" using M mm by simp
  have a: "\<forall>i x h2. storeAt r i x h' = Inr h2 \<longrightarrow> view h2 (messages s) = view h' (messages s)"
    using storeAt_other [OF ks(1)] by blast
  have b: "\<forall>x r2 h2. appendSlice grow r x h' = (r2, h2) \<longrightarrow>
          view h2 (messages s) = view h' (messages s)"
    using appendSlice_other [OF sp(8) ks(1) lt] by blast
  have c: "\<forall>now msg s2 h2. AddMessage grow now msg s h' = Inr (s2, h2) \<longrightarrow>
          view h2 r = view h' r"
    using AddMessage_other [OF ks(3) m0 ks(1) nl] by blast
  from run g len lst same ks(1) a b c show ?thesis by blast
qed

text \<open>A session of capacity 2 after three messages, on the empty store, with a doubling
  growth policy.\<close>

definition emptyHeap :: heap where
  "emptyHeap = \<lparr>arrays = (\<lambda>_. []), lim = 0\<rparr>"

definition say :: "string \<Rightarrow> string \<Rightarrow> Message" where
  "say role text = \<lparr>Role = role, Content = text, Timestamp = 0\<rparr>"

theorem Session_history_witness:
  "\<exists>s h r h'.
      AddMessages (\<lambda>c. 2 * c) [(1, say ''user'' ''a''), (2, say ''assistant'' ''b''), (3, say ''user'' ''c'')]
        (fst (NewSession ''tg_1'' 2 0 0 emptyHeap)) (snd (NewSession ''tg_1'' 2 0 0 emptyHeap)) = Inr (s, h)
    \<and> GetMessages s h = (r, h')
    \<and> view h' r = [say ''assistant'' ''b'', say ''user'' ''c'']
    \<and> ptr r \<noteq> ptr (messages s)"
proof -
  have M: "(0::int) \<le> 2" by simp
  from Session_history [OF M, of "\<lambda>c. 2 * c"
      "[(1, say ''user'' ''a''), (2, say ''assistant'' ''b''), (3, say ''user'' ''c'')]"
      "''tg_1''" 0 0 emptyHeap]
  show ?thesis by simp blast
qed


section \<open>Tool Registry and Dispatcher\<close>

text \<open>
  \<^verbatim>\<open>ToolCall\<close> and \<^verbatim>\<open>ToolResult\<close>. The raw JSON arguments are a byte string. A value of
  type \<^verbatim>\<open>interface{}\<close> is \<open>None\<close> for nil and \<open>Some\<close> of a value otherwise. The field
  \<^verbatim>\<open>Name\<close> of \<^verbatim>\<open>ToolResult\<close> is written \<open>Name'\<close>.
\<close>

record ToolCall =
  Name :: string
  Arguments :: string

record 'r ToolResult =
  Name' :: string
  Result :: "'r option"
  Error :: string

text \<open>
  Of a registered \<^verbatim>\<open>Tool\<close> the dispatcher uses \<^verbatim>\<open>Execute\<close> only: from the raw arguments,
  in the current state of the external world \<open>'w\<close> (trading backend, store, clock, the
  cancellable context), to a pair of a value and an error (\<open>None\<close> for nil, else the text
  of \<^verbatim>\<open>err.Error()\<close>) and the new state of the world. Go lets a handler return any
  combination of the two. Handlers act on the external world only, not on the agent's
  sessions.
\<close>

type_synonym ('w, 'r) Tool = "string \<Rightarrow> 'w \<Rightarrow> ('r option \<times> string option) \<times> 'w"

text \<open>One iteration of the loop of \<^verbatim>\<open>executeToolCalls\<close>: the ToolResult appended, and the
  world after it.\<close>

definition executeOne ::
  "(string \<rightharpoonup> ('w, 'r) Tool) \<Rightarrow> ToolCall \<Rightarrow> 'w \<Rightarrow> 'r ToolResult \<times> 'w" where
  "executeOne tools call w =
     (case tools (Name call) of
        None \<Rightarrow>
          (\<lparr>Name' = Name call, Result = None, Error = ''unknown tool: '' @ Name call\<rparr>, w)
      | Some tool \<Rightarrow>
          (case tool (Arguments call) w of
             ((result, Some err), w') \<Rightarrow>
               (\<lparr>Name' = Name call, Result = None, Error = err\<rparr>, w')
           | ((result, None), w') \<Rightarrow>
               (\<lparr>Name' = Name call, Result = result, Error = []\<rparr>, w')))"

text \<open>The loop over the calls, with \<^verbatim>\<open>results\<close> as accumulator.\<close>

fun executeLoop ::
  "(string \<rightharpoonup> ('w, 'r) Tool) \<Rightarrow> ToolCall list \<Rightarrow> 'r ToolResult list \<Rightarrow> 'w
     \<Rightarrow> 'r ToolResult list \<times> 'w" where
  "executeLoop tools [] results w = (results, w)"
| "executeLoop tools (call # calls) results w =
     (case executeOne tools call w of
        (r, w') \<Rightarrow> executeLoop tools calls (results @ [r]) w')"

definition executeToolCalls ::
  "(string \<rightharpoonup> ('w, 'r) Tool) \<Rightarrow> ToolCall list \<Rightarrow> 'w \<Rightarrow> 'r ToolResult list \<times> 'w" where
  "executeToolCalls tools calls w = executeLoop tools calls [] w"

subsection \<open>Properties of the dispatcher\<close>

text \<open>The world after a batch, and the world in which the call at a position runs.\<close>

definition worldAfter :: "(string \<rightharpoonup> ('w, 'r) Tool) \<Rightarrow> 'w \<Rightarrow> ToolCall list \<Rightarrow> 'w" where
  "worldAfter tools w calls = foldl (\<lambda>w call. snd (executeOne tools call w)) w calls"

lemma worldAfter_Cons:
  "worldAfter tools w (c # cs) = worldAfter tools (snd (executeOne tools c w)) cs"
  by (simp add: worldAfter_def)

lemma executeLoop_world: "snd (executeLoop tools calls results w) = worldAfter tools w calls"
  by (induction calls arbitrary: results w) (simp_all add: worldAfter_def split: prod.splits)

lemma executeLoop_length:
  "length (fst (executeLoop tools calls results w)) = length results + length calls"
  by (induction calls arbitrary: results w) (simp_all split: prod.splits)

lemma executeLoop_prefix:
  "i < length results \<Longrightarrow> fst (executeLoop tools calls results w) ! i = results ! i"
  by (induction calls arbitrary: results w) (simp_all add: nth_append split: prod.splits)

lemma executeLoop_nth:
  "i < length calls \<Longrightarrow>
     fst (executeLoop tools calls results w) ! (length results + i)
       = fst (executeOne tools (calls ! i) (worldAfter tools w (take i calls)))"
proof (induction calls arbitrary: results w i)
  case Nil
  then show ?case by simp
next
  case (Cons c cs)
  obtain r w' where e: "executeOne tools c w = (r, w')" by (cases "executeOne tools c w")
  show ?case
  proof (cases i)
    case 0
    have "fst (executeLoop tools cs (results @ [r]) w') ! length results = (results @ [r]) ! length results"
      by (rule executeLoop_prefix) simp
    then show ?thesis using 0 e by (simp add: worldAfter_def)
  next
    case (Suc j)
    then have j: "j < length cs" using Cons.prems by simp
    from Cons.IH [OF j, of "results @ [r]" w']
    show ?thesis using Suc e by (simp add: worldAfter_Cons)
  qed
qed

lemma executeOne_name: "Name' (fst (executeOne tools call w)) = Name call"
  by (simp add: executeOne_def split: option.splits prod.splits)

lemma executeToolCalls_nth:
  "i < length calls \<Longrightarrow>
     fst (executeToolCalls tools calls w) ! i
       = fst (executeOne tools (calls ! i) (worldAfter tools w (take i calls)))"
  using executeLoop_nth [of i calls tools "[]" w] by (simp add: executeToolCalls_def)

text \<open>
  C7. For every batch of tool calls, the dispatcher returns exactly one ToolResult per
  requested call, in request order (the names agree position by position). The calls run
  sequentially in request order: the world after the batch is the world threaded through
  the handlers of the registered calls from left to right, and the result at a position is
  the outcome of that call in the world left by the calls before it. A call whose name is
  not registered produces a ToolResult carrying the error \<open>unknown tool: name\<close>, changes
  nothing, and the calls after it are still executed.
\<close>

theorem executeToolCalls_in_order:
  fixes tools :: "string \<rightharpoonup> ('w, 'r) Tool"
  defines "step \<equiv> \<lambda>w call. case tools (Name call) of
                              None \<Rightarrow> w | Some tool \<Rightarrow> snd (tool (Arguments call) w)"
  shows "length (fst (executeToolCalls tools calls w)) = length calls
    \<and> map Name' (fst (executeToolCalls tools calls w)) = map Name calls
    \<and> snd (executeToolCalls tools calls w) = foldl step w calls
    \<and> (\<forall>i < length calls.
          fst (executeToolCalls tools calls w) ! i
            = fst (executeOne tools (calls ! i) (foldl step w (take i calls))))
    \<and> (\<forall>i < length calls. tools (Name (calls ! i)) = None \<longrightarrow>
          fst (executeToolCalls tools calls w) ! i
            = \<lparr>Name' = Name (calls ! i), Result = None,
                Error = ''unknown tool: '' @ Name (calls ! i)\<rparr>)
    \<and> (\<forall>i < length calls. \<forall>tool. tools (Name (calls ! i)) = Some tool \<longrightarrow>
          fst (executeOne tools (calls ! i) (foldl step w (take i calls)))
            = (case fst (tool (Arguments (calls ! i)) (foldl step w (take i calls))) of
                 (result, Some err) \<Rightarrow> \<lparr>Name' = Name (calls ! i), Result = None, Error = err\<rparr>
               | (result, None) \<Rightarrow> \<lparr>Name' = Name (calls ! i), Result = result, Error = []\<rparr>))"
proof -
  have st: "(\<lambda>w call. snd (executeOne tools call w)) = step"
    by (auto simp add: step_def executeOne_def fun_eq_iff split: option.splits prod.splits)
  have wa: "\<And>w cs. worldAfter tools w cs = foldl step w cs"
    by (simp add: worldAfter_def st)
  have len: "length (fst (executeToolCalls tools calls w)) = length calls"
    by (simp add: executeToolCalls_def executeLoop_length)
  have nth: "\<forall>i < length calls.
          fst (executeToolCalls tools calls w) ! i
            = fst (executeOne tools (calls ! i) (foldl step w (take i calls)))"
    by (simp add: executeToolCalls_nth wa)
  have names: "map Name' (fst (executeToolCalls tools calls w)) = map Name calls"
    using len nth by (simp add: list_eq_iff_nth_eq executeOne_name)
  have world: "snd (executeToolCalls tools calls w) = foldl step w calls"
    by (simp add: executeToolCalls_def executeLoop_world wa)
  have unknown: "\<forall>i < length calls. tools (Name (calls ! i)) = None \<longrightarrow>
          fst (executeToolCalls tools calls w) ! i
            = \<lparr>Name' = Name (calls ! i), Result = None,
                Error = ''unknown tool: '' @ Name (calls ! i)\<rparr>"
    using nth by (simp add: executeOne_def)
  have known: "\<forall>i < length calls. \<forall>tool. tools (Name (calls ! i)) = Some tool \<longrightarrow>
          fst (executeOne tools (calls ! i) (foldl step w (take i calls)))
            = (case fst (tool (Arguments (calls ! i)) (foldl step w (take i calls))) of
                 (result, Some err) \<Rightarrow> \<lparr>Name' = Name (calls ! i), Result = None, Error = err\<rparr>
               | (result, None) \<Rightarrow> \<lparr>Name' = Name (calls ! i), Result = result, Error = []\<rparr>)"
    by (auto simp add: executeOne_def split: option.splits prod.splits)
  from len names world nth unknown known show ?thesis by blast
qed


text \<open>Three handlers on a world that logs the executions: one succeeds with a value, one
  fails, one returns neither value nor error. \<open>get_price\<close> is not registered.\<close>

definition okTool :: "string \<Rightarrow> (string list, string) Tool" where
  "okTool name args w = ((Some (''done '' @ args), None), w @ [name])"

definition failingTool :: "string \<Rightarrow> (string list, string) Tool" where
  "failingTool name args w = ((None, Some ''trader not found''), w @ [name])"

definition silentTool :: "string \<Rightarrow> (string list, string) Tool" where
  "silentTool name args w = ((None, None), w @ [name])"

definition demoTools :: "string \<rightharpoonup> (string list, string) Tool" where
  "demoTools = [''get_balance'' \<mapsto> okTool ''get_balance'',
                ''close_position'' \<mapsto> failingTool ''close_position'',
                ''noop'' \<mapsto> silentTool ''noop'']"

definition demoCalls :: "ToolCall list" where
  "demoCalls = [\<lparr>Name = ''get_balance'', Arguments = ''{}''\<rparr>,
                \<lparr>Name = ''get_price'', Arguments = ''{}''\<rparr>,
                \<lparr>Name = ''close_position'', Arguments = ''{}''\<rparr>]"

theorem executeToolCalls_in_order_witness:
  "map Name' (fst (executeToolCalls demoTools demoCalls [])) = [''get_balance'', ''get_price'', ''close_position'']
   \<and> snd (executeToolCalls demoTools demoCalls []) = [''get_balance'', ''close_position'']
   \<and> fst (executeToolCalls demoTools demoCalls []) ! 1
        = \<lparr>Name' = ''get_price'', Result = None, Error = ''unknown tool: get_price''\<rparr>
   \<and> fst (executeToolCalls demoTools demoCalls []) ! 2
        = \<lparr>Name' = ''close_position'', Result = None, Error = ''trader not found''\<rparr>"
proof -
  have l: "length demoCalls = 3" by (simp add: demoCalls_def)
  have t: "demoTools ''get_price'' = None"
    "demoTools ''get_balance'' = Some (okTool ''get_balance'')"
    "demoTools ''close_position'' = Some (failingTool ''close_position'')"
    by (simp_all add: demoTools_def)
  have c: "demoCalls ! 0 = \<lparr>Name = ''get_balance'', Arguments = ''{}''\<rparr>"
    "demoCalls ! 1 = \<lparr>Name = ''get_price'', Arguments = ''{}''\<rparr>"
    "demoCalls ! 2 = \<lparr>Name = ''close_position'', Arguments = ''{}''\<rparr>"
    by (simp_all add: demoCalls_def)
  from executeToolCalls_in_order [of demoTools demoCalls "[]"]
  show ?thesis
    unfolding l
    by (simp add: c t demoCalls_def okTool_def failingTool_def executeOne_def)
qed

text \<open>
  C8 (amended). No ToolResult produced by the dispatcher carries both a result and an
  error: the result is absent or the error string is empty. A call to an unregistered
  name yields no result and a non-empty error; a handler that returns an error yields no
  result and that error's message; a handler that returns no error yields its value and
  the empty error string. Hence a ToolResult carries exactly one of the two unless the
  handler returned the nil value without an error, or an error whose message is empty.
\<close>

theorem ToolResult_at_most_one:
  "\<forall>i < length calls.
     (Result (fst (executeToolCalls tools calls w) ! i) = None
        \<or> Error (fst (executeToolCalls tools calls w) ! i) = [])
   \<and> (tools (Name (calls ! i)) = None \<longrightarrow>
        Result (fst (executeToolCalls tools calls w) ! i) = None
        \<and> Error (fst (executeToolCalls tools calls w) ! i) \<noteq> [])
   \<and> (\<forall>tool. tools (Name (calls ! i)) = Some tool \<longrightarrow>
        (case fst (tool (Arguments (calls ! i)) (worldAfter tools w (take i calls))) of
           (result, Some err) \<Rightarrow>
              Result (fst (executeToolCalls tools calls w) ! i) = None
              \<and> Error (fst (executeToolCalls tools calls w) ! i) = err
         | (result, None) \<Rightarrow>
              Result (fst (executeToolCalls tools calls w) ! i) = result
              \<and> Error (fst (executeToolCalls tools calls w) ! i) = []))"
  by (auto simp add: executeToolCalls_nth executeOne_def split: option.splits prod.splits)

theorem ToolResult_neither_counterexample:
  "Result (fst (executeToolCalls demoTools [\<lparr>Name = ''noop'', Arguments = ''{}''\<rparr>] []) ! 0) = None
   \<and> Error (fst (executeToolCalls demoTools [\<lparr>Name = ''noop'', Arguments = ''{}''\<rparr>] []) ! 0) = []"
  by (simp add: executeToolCalls_def executeOne_def demoTools_def silentTool_def)

theorem ToolResult_at_most_one_witness:
  "Result (fst (executeToolCalls demoTools demoCalls []) ! 0) = Some ''done {}''
   \<and> Error (fst (executeToolCalls demoTools demoCalls []) ! 0) = []
   \<and> Result (fst (executeToolCalls demoTools demoCalls []) ! 1) = None
   \<and> Error (fst (executeToolCalls demoTools demoCalls []) ! 1) \<noteq> []
   \<and> Result (fst (executeToolCalls demoTools demoCalls []) ! 2) = None
   \<and> Error (fst (executeToolCalls demoTools demoCalls []) ! 2) = ''trader not found''"
proof -
  have l: "length demoCalls = 3" by (simp add: demoCalls_def)
  have t: "demoTools ''get_price'' = None"
    "demoTools ''get_balance'' = Some (okTool ''get_balance'')"
    "demoTools ''close_position'' = Some (failingTool ''close_position'')"
    by (simp_all add: demoTools_def)
  have c: "demoCalls ! 0 = \<lparr>Name = ''get_balance'', Arguments = ''{}''\<rparr>"
    "demoCalls ! 1 = \<lparr>Name = ''get_price'', Arguments = ''{}''\<rparr>"
    "demoCalls ! 2 = \<lparr>Name = ''close_position'', Arguments = ''{}''\<rparr>"
    by (simp_all add: demoCalls_def)
  have c': "demoCalls ! Suc 0 = \<lparr>Name = ''get_price'', Arguments = ''{}''\<rparr>"
    by (simp add: demoCalls_def)
  show ?thesis
    using ToolResult_at_most_one [of demoCalls demoTools "[]", rule_format, of 0]
      ToolResult_at_most_one [of demoCalls demoTools "[]", rule_format, of 1]
      ToolResult_at_most_one [of demoCalls demoTools "[]", rule_format, of 2]
    by (simp add: l c c' t okTool_def failingTool_def)
qed


section \<open>Agent Loop\<close>

subsection \<open>Extraction of tool calls from a model response\<close>

text \<open>
  Go strings are byte strings. \<^verbatim>\<open>strings.Contains\<close>, and \<^verbatim>\<open>strings.Index\<close> and
  \<^verbatim>\<open>strings.LastIndex\<close> for a pattern of one byte (\<open>- 1\<close> when it does not occur).
\<close>

fun Contains :: "string \<Rightarrow> string \<Rightarrow> bool" where
  "Contains [] substr = (substr = [])"
| "Contains (c # s) substr = (take (length substr) (c # s) = substr \<or> Contains s substr)"

fun Index :: "string \<Rightarrow> char \<Rightarrow> int" where
  "Index [] c = - 1"
| "Index (x # s) c = (if x = c then 0 else (let i = Index s c in if i < 0 then - 1 else i + 1))"

definition LastIndex :: "string \<Rightarrow> char \<Rightarrow> int" where
  "LastIndex s c = (let i = Index (rev s) c in if i < 0 then - 1 else int (length s) - 1 - i)"

text \<open>
  What the agent takes from outside the repository, as parameters: of the Go standard
  library \<^verbatim>\<open>strings.TrimSpace\<close>, \<^verbatim>\<open>json.Unmarshal\<close> into the anonymous struct of
  \<^verbatim>\<open>parseResponse\<close> (\<open>None\<close> is a decoding error, \<open>Some\<close> the decoded \<^verbatim>\<open>tool_calls\<close>, empty
  when the key is absent), \<^verbatim>\<open>json.Marshal\<close> of a tool's value, \<^verbatim>\<open>strings.Title\<close>, the
  growth policy of \<^verbatim>\<open>append\<close>, and the clock \<^verbatim>\<open>time.Now\<close> as a reading of the world.
\<close>

record ('w, 'r) stdlib =
  TrimSpace :: "string \<Rightarrow> string"
  Unmarshal :: "string \<Rightarrow> ToolCall list option"
  Marshal :: "'r option \<Rightarrow> string"
  Title :: "string \<Rightarrow> string"
  growslice :: "nat \<Rightarrow> nat"
  Now :: "'w \<Rightarrow> int"

text \<open>\<^verbatim>\<open>parseResponse\<close>. The error it returns is always nil.\<close>

definition parseResponse :: "('w, 'r) stdlib \<Rightarrow> string \<Rightarrow> ToolCall list \<times> string \<times> string option" where
  "parseResponse L response =
     (let toolCalls = []; textResponse = response
      in if Contains response ''tool_calls''
         then (let start = Index response (CHR ''{''); end = LastIndex response (CHR ''}'')
               in if start \<ge> 0 \<and> end > start
                  then (let jsonStr = take (nat (end + 1 - start)) (drop (nat start) response)
                        in case Unmarshal L jsonStr of
                             Some parsed \<Rightarrow>
                               (toolCalls @ parsed,
                                TrimSpace L (take (nat start) response @ drop (nat (end + 1)) response),
                                None)
                           | None \<Rightarrow> (toolCalls, textResponse, None))
                  else (toolCalls, textResponse, None))
         else (toolCalls, textResponse, None))"


subsection \<open>The loop\<close>

text \<open>\<^verbatim>\<open>strings.Join\<close> and the two renderings folded back into the conversation prompt.\<close>

fun Join :: "string list \<Rightarrow> string \<Rightarrow> string" where
  "Join [] sep = []"
| "Join [a] sep = a"
| "Join (a # b # rest) sep = a @ sep @ Join (b # rest) sep"

definition formatToolCalls :: "ToolCall list \<Rightarrow> string" where
  "formatToolCalls calls =
     Join (map (\<lambda>c. ''- '' @ Name c @ ''('' @ Arguments c @ '')'') calls) [CHR 0x0A]"

definition formatToolResults :: "('w, 'r) stdlib \<Rightarrow> 'r ToolResult list \<Rightarrow> string" where
  "formatToolResults L results =
     Join (map (\<lambda>r. if Error r \<noteq> []
                      then ''- '' @ Name' r @ '': ERROR: '' @ Error r
                      else ''- '' @ Name' r @ '': '' @ Marshal L (Result r)) results) [CHR 0x0A]"

text \<open>
  The agent: the AI client (\<^verbatim>\<open>CallWithMessages\<close>, from the two prompts and the world to
  an error text or a response, and the new world), the tool registry and the
  configuration. The system prompt with the tool catalogue, which
  \<^verbatim>\<open>buildSystemPromptWithTools\<close> assembles in the unspecified iteration order of a Go map, is
  taken as given. AI client and tools act on the external world only.
\<close>

record ('w, 'r) Agent =
  aiClient :: "string \<Rightarrow> string \<Rightarrow> 'w \<Rightarrow> (string + string) \<times> 'w"
  tools :: "string \<rightharpoonup> ('w, 'r) Tool"
  MaxToolCalls :: int
  MaxHistoryMessages :: int
  promptWithTools :: string

text \<open>
  The variables of the loop of \<^verbatim>\<open>Chat\<close>; \<open>completions\<close> is a ghost counter of the calls to
  the AI client.
\<close>

record loopVars =
  conversationPrompt :: string
  finalResponse :: string
  toolCallCount :: int
  completions :: nat

text \<open>The text appended to the conversation prompt after a batch; \<open>request\<close> is its last
  sentence, which differs between \<^verbatim>\<open>Agent.Chat\<close> and \<^verbatim>\<open>SmartAgent.Chat\<close>.\<close>

definition foldBack :: "('w, 'r) stdlib \<Rightarrow> string \<Rightarrow> ToolCall list \<Rightarrow> 'r ToolResult list \<Rightarrow> string" where
  "foldBack L request toolCalls toolResults =
     [CHR 0x0A, CHR 0x0A] @ ''Assistant called tools:'' @ [CHR 0x0A] @ formatToolCalls toolCalls
     @ [CHR 0x0A, CHR 0x0A] @ ''Tool results:'' @ [CHR 0x0A] @ formatToolResults L toolResults
     @ [CHR 0x0A, CHR 0x0A] @ request"

text \<open>
  One iteration of the \<^verbatim>\<open>for\<close> loop: it leaves the loop (by \<^verbatim>\<open>return nil, err\<close> with
  \<open>Some\<close> error, or by \<^verbatim>\<open>break\<close> with \<open>None\<close>) or goes round again. \<^verbatim>\<open>ctx.Err()\<close> is a
  reading of the world. The context is checked, and the counter compared, only here at the
  head of an iteration.
\<close>

datatype 'w flow = Exit "string option" loopVars 'w | Again loopVars 'w

definition loopBody ::
  "('w, 'r) stdlib \<Rightarrow> ('w, 'r) Agent \<Rightarrow> ('w \<Rightarrow> string option) \<Rightarrow> string \<Rightarrow> string \<Rightarrow> loopVars \<Rightarrow> 'w
     \<Rightarrow> 'w flow" where
  "loopBody L a ctx systemPrompt request v w =
     (case ctx w of
        Some cancelled \<Rightarrow> Exit (Some cancelled) v w
      | None \<Rightarrow>
          if toolCallCount v \<ge> MaxToolCalls a then Exit None v w
          else (case aiClient a systemPrompt (conversationPrompt v) w of
                  (Inl err, w) \<Rightarrow>
                    Exit (Some (''AI call failed: '' @ err)) (v\<lparr>completions := completions v + 1\<rparr>) w
                | (Inr response, w) \<Rightarrow>
                    (case parseResponse L response of
                       (toolCalls, textResponse, Some err) \<Rightarrow>
                         Exit None (v\<lparr>completions := completions v + 1, finalResponse := response\<rparr>) w
                     | (toolCalls, textResponse, None) \<Rightarrow>
                         if length toolCalls = 0
                         then Exit None (v\<lparr>completions := completions v + 1,
                                          finalResponse := textResponse\<rparr>) w
                         else (case executeToolCalls (tools a) toolCalls w of
                                 (toolResults, w) \<Rightarrow>
                                   Again (v\<lparr>completions := completions v + 1,
                                            toolCallCount := toolCallCount v + int (length toolCalls),
                                            conversationPrompt := conversationPrompt v
                                               @ foldBack L request toolCalls toolResults,
                                            finalResponse := (if textResponse \<noteq> [] then textResponse
                                                              else finalResponse v)\<rparr>) w))))"

lemma loopBody_Again:
  assumes "loopBody L a ctx systemPrompt request v w = Again v' w'"
  shows "toolCallCount v < MaxToolCalls a" "toolCallCount v < toolCallCount v'"
    "completions v' = completions v + 1"
  using assms
  by (auto simp add: loopBody_def split: option.splits if_splits prod.splits sum.splits)

text \<open>The loop terminates: every round adds at least one to the counter, and no round
  starts once the counter has reached the maximum.\<close>

function agentLoop ::
  "('w, 'r) stdlib \<Rightarrow> ('w, 'r) Agent \<Rightarrow> ('w \<Rightarrow> string option) \<Rightarrow> string \<Rightarrow> string \<Rightarrow> loopVars \<Rightarrow> 'w
     \<Rightarrow> string option \<times> loopVars \<times> 'w" where
  "agentLoop L a ctx systemPrompt request v w =
     (case loopBody L a ctx systemPrompt request v w of
        Exit err v w \<Rightarrow> (err, v, w)
      | Again v w \<Rightarrow> agentLoop L a ctx systemPrompt request v w)"
  by pat_completeness auto
termination
proof (relation "measure (\<lambda>(L, a, ctx, systemPrompt, request, v, w).
                           nat (MaxToolCalls a - toolCallCount v))")
  show "wf (measure (\<lambda>(L, a, ctx, systemPrompt, request, v, w).
                           nat (MaxToolCalls a - toolCallCount v)))"
    by simp
next
  fix L :: "('w, 'r) stdlib" and a :: "('w, 'r) Agent" and ctx systemPrompt request v w v' w'
  assume "loopBody L a ctx systemPrompt request v w = Again v' w'"
  from loopBody_Again(1,2) [OF this]
  show "((L, a, ctx, systemPrompt, request, v', w'), (L, a, ctx, systemPrompt, request, v, w))
      \<in> measure (\<lambda>(L, a, ctx, systemPrompt, request, v, w). nat (MaxToolCalls a - toolCallCount v))"
    by simp
qed

subsection \<open>A turn\<close>

text \<open>
  The state a turn works on: the store of backing arrays, the sessions by id, and the
  external world. \<^verbatim>\<open>Chat\<close> returns \<^verbatim>\<open>(nil, err)\<close>, modelled by \<open>Failed\<close>, or a response
  and a nil error, modelled by \<open>Replied\<close>; \<open>Panicked\<close> is a run-time panic.
\<close>

record 'w state =
  store :: heap
  sessions :: "string \<rightharpoonup> Session"
  world :: 'w

record AgentResponse =
  Text :: string
  SessionID :: string

datatype outcome = Panicked panic | Failed string | Replied AgentResponse

definition GetSession ::
  "('w, 'r) stdlib \<Rightarrow> ('w, 'r) Agent \<Rightarrow> string \<Rightarrow> 'w state \<Rightarrow> Session \<times> 'w state" where
  "GetSession L a sessionID st =
     (case sessions st sessionID of
        Some session \<Rightarrow> (session, st)
      | None \<Rightarrow>
          (case NewSession sessionID (MaxHistoryMessages a) (Now L (world st)) (Now L (world st))
                  (store st) of
             (session, h) \<Rightarrow>
               (session, st\<lparr>store := h, sessions := (sessions st)(sessionID \<mapsto> session)\<rparr>)))"

definition buildConversationPrompt ::
  "('w, 'r) stdlib \<Rightarrow> Session \<Rightarrow> heap \<Rightarrow> string \<times> heap" where
  "buildConversationPrompt L session h =
     (case GetMessages session h of
        (msgs, h) \<Rightarrow>
          (Join (map (\<lambda>msg. Title L (Role msg) @ '': '' @ Content msg) (view h msgs))
                [CHR 0x0A, CHR 0x0A], h))"

text \<open>The call \<^verbatim>\<open>session.AddMessage(Message{Role: role, Content: content, Timestamp:
  time.Now()})\<close> on the session with the given id.\<close>

definition sessionAdd ::
  "('w, 'r) stdlib \<Rightarrow> string \<Rightarrow> string \<Rightarrow> string \<Rightarrow> Session \<Rightarrow> 'w state \<Rightarrow> panic + Session \<times> 'w state" where
  "sessionAdd L sessionID role content session st =
     (case AddMessage (growslice L) (Now L (world st))
             \<lparr>Role = role, Content = content, Timestamp = Now L (world st)\<rparr> session (store st) of
        Inl p \<Rightarrow> Inl p
      | Inr (session, h) \<Rightarrow>
          Inr (session, st\<lparr>store := h, sessions := (sessions st)(sessionID \<mapsto> session)\<rparr>))"

definition Chat ::
  "('w, 'r) stdlib \<Rightarrow> ('w, 'r) Agent \<Rightarrow> ('w \<Rightarrow> string option) \<Rightarrow> string \<Rightarrow> string \<Rightarrow> 'w state
     \<Rightarrow> outcome \<times> 'w state" where
  "Chat L a ctx sessionID userMessage st =
     (case GetSession L a sessionID st of (session, st) \<Rightarrow>
      (case sessionAdd L sessionID ''user'' userMessage session st of
         Inl p \<Rightarrow> (Panicked p, st)
       | Inr (session, st) \<Rightarrow>
          (case buildConversationPrompt L session (store st) of (prompt, h) \<Rightarrow>
           (case agentLoop L a ctx (promptWithTools a)
                   ''Based on the tool results, please provide your response to the user:''
                   \<lparr>conversationPrompt = prompt, finalResponse = [],
                    toolCallCount = 0, completions = 0\<rparr> (world st) of
              (Some err, v, w) \<Rightarrow> (Failed err, st\<lparr>store := h, world := w\<rparr>)
            | (None, v, w) \<Rightarrow>
               (case sessionAdd L sessionID ''assistant'' (finalResponse v) session
                       (st\<lparr>store := h, world := w\<rparr>) of
                  Inl p \<Rightarrow> (Panicked p, st\<lparr>store := h, world := w\<rparr>)
                | Inr (session, st) \<Rightarrow>
                    (Replied \<lparr>Text = finalResponse v, SessionID = sessionID\<rparr>, st))))))"

text \<open>
  \<^verbatim>\<open>SmartAgent\<close> embeds an \<^verbatim>\<open>Agent\<close>. Its system prompt with tools is taken as given,
  and so is the digest of the live trading state (\<^verbatim>\<open>BuildContext\<close> followed by
  \<^verbatim>\<open>FormatContextForPrompt\<close>), a fetch from the external world.
\<close>

record ('w, 'r) SmartAgent =
  agent :: "('w, 'r) Agent"
  smartPromptWithTools :: string
  autoInjectContext :: bool
  tradingDigest :: "'w \<Rightarrow> string \<times> 'w"

definition buildSmartConversationPrompt ::
  "('w, 'r) stdlib \<Rightarrow> ('w, 'r) SmartAgent \<Rightarrow> Session \<Rightarrow> heap \<Rightarrow> 'w \<Rightarrow> string \<times> heap \<times> 'w" where
  "buildSmartConversationPrompt L sa session h w =
     (case (if autoInjectContext sa then tradingDigest sa w else ([], w)) of
        (sb, w) \<Rightarrow>
          (case GetMessages session h of
             (msgs, h) \<Rightarrow>
               (sb @ concat (map (\<lambda>msg. [CHR 0x0A] @ Title L (Role msg) @ '': '' @ Content msg
                                            @ [CHR 0x0A]) (view h msgs)),
                h, w)))"

definition SmartChat ::
  "('w, 'r) stdlib \<Rightarrow> ('w, 'r) SmartAgent \<Rightarrow> ('w \<Rightarrow> string option) \<Rightarrow> string \<Rightarrow> string \<Rightarrow> 'w state
     \<Rightarrow> outcome \<times> 'w state" where
  "SmartChat L sa ctx sessionID userMessage st =
     (case GetSession L (agent sa) sessionID st of (session, st) \<Rightarrow>
      (case sessionAdd L sessionID ''user'' userMessage session st of
         Inl p \<Rightarrow> (Panicked p, st)
       | Inr (session, st) \<Rightarrow>
          (case buildSmartConversationPrompt L sa session (store st) (world st) of
             (prompt, h, w) \<Rightarrow>
           (case agentLoop L (agent sa) ctx (smartPromptWithTools sa)
                   ''Based on the tool results, provide a helpful response:''
                   \<lparr>conversationPrompt = prompt, finalResponse = [],
                    toolCallCount = 0, completions = 0\<rparr> w of
              (Some err, v, w) \<Rightarrow> (Failed err, st\<lparr>store := h, world := w\<rparr>)
            | (None, v, w) \<Rightarrow>
               (case sessionAdd L sessionID ''assistant'' (finalResponse v) session
                       (st\<lparr>store := h, world := w\<rparr>) of
                  Inl p \<Rightarrow> (Panicked p, st\<lparr>store := h, world := w\<rparr>)
                | Inr (session, st) \<Rightarrow>
                    (Replied \<lparr>Text = finalResponse v, SessionID = sessionID\<rparr>, st))))))"

subsection \<open>Properties of a turn\<close>

text \<open>The history of a session in a state (empty when there is no such session), the
  capacity a session has or would be created with, and the invariant that every session's
  slice is well formed and within a non-negative capacity.\<close>

definition history :: "'w state \<Rightarrow> string \<Rightarrow> Message list" where
  "history st sessionID =
     (case sessions st sessionID of None \<Rightarrow> [] | Some s \<Rightarrow> view (store st) (messages s))"

definition stateOK :: "'w state \<Rightarrow> bool" where
  "stateOK st \<longleftrightarrow> (\<forall>sid s. sessions st sid = Some s \<longrightarrow> sessionOK (store st) s)"

lemma GetSession_spec:
  assumes ok: "stateOK st" and M: "0 \<le> MaxHistoryMessages a"
    and g: "GetSession L a sid st = (s0, st0)"
  shows "sessionOK (store st0) s0 \<and> sessions st0 sid = Some s0 \<and>
      view (store st0) (messages s0) = history st sid \<and> world st0 = world st \<and>
      (\<forall>other. other \<noteq> sid \<longrightarrow> sessions st0 other = sessions st other)"
proof (cases "sessions st sid")
  case None
  have st0: "st0 = st\<lparr>store := snd (NewSession sid (MaxHistoryMessages a) (Now L (world st)) (Now L (world st)) (store st)),
      sessions := (sessions st)(sid \<mapsto> fst (NewSession sid (MaxHistoryMessages a) (Now L (world st)) (Now L (world st)) (store st)))\<rparr>"
    and s0: "s0 = fst (NewSession sid (MaxHistoryMessages a) (Now L (world st)) (Now L (world st)) (store st))"
    using g None by (auto simp add: GetSession_def split: prod.splits)
  show ?thesis
    using None NewSession_OK(1) [OF M, of sid "Now L (world st)" "Now L (world st)" "store st"]
    unfolding st0 s0 by (simp add: history_def NewSession_OK(2))
next
  case (Some s)
  then have "s0 = s" "st0 = st" using g by (auto simp add: GetSession_def)
  then show ?thesis
    using Some ok by (simp add: history_def stateOK_def)
qed

lemma sessionAdd_spec:
  assumes ok: "sessionOK (store st) s"
  shows "\<exists>s' st'. sessionAdd L sid role content s st = Inr (s', st')
    \<and> view (store st') (messages s') =
          keepLast (maxMessages s)
            (view (store st) (messages s)
               @ [\<lparr>Role = role, Content = content, Timestamp = Now L (world st)\<rparr>])
    \<and> sessionOK (store st') s' \<and> maxMessages s' = maxMessages s
    \<and> sessions st' = (sessions st)(sid \<mapsto> s') \<and> world st' = world st"
proof -
  have wf: "wfSlice (store st) (messages s)" and m: "0 \<le> maxMessages s"
    using ok by (simp_all add: sessionOK_def)
  from AddMessage_spec [OF wf m, of "growslice L" "Now L (world st)"
      "\<lparr>Role = role, Content = content, Timestamp = Now L (world st)\<rparr>"]
  obtain s' h' where a: "AddMessage (growslice L) (Now L (world st))
        \<lparr>Role = role, Content = content, Timestamp = Now L (world st)\<rparr> s (store st) = Inr (s', h')"
    and v: "view h' (messages s') = keepLast (maxMessages s) (view (store st) (messages s)
               @ [\<lparr>Role = role, Content = content, Timestamp = Now L (world st)\<rparr>])"
    and ok': "sessionOK h' s'" and mm: "maxMessages s' = maxMessages s"
    by blast
  show ?thesis using a v ok' mm by (simp add: sessionAdd_def)
qed

lemma loopBody_Exit_error:
  "loopBody L a ctx sp rq v w = Exit (Some err) v' w' \<Longrightarrow>
     (ctx w = Some err \<and> w' = w \<and> v' = v)
     \<or> (ctx w = None \<and> toolCallCount v < MaxToolCalls a
        \<and> (\<exists>e. aiClient a sp (conversationPrompt v) w = (Inl e, w')
              \<and> err = ''AI call failed: '' @ e))"
  by (auto simp add: loopBody_def split: option.splits if_splits prod.splits sum.splits)


lemma agentLoop_error:
  "agentLoop L a ctx sp rq v w = (Some err, v', w') \<Longrightarrow>
     (ctx w' = Some err \<or> (\<exists>e. err = ''AI call failed: '' @ e))"
proof (induction L a ctx sp rq v w rule: agentLoop.induct)
  case (1 L a ctx sp rq v w)
  show ?case
  proof (cases "loopBody L a ctx sp rq v w")
    case (Exit e v1 w1)
    with "1.prems" have "loopBody L a ctx sp rq v w = Exit (Some err) v' w'" by simp
    from loopBody_Exit_error [OF this] show ?thesis by auto
  next
    case (Again v1 w1)
    with "1.prems" have "agentLoop L a ctx sp rq v1 w1 = (Some err, v', w')" by simp
    from "1.IH" [OF Again this] show ?thesis .
  qed
qed

lemma buildConversationPrompt_keeps:
  assumes wf: "wfSlice h (messages s)" and b: "buildConversationPrompt L s h = (prompt, h')"
  shows "view h' (messages s) = view h (messages s)"
proof -
  obtain r h1 where g: "GetMessages s h = (r, h1)" by (cases "GetMessages s h")
  with b have "h' = h1" by (simp add: buildConversationPrompt_def)
  with GetMessages_keeps_session(2) [OF wf g] show ?thesis by simp
qed

definition capacity :: "('w, 'r) Agent \<Rightarrow> 'w state \<Rightarrow> string \<Rightarrow> int" where
  "capacity a st sessionID =
     (case sessions st sessionID of None \<Rightarrow> MaxHistoryMessages a | Some s \<Rightarrow> maxMessages s)"

lemma Chat_Failed:
  assumes ok: "stateOK st" and M: "0 \<le> MaxHistoryMessages a"
    and c: "Chat L a ctx sid userMessage st = (Failed err, st')"
  shows "history st' sid =
           keepLast (capacity a st sid)
             (history st sid @ [\<lparr>Role = ''user'', Content = userMessage, Timestamp = Now L (world st)\<rparr>])
       \<and> (\<forall>other. other \<noteq> sid \<longrightarrow> sessions st' other = sessions st other)
       \<and> (ctx (world st') = Some err \<or> (\<exists>e. err = ''AI call failed: '' @ e))"
proof -
  obtain s0 st0 where g: "GetSession L a sid st = (s0, st0)" by (cases "GetSession L a sid st")
  note gs = GetSession_spec [OF ok M g]
  have cap: "maxMessages s0 = capacity a st sid"
    using g by (auto simp add: GetSession_def capacity_def NewSession_def makeSlice_def
        split: option.splits prod.splits)
  from gs have ok0: "sessionOK (store st0) s0" by simp
  from sessionAdd_spec [OF ok0, of L sid "''user''" userMessage]
  obtain s1 st1 where a: "sessionAdd L sid ''user'' userMessage s0 st0 = Inr (s1, st1)"
    and v1: "view (store st1) (messages s1) =
          keepLast (maxMessages s0)
            (view (store st0) (messages s0)
               @ [\<lparr>Role = ''user'', Content = userMessage, Timestamp = Now L (world st0)\<rparr>])"
    and ok1: "sessionOK (store st1) s1"
    and ss1: "sessions st1 = (sessions st0)(sid \<mapsto> s1)" and w1: "world st1 = world st0"
    by blast
  obtain prompt h where b: "buildConversationPrompt L s1 (store st1) = (prompt, h)"
    by (cases "buildConversationPrompt L s1 (store st1)")
  have wf1: "wfSlice (store st1) (messages s1)" using ok1 by (simp add: sessionOK_def)
  note keep = buildConversationPrompt_keeps [OF wf1 b]
  obtain e v w where l: "agentLoop L a ctx (promptWithTools a)
      ''Based on the tool results, please provide your response to the user:''
      \<lparr>conversationPrompt = prompt, finalResponse = [], toolCallCount = 0, completions = 0\<rparr>
      (world st1) = (e, v, w)"
    by (metis prod_cases3)
  have e: "e = Some err" and st': "st' = st1\<lparr>store := h, world := w\<rparr>"
    using c g a b l by (auto simp add: Chat_def split: option.splits sum.splits prod.splits)
  have "history st' sid = view h (messages s1)"
    by (simp add: st' history_def ss1)
  also have "\<dots> = keepLast (capacity a st sid)
             (history st sid @ [\<lparr>Role = ''user'', Content = userMessage, Timestamp = Now L (world st)\<rparr>])"
    using gs by (simp add: keep v1 cap)
  finally have 1: "history st' sid = keepLast (capacity a st sid)
             (history st sid @ [\<lparr>Role = ''user'', Content = userMessage, Timestamp = Now L (world st)\<rparr>])" .
  have 2: "\<forall>other. other \<noteq> sid \<longrightarrow> sessions st' other = sessions st other"
    using gs by (simp add: st' ss1)
  have 3: "ctx (world st') = Some err \<or> (\<exists>e. err = ''AI call failed: '' @ e)"
    using agentLoop_error [OF l [unfolded e]] by (simp add: st')
  from 1 2 3 show ?thesis by blast
qed


lemma buildSmartConversationPrompt_keeps:
  assumes wf: "wfSlice h (messages s)"
    and b: "buildSmartConversationPrompt L sa s h w = (prompt, h', w')"
  shows "view h' (messages s) = view h (messages s)"
proof -
  obtain r h1 where g: "GetMessages s h = (r, h1)" by (cases "GetMessages s h")
  with b have "h' = h1" by (simp add: buildSmartConversationPrompt_def split: prod.splits)
  with GetMessages_keeps_session(2) [OF wf g] show ?thesis by simp
qed

lemma SmartChat_Failed:
  assumes ok: "stateOK st" and M: "0 \<le> MaxHistoryMessages (agent sa)"
    and c: "SmartChat L sa ctx sid userMessage st = (Failed err, st')"
  shows "history st' sid =
           keepLast (capacity (agent sa) st sid)
             (history st sid @ [\<lparr>Role = ''user'', Content = userMessage, Timestamp = Now L (world st)\<rparr>])
       \<and> (\<forall>other. other \<noteq> sid \<longrightarrow> sessions st' other = sessions st other)
       \<and> (ctx (world st') = Some err \<or> (\<exists>e. err = ''AI call failed: '' @ e))"
proof -
  obtain s0 st0 where g: "GetSession L (agent sa) sid st = (s0, st0)"
    by (cases "GetSession L (agent sa) sid st")
  note gs = GetSession_spec [OF ok M g]
  have cap: "maxMessages s0 = capacity (agent sa) st sid"
    using g by (auto simp add: GetSession_def capacity_def NewSession_def makeSlice_def
        split: option.splits prod.splits)
  from gs have ok0: "sessionOK (store st0) s0" by simp
  from sessionAdd_spec [OF ok0, of L sid "''user''" userMessage]
  obtain s1 st1 where a: "sessionAdd L sid ''user'' userMessage s0 st0 = Inr (s1, st1)"
    and v1: "view (store st1) (messages s1) =
          keepLast (maxMessages s0)
            (view (store st0) (messages s0)
               @ [\<lparr>Role = ''user'', Content = userMessage, Timestamp = Now L (world st0)\<rparr>])"
    and ok1: "sessionOK (store st1) s1"
    and ss1: "sessions st1 = (sessions st0)(sid \<mapsto> s1)" and w1: "world st1 = world st0"
    by blast
  obtain prompt h w0 where b:
    "buildSmartConversationPrompt L sa s1 (store st1) (world st1) = (prompt, h, w0)"
    by (metis prod_cases3)
  have wf1: "wfSlice (store st1) (messages s1)" using ok1 by (simp add: sessionOK_def)
  note keep = buildSmartConversationPrompt_keeps [OF wf1 b]
  obtain e v w where l: "agentLoop L (agent sa) ctx (smartPromptWithTools sa)
      ''Based on the tool results, provide a helpful response:''
      \<lparr>conversationPrompt = prompt, finalResponse = [], toolCallCount = 0, completions = 0\<rparr>
      w0 = (e, v, w)"
    by (metis prod_cases3)
  have e: "e = Some err" and st': "st' = st1\<lparr>store := h, world := w\<rparr>"
    using c g a b l by (auto simp add: SmartChat_def split: option.splits sum.splits prod.splits)
  have "history st' sid = view h (messages s1)"
    by (simp add: st' history_def ss1)
  also have "\<dots> = keepLast (capacity (agent sa) st sid)
       (history st sid @ [\<lparr>Role = ''user'', Content = userMessage, Timestamp = Now L (world st)\<rparr>])"
    using gs by (simp add: keep v1 cap)
  finally have 1: "history st' sid = keepLast (capacity (agent sa) st sid)
       (history st sid @ [\<lparr>Role = ''user'', Content = userMessage, Timestamp = Now L (world st)\<rparr>])" .
  have 2: "\<forall>other. other \<noteq> sid \<longrightarrow> sessions st' other = sessions st other"
    using gs by (simp add: st' ss1)
  have 3: "ctx (world st') = Some err \<or> (\<exists>e. err = ''AI call failed: '' @ e)"
    using agentLoop_error [OF l [unfolded e]] by (simp add: st')
  from 1 2 3 show ?thesis by blast
qed

lemma keepLast_last:
  "1 \<le> m \<Longrightarrow> keepLast m (xs @ [x]) \<noteq> [] \<and> last (keepLast m (xs @ [x])) = x"
  by (auto simp add: keepLast_def)

text \<open>
  The part of a turn before the loop: the variables and the world with which the loop is
  entered, or \<open>None\<close> when appending the user message panics.
\<close>

definition ChatStart ::
  "('w, 'r) stdlib \<Rightarrow> ('w, 'r) Agent \<Rightarrow> string \<Rightarrow> string \<Rightarrow> 'w state \<Rightarrow> (loopVars \<times> 'w) option" where
  "ChatStart L a sessionID userMessage st =
     (case GetSession L a sessionID st of (session, st) \<Rightarrow>
      (case sessionAdd L sessionID ''user'' userMessage session st of
         Inl p \<Rightarrow> None
       | Inr (session, st) \<Rightarrow>
          (case buildConversationPrompt L session (store st) of (prompt, h) \<Rightarrow>
             Some (\<lparr>conversationPrompt = prompt, finalResponse = [],
                    toolCallCount = 0, completions = 0\<rparr>, world st))))"

definition SmartChatStart ::
  "('w, 'r) stdlib \<Rightarrow> ('w, 'r) SmartAgent \<Rightarrow> string \<Rightarrow> string \<Rightarrow> 'w state \<Rightarrow> (loopVars \<times> 'w) option" where
  "SmartChatStart L sa sessionID userMessage st =
     (case GetSession L (agent sa) sessionID st of (session, st) \<Rightarrow>
      (case sessionAdd L sessionID ''user'' userMessage session st of
         Inl p \<Rightarrow> None
       | Inr (session, st) \<Rightarrow>
          (case buildSmartConversationPrompt L sa session (store st) (world st) of
             (prompt, h, w) \<Rightarrow>
               Some (\<lparr>conversationPrompt = prompt, finalResponse = [],
                      toolCallCount = 0, completions = 0\<rparr>, w))))"

text \<open>The variables and the world at the head of the iteration that follows \<open>k\<close> complete
  rounds of the loop, or \<open>None\<close> when the loop is left before.\<close>

primrec loopAfter ::
  "('w, 'r) stdlib \<Rightarrow> ('w, 'r) Agent \<Rightarrow> ('w \<Rightarrow> string option) \<Rightarrow> string \<Rightarrow> string \<Rightarrow> nat \<Rightarrow> loopVars \<Rightarrow> 'w
     \<Rightarrow> (loopVars \<times> 'w) option" where
  "loopAfter L a ctx systemPrompt request 0 v w = Some (v, w)"
| "loopAfter L a ctx systemPrompt request (Suc k) v w =
     (case loopBody L a ctx systemPrompt request v w of
        Exit err v w \<Rightarrow> None
      | Again v w \<Rightarrow> loopAfter L a ctx systemPrompt request k v w)"

abbreviation chatRequest :: string where
  "chatRequest \<equiv> ''Based on the tool results, please provide your response to the user:''"

abbreviation smartChatRequest :: string where
  "smartChatRequest \<equiv> ''Based on the tool results, provide a helpful response:''"

lemma agentLoop_loopAfter:
  "loopAfter L a ctx sp rq k v w = Some (v', w') \<Longrightarrow>
     agentLoop L a ctx sp rq v w = agentLoop L a ctx sp rq v' w'"
proof (induction k arbitrary: v w)
  case 0
  then show ?case by simp
next
  case (Suc k)
  show ?case
  proof (cases "loopBody L a ctx sp rq v w")
    case (Exit e v1 w1)
    with Suc.prems show ?thesis by simp
  next
    case (Again v1 w1)
    with Suc.prems have "loopAfter L a ctx sp rq k v1 w1 = Some (v', w')" by simp
    from Suc.IH [OF this] have "agentLoop L a ctx sp rq v1 w1 = agentLoop L a ctx sp rq v' w'" .
    moreover have "agentLoop L a ctx sp rq v w = agentLoop L a ctx sp rq v1 w1"
      by (subst agentLoop.simps) (simp add: Again)
    ultimately show ?thesis by simp
  qed
qed

lemma agentLoop_cancelled:
  "ctx w = Some e \<Longrightarrow> agentLoop L a ctx sp rq v w = (Some e, v, w)"
  by (subst agentLoop.simps) (simp add: loopBody_def)

lemma agentLoop_ai_error:
  "ctx w = None \<Longrightarrow> toolCallCount v < MaxToolCalls a
     \<Longrightarrow> aiClient a sp (conversationPrompt v) w = (Inl e, w')
     \<Longrightarrow> agentLoop L a ctx sp rq v w
           = (Some (''AI call failed: '' @ e), v\<lparr>completions := completions v + 1\<rparr>, w')"
  by (subst agentLoop.simps) (simp add: loopBody_def)

lemma Chat_fails_when_loop_fails:
  assumes "ChatStart L a sid userMessage st = Some (v0, w0)"
    and "agentLoop L a ctx (promptWithTools a) chatRequest v0 w0 = (Some err, v, w)"
  shows "\<exists>st'. Chat L a ctx sid userMessage st = (Failed err, st') \<and> world st' = w"
  using assms
  by (auto simp add: ChatStart_def Chat_def split: prod.splits sum.splits)

lemma SmartChat_fails_when_loop_fails:
  assumes "SmartChatStart L sa sid userMessage st = Some (v0, w0)"
    and "agentLoop L (agent sa) ctx (smartPromptWithTools sa) smartChatRequest v0 w0 = (Some err, v, w)"
  shows "\<exists>st'. SmartChat L sa ctx sid userMessage st = (Failed err, st') \<and> world st' = w"
  using assms
  by (auto simp add: SmartChatStart_def SmartChat_def split: prod.splits sum.splits)

lemma ChatStart_exists:
  assumes ok: "stateOK st" and M: "0 \<le> MaxHistoryMessages a"
  shows "\<exists>v0. ChatStart L a sid userMessage st = Some (v0, world st)
           \<and> toolCallCount v0 = 0 \<and> finalResponse v0 = []"
proof -
  obtain s0 st0 where g: "GetSession L a sid st = (s0, st0)" by (cases "GetSession L a sid st")
  note gs = GetSession_spec [OF ok M g]
  from gs have ok0: "sessionOK (store st0) s0" by simp
  from sessionAdd_spec [OF ok0, of L sid "''user''" userMessage]
  obtain s1 st1 where a: "sessionAdd L sid ''user'' userMessage s0 st0 = Inr (s1, st1)"
    and w1: "world st1 = world st0"
    by blast
  show ?thesis using g a w1 gs by (simp add: ChatStart_def split: prod.splits)
qed

lemma SmartChatStart_exists:
  assumes ok: "stateOK st" and M: "0 \<le> MaxHistoryMessages (agent sa)"
  shows "\<exists>v0 w0. SmartChatStart L sa sid userMessage st = Some (v0, w0)
           \<and> toolCallCount v0 = 0 \<and> finalResponse v0 = []
           \<and> w0 = (if autoInjectContext sa then snd (tradingDigest sa (world st)) else world st)"
proof -
  obtain s0 st0 where g: "GetSession L (agent sa) sid st = (s0, st0)"
    by (cases "GetSession L (agent sa) sid st")
  note gs = GetSession_spec [OF ok M g]
  from gs have ok0: "sessionOK (store st0) s0" by simp
  from sessionAdd_spec [OF ok0, of L sid "''user''" userMessage]
  obtain s1 st1 where a: "sessionAdd L sid ''user'' userMessage s0 st0 = Inr (s1, st1)"
    and w1: "world st1 = world st0"
    by blast
  show ?thesis using g a w1 gs
    by (simp add: SmartChatStart_def buildSmartConversationPrompt_def split: prod.splits)
qed


text \<open>
  C10. A turn of \<open>Chat\<close> or \<open>SmartChat\<close>, from a state whose sessions are well formed and with
  a non-negative history bound, reaches its loop with the user message appended. Whenever,
  after any number of rounds of tool calls, the context is found done at the head of an
  iteration, or the AI client fails in an iteration, the turn returns no response but the
  error (the context's error, or the client's error behind \<open>AI call failed: \<close>); the history
  of the session is then the history before the turn with the user message appended, cut to
  the session's capacity, so the user message is not rolled back and no assistant message is
  appended; the other sessions are untouched. Conversely every turn that returns an error
  returns one of these two, with that history; the user message is the last message whenever
  the capacity is at least one.
\<close>

theorem Chat_abort:
  fixes a :: "('w, 'r) Agent" and sa :: "('w, 'r) SmartAgent" and L :: "('w, 'r) stdlib"
    and st :: "'w state" and userMessage :: string
  assumes ok: "stateOK st"
  defines "userMsg \<equiv> \<lparr>Role = ''user'', Content = userMessage, Timestamp = Now L (world st)\<rparr>"
  shows "(0 \<le> MaxHistoryMessages a \<longrightarrow>
           (\<exists>v0. ChatStart L a sid userMessage st = Some (v0, world st) \<and> toolCallCount v0 = 0))
    \<and> (0 \<le> MaxHistoryMessages a \<and> ChatStart L a sid userMessage st = Some (v0, w0)
         \<and> loopAfter L a ctx (promptWithTools a) chatRequest k v0 w0 = Some (v, w)
         \<and> ctx w = Some cancel \<longrightarrow>
           (\<exists>st'. Chat L a ctx sid userMessage st = (Failed cancel, st') \<and> world st' = w
              \<and> history st' sid = keepLast (capacity a st sid) (history st sid @ [userMsg])
              \<and> (\<forall>other. other \<noteq> sid \<longrightarrow> sessions st' other = sessions st other)))
    \<and> (0 \<le> MaxHistoryMessages a \<and> ChatStart L a sid userMessage st = Some (v0, w0)
         \<and> loopAfter L a ctx (promptWithTools a) chatRequest k v0 w0 = Some (v, w)
         \<and> ctx w = None \<and> toolCallCount v < MaxToolCalls a
         \<and> aiClient a (promptWithTools a) (conversationPrompt v) w = (Inl e, w') \<longrightarrow>
           (\<exists>st'. Chat L a ctx sid userMessage st = (Failed (''AI call failed: '' @ e), st')
              \<and> world st' = w'
              \<and> history st' sid = keepLast (capacity a st sid) (history st sid @ [userMsg])
              \<and> (\<forall>other. other \<noteq> sid \<longrightarrow> sessions st' other = sessions st other)))
    \<and> (0 \<le> MaxHistoryMessages a \<and> Chat L a ctx sid userMessage st = (Failed err, st') \<longrightarrow>
           history st' sid = keepLast (capacity a st sid) (history st sid @ [userMsg])
         \<and> (1 \<le> capacity a st sid \<longrightarrow> history st' sid \<noteq> [] \<and> last (history st' sid) = userMsg)
         \<and> (\<forall>other. other \<noteq> sid \<longrightarrow> sessions st' other = sessions st other)
         \<and> (ctx (world st') = Some err \<or> (\<exists>e. err = ''AI call failed: '' @ e)))
    \<and> (0 \<le> MaxHistoryMessages (agent sa) \<longrightarrow>
           (\<exists>v0 w0. SmartChatStart L sa sid userMessage st = Some (v0, w0) \<and> toolCallCount v0 = 0
              \<and> w0 = (if autoInjectContext sa then snd (tradingDigest sa (world st)) else world st)))
    \<and> (0 \<le> MaxHistoryMessages (agent sa) \<and> SmartChatStart L sa sid userMessage st = Some (v0, w0)
         \<and> loopAfter L (agent sa) ctx (smartPromptWithTools sa) smartChatRequest k v0 w0 = Some (v, w)
         \<and> ctx w = Some cancel \<longrightarrow>
           (\<exists>st'. SmartChat L sa ctx sid userMessage st = (Failed cancel, st') \<and> world st' = w
              \<and> history st' sid = keepLast (capacity (agent sa) st sid) (history st sid @ [userMsg])
              \<and> (\<forall>other. other \<noteq> sid \<longrightarrow> sessions st' other = sessions st other)))
    \<and> (0 \<le> MaxHistoryMessages (agent sa) \<and> SmartChatStart L sa sid userMessage st = Some (v0, w0)
         \<and> loopAfter L (agent sa) ctx (smartPromptWithTools sa) smartChatRequest k v0 w0 = Some (v, w)
         \<and> ctx w = None \<and> toolCallCount v < MaxToolCalls (agent sa)
         \<and> aiClient (agent sa) (smartPromptWithTools sa) (conversationPrompt v) w = (Inl e, w') \<longrightarrow>
           (\<exists>st'. SmartChat L sa ctx sid userMessage st = (Failed (''AI call failed: '' @ e), st')
              \<and> world st' = w'
              \<and> history st' sid = keepLast (capacity (agent sa) st sid) (history st sid @ [userMsg])
              \<and> (\<forall>other. other \<noteq> sid \<longrightarrow> sessions st' other = sessions st other)))
    \<and> (0 \<le> MaxHistoryMessages (agent sa)
           \<and> SmartChat L sa ctx sid userMessage st = (Failed err, st') \<longrightarrow>
           history st' sid = keepLast (capacity (agent sa) st sid) (history st sid @ [userMsg])
         \<and> (1 \<le> capacity (agent sa) st sid \<longrightarrow> history st' sid \<noteq> [] \<and> last (history st' sid) = userMsg)
         \<and> (\<forall>other. other \<noteq> sid \<longrightarrow> sessions st' other = sessions st other)
         \<and> (ctx (world st') = Some err \<or> (\<exists>e. err = ''AI call failed: '' @ e)))"
proof -
  have start: "0 \<le> MaxHistoryMessages a \<longrightarrow>
           (\<exists>v0. ChatStart L a sid userMessage st = Some (v0, world st) \<and> toolCallCount v0 = 0)"
    using ChatStart_exists [OF ok, of a L sid userMessage] by blast
  have smartStart: "0 \<le> MaxHistoryMessages (agent sa) \<longrightarrow>
           (\<exists>v0 w0. SmartChatStart L sa sid userMessage st = Some (v0, w0) \<and> toolCallCount v0 = 0
              \<and> w0 = (if autoInjectContext sa then snd (tradingDigest sa (world st)) else world st))"
    using SmartChatStart_exists [OF ok, of sa L sid userMessage] by blast
  have failed: "history st1 sid = keepLast (capacity a st sid) (history st sid @ [userMsg])
         \<and> (1 \<le> capacity a st sid \<longrightarrow> history st1 sid \<noteq> [] \<and> last (history st1 sid) = userMsg)
         \<and> (\<forall>other. other \<noteq> sid \<longrightarrow> sessions st1 other = sessions st other)
         \<and> (ctx (world st1) = Some err1 \<or> (\<exists>e. err1 = ''AI call failed: '' @ e))"
    if "0 \<le> MaxHistoryMessages a" and "Chat L a ctx sid userMessage st = (Failed err1, st1)"
    for err1 st1
  proof -
    note f = Chat_Failed [OF ok that, folded userMsg_def]
    have "1 \<le> capacity a st sid \<longrightarrow> history st1 sid \<noteq> [] \<and> last (history st1 sid) = userMsg"
    proof
      assume "1 \<le> capacity a st sid"
      from keepLast_last [OF this, of "history st sid" userMsg] f
      show "history st1 sid \<noteq> [] \<and> last (history st1 sid) = userMsg" by simp
    qed
    with f show ?thesis by blast
  qed
  have smartFailed: "history st1 sid = keepLast (capacity (agent sa) st sid) (history st sid @ [userMsg])
         \<and> (1 \<le> capacity (agent sa) st sid \<longrightarrow> history st1 sid \<noteq> [] \<and> last (history st1 sid) = userMsg)
         \<and> (\<forall>other. other \<noteq> sid \<longrightarrow> sessions st1 other = sessions st other)
         \<and> (ctx (world st1) = Some err1 \<or> (\<exists>e. err1 = ''AI call failed: '' @ e))"
    if "0 \<le> MaxHistoryMessages (agent sa)"
      and "SmartChat L sa ctx sid userMessage st = (Failed err1, st1)"
    for err1 st1
  proof -
    note f = SmartChat_Failed [OF ok that, folded userMsg_def]
    have "1 \<le> capacity (agent sa) st sid \<longrightarrow> history st1 sid \<noteq> [] \<and> last (history st1 sid) = userMsg"
    proof
      assume "1 \<le> capacity (agent sa) st sid"
      from keepLast_last [OF this, of "history st sid" userMsg] f
      show "history st1 sid \<noteq> [] \<and> last (history st1 sid) = userMsg" by simp
    qed
    with f show ?thesis by blast
  qed
  have cancelledTurn: "\<exists>st'. Chat L a ctx sid userMessage st = (Failed cancel, st') \<and> world st' = w
              \<and> history st' sid = keepLast (capacity a st sid) (history st sid @ [userMsg])
              \<and> (\<forall>other. other \<noteq> sid \<longrightarrow> sessions st' other = sessions st other)"
    if M: "0 \<le> MaxHistoryMessages a" and s: "ChatStart L a sid userMessage st = Some (v0, w0)"
      and r: "loopAfter L a ctx (promptWithTools a) chatRequest k v0 w0 = Some (v, w)"
      and c: "ctx w = Some cancel"
  proof -
    have "agentLoop L a ctx (promptWithTools a) chatRequest v0 w0 = (Some cancel, v, w)"
      using agentLoop_loopAfter [OF r] agentLoop_cancelled [where ctx = ctx and w = w, OF c] by simp
    from Chat_fails_when_loop_fails [OF s this]
    obtain st1 where c1: "Chat L a ctx sid userMessage st = (Failed cancel, st1)" and "world st1 = w"
      by blast
    with failed [OF M c1] show ?thesis by blast
  qed
  have failedTurn: "\<exists>st'. Chat L a ctx sid userMessage st = (Failed (''AI call failed: '' @ e), st')
              \<and> world st' = w'
              \<and> history st' sid = keepLast (capacity a st sid) (history st sid @ [userMsg])
              \<and> (\<forall>other. other \<noteq> sid \<longrightarrow> sessions st' other = sessions st other)"
    if M: "0 \<le> MaxHistoryMessages a" and s: "ChatStart L a sid userMessage st = Some (v0, w0)"
      and r: "loopAfter L a ctx (promptWithTools a) chatRequest k v0 w0 = Some (v, w)"
      and c: "ctx w = None" and n: "toolCallCount v < MaxToolCalls a"
      and ai: "aiClient a (promptWithTools a) (conversationPrompt v) w = (Inl e, w')"
  proof -
    have "agentLoop L a ctx (promptWithTools a) chatRequest v0 w0
            = (Some (''AI call failed: '' @ e), v\<lparr>completions := completions v + 1\<rparr>, w')"
      using agentLoop_loopAfter [OF r] agentLoop_ai_error [where ctx = ctx and w = w, OF c n ai] by simp
    from Chat_fails_when_loop_fails [OF s this]
    obtain st1 where c1: "Chat L a ctx sid userMessage st = (Failed (''AI call failed: '' @ e), st1)"
      and "world st1 = w'"
      by blast
    with failed [OF M c1] show ?thesis by blast
  qed
  have smartCancelledTurn: "\<exists>st'. SmartChat L sa ctx sid userMessage st = (Failed cancel, st') \<and> world st' = w
              \<and> history st' sid = keepLast (capacity (agent sa) st sid) (history st sid @ [userMsg])
              \<and> (\<forall>other. other \<noteq> sid \<longrightarrow> sessions st' other = sessions st other)"
    if M: "0 \<le> MaxHistoryMessages (agent sa)"
      and s: "SmartChatStart L sa sid userMessage st = Some (v0, w0)"
      and r: "loopAfter L (agent sa) ctx (smartPromptWithTools sa) smartChatRequest k v0 w0 = Some (v, w)"
      and c: "ctx w = Some cancel"
  proof -
    have "agentLoop L (agent sa) ctx (smartPromptWithTools sa) smartChatRequest v0 w0 = (Some cancel, v, w)"
      using agentLoop_loopAfter [OF r] agentLoop_cancelled [where ctx = ctx and w = w, OF c] by simp
    from SmartChat_fails_when_loop_fails [OF s this]
    obtain st1 where c1: "SmartChat L sa ctx sid userMessage st = (Failed cancel, st1)"
      and "world st1 = w"
      by blast
    with smartFailed [OF M c1] show ?thesis by blast
  qed
  have smartFailedTurn: "\<exists>st'. SmartChat L sa ctx sid userMessage st = (Failed (''AI call failed: '' @ e), st')
              \<and> world st' = w'
              \<and> history st' sid = keepLast (capacity (agent sa) st sid) (history st sid @ [userMsg])
              \<and> (\<forall>other. other \<noteq> sid \<longrightarrow> sessions st' other = sessions st other)"
    if M: "0 \<le> MaxHistoryMessages (agent sa)"
      and s: "SmartChatStart L sa sid userMessage st = Some (v0, w0)"
      and r: "loopAfter L (agent sa) ctx (smartPromptWithTools sa) smartChatRequest k v0 w0 = Some (v, w)"
      and c: "ctx w = None" and n: "toolCallCount v < MaxToolCalls (agent sa)"
      and ai: "aiClient (agent sa) (smartPromptWithTools sa) (conversationPrompt v) w = (Inl e, w')"
  proof -
    have "agentLoop L (agent sa) ctx (smartPromptWithTools sa) smartChatRequest v0 w0
            = (Some (''AI call failed: '' @ e), v\<lparr>completions := completions v + 1\<rparr>, w')"
      using agentLoop_loopAfter [OF r] agentLoop_ai_error [where ctx = ctx and w = w, OF c n ai] by simp
    from SmartChat_fails_when_loop_fails [OF s this]
    obtain st1 where c1: "SmartChat L sa ctx sid userMessage st = (Failed (''AI call failed: '' @ e), st1)"
      and "world st1 = w'"
      by blast
    with smartFailed [OF M c1] show ?thesis by blast
  qed
  show ?thesis
    apply (intro conjI)
           apply (rule start)
          apply (intro impI, elim conjE, rule cancelledTurn; assumption)
         apply (intro impI, elim conjE, rule failedTurn; assumption)
        apply (intro impI, elim conjE, rule failed; assumption)
       apply (rule smartStart)
      apply (intro impI, elim conjE, rule smartCancelledTurn; assumption)
     apply (intro impI, elim conjE, rule smartFailedTurn; assumption)
    apply (intro impI, elim conjE, rule smartFailed; assumption)
    done
qed


subsection \<open>Concrete runs\<close>

text \<open>
  Instances of the parameters for concrete runs. The world is a log of the external
  calls made. \<open>asciiTrimSpace\<close> is \<^verbatim>\<open>strings.TrimSpace\<close> on ASCII strings. \<open>demoUnmarshal\<close>
  agrees with \<^verbatim>\<open>json.Unmarshal\<close> on the empty object (no tool calls) and on a block with
  two calls of \<open>get_balance\<close>, the only blocks decoded in the runs below, and rejects
  everything else. The scripted AI client answers its n-th call with the n-th entry of the
  script.
\<close>

declare agentLoop.simps [simp del]

definition isAsciiSpace :: "char \<Rightarrow> bool" where
  "isAsciiSpace c \<longleftrightarrow> c \<in> set [CHR 0x09, CHR 0x0A, CHR 0x0B, CHR 0x0C, CHR 0x0D, CHR 0x20]"

definition asciiTrimSpace :: "string \<Rightarrow> string" where
  "asciiTrimSpace s = rev (dropWhile isAsciiSpace (rev (dropWhile isAsciiSpace s)))"

definition q :: "string \<Rightarrow> string" where
  "q s = [CHR 0x22] @ s @ [CHR 0x22]"

definition balanceCall :: string where
  "balanceCall = ''{'' @ q ''name'' @ '': '' @ q ''get_balance'' @ '', '' @ q ''arguments'' @ '': {}}''"

definition twoCallsBlock :: string where
  "twoCallsBlock = ''{'' @ q ''tool_calls'' @ '': ['' @ balanceCall @ '', '' @ balanceCall @ '']}''"

definition demoUnmarshal :: "string \<Rightarrow> ToolCall list option" where
  "demoUnmarshal s =
     (if s = ''{}'' then Some []
      else if s = twoCallsBlock
      then Some [\<lparr>Name = ''get_balance'', Arguments = ''{}''\<rparr>,
                 \<lparr>Name = ''get_balance'', Arguments = ''{}''\<rparr>]
      else None)"

definition demoLib :: "(string list, string) stdlib" where
  "demoLib = \<lparr>TrimSpace = asciiTrimSpace, Unmarshal = demoUnmarshal,
     Marshal = (\<lambda>r. case r of None \<Rightarrow> ''null'' | Some s \<Rightarrow> q s),
     Title = (\<lambda>s. s), growslice = (\<lambda>c. 2 * c), Now = (\<lambda>w. int (length w))\<rparr>"

definition scriptedAI :: "(string + string) list \<Rightarrow> string \<Rightarrow> string \<Rightarrow> string list \<Rightarrow> (string + string) \<times> string list" where
  "scriptedAI script systemPrompt prompt w =
     (let n = length (filter (\<lambda>e. e = ''completion'') w)
      in (if n < length script then script ! n else Inl ''script exhausted'', w @ [''completion'']))"

definition demoAgent :: "(string + string) list \<Rightarrow> int \<Rightarrow> (string list, string) Agent" where
  "demoAgent script maxCalls =
     \<lparr>aiClient = scriptedAI script, tools = demoTools, MaxToolCalls = maxCalls,
      MaxHistoryMessages = 50, promptWithTools = ''You are a trading assistant.''\<rparr>"

definition emptyState :: "string list state" where
  "emptyState = \<lparr>store = emptyHeap, sessions = Map.empty, world = []\<rparr>"

definition background :: "string list \<Rightarrow> string option" where
  "background w = None"

lemma Contains_two: "Contains twoCallsBlock ''tool_calls''"
  by (simp add: twoCallsBlock_def q_def)

lemma parse_two:
  "parseResponse demoLib twoCallsBlock
     = ([\<lparr>Name = ''get_balance'', Arguments = ''{}''\<rparr>, \<lparr>Name = ''get_balance'', Arguments = ''{}''\<rparr>], [], None)"
proof -
  have i: "Index twoCallsBlock (CHR ''{'') = 0" by (simp add: twoCallsBlock_def)
  have l: "LastIndex twoCallsBlock (CHR ''}'') = int (length twoCallsBlock) - 1"
    by (simp add: twoCallsBlock_def LastIndex_def balanceCall_def q_def)
  have n: "1 < length twoCallsBlock" by (simp add: twoCallsBlock_def)
  have ne: "twoCallsBlock \<noteq> ''{}''" by (simp add: twoCallsBlock_def q_def)
  show ?thesis
    using n ne by (simp add: parseResponse_def Contains_two i l Let_def demoLib_def demoUnmarshal_def
        asciiTrimSpace_def nat_diff_distrib)
qed

definition cancelled :: "string list \<Rightarrow> string option" where
  "cancelled w = Some ''context canceled''"

definition demoSmartAgent :: "(string + string) list \<Rightarrow> int \<Rightarrow> (string list, string) SmartAgent" where
  "demoSmartAgent script maxCalls =
     \<lparr>agent = demoAgent script maxCalls, smartPromptWithTools = ''You are a smart trading assistant.'',
      autoInjectContext = True, tradingDigest = (\<lambda>w. (''Equity: 100'', w @ [''snapshot'']))\<rparr>"

lemma stateOK_emptyState: "stateOK emptyState"
  by (simp add: stateOK_def emptyState_def)

lemma Chat_down:
  "fst (Chat demoLib (demoAgent [Inl ''connection refused''] 10) background ''tg_1'' ''hello'' emptyState)
     = Failed ''AI call failed: connection refused''"
  by (simp add: Chat_def GetSession_def emptyState_def demoAgent_def demoLib_def NewSession_def
      makeSlice_def emptyHeap_def sessionAdd_def AddMessage_def appendSlice_def Let_def
      buildConversationPrompt_def GetMessages_def copySlice_def view_def agentLoop.simps
      loopBody_def background_def scriptedAI_def split: prod.splits)

lemma SmartChat_cancelled:
  "fst (SmartChat demoLib (demoSmartAgent [Inr ''hi''] 10) cancelled ''tg_1'' ''hello'' emptyState)
     = Failed ''context canceled''"
  by (simp add: SmartChat_def GetSession_def emptyState_def demoAgent_def demoLib_def NewSession_def
      demoSmartAgent_def
      makeSlice_def emptyHeap_def sessionAdd_def AddMessage_def appendSlice_def Let_def
      buildSmartConversationPrompt_def GetMessages_def copySlice_def view_def agentLoop.simps
      loopBody_def cancelled_def scriptedAI_def split: prod.splits)

text \<open>
  Turns on a fresh session: one whose AI client fails at once, one whose AI client fails
  after a round of two tool calls, one cancelled before the first completion and one
  cancelled during the round of tool calls, which the loop notices at the head of the next
  iteration.
\<close>

definition failAfterTools :: "(string + string) list" where
  "failAfterTools = [Inr twoCallsBlock, Inl ''connection reset'']"

definition cancelledByTool :: "string list \<Rightarrow> string option" where
  "cancelledByTool w = (if ''get_balance'' \<in> set w then Some ''context canceled'' else None)"

definition firstVars :: "string \<Rightarrow> loopVars" where
  "firstVars prompt =
     \<lparr>conversationPrompt = prompt, finalResponse = [], toolCallCount = 0, completions = 0\<rparr>"

definition twoResults :: "string ToolResult list" where
  "twoResults = [\<lparr>Name' = ''get_balance'', Result = Some ''done {}'', Error = []\<rparr>,
                 \<lparr>Name' = ''get_balance'', Result = Some ''done {}'', Error = []\<rparr>]"

definition twoCalls :: "ToolCall list" where
  "twoCalls = [\<lparr>Name = ''get_balance'', Arguments = ''{}''\<rparr>, \<lparr>Name = ''get_balance'', Arguments = ''{}''\<rparr>]"

lemma demo_ChatStart:
  "ChatStart demoLib (demoAgent script n) ''tg_1'' ''balance?'' emptyState
     = Some (firstVars ''user: balance?'', [])"
  by (simp add: ChatStart_def GetSession_def emptyState_def NewSession_def
      makeSlice_def emptyHeap_def sessionAdd_def AddMessage_def appendSlice_def Let_def
      buildConversationPrompt_def GetMessages_def copySlice_def view_def firstVars_def
      resliceFrom_def demoAgent_def demoLib_def split: prod.splits)

lemma demo_SmartChatStart:
  "SmartChatStart demoLib (demoSmartAgent script n) ''tg_1'' ''balance?'' emptyState
     = Some (firstVars (''Equity: 100'' @ [CHR 0x0A] @ ''user: balance?'' @ [CHR 0x0A]), [''snapshot''])"
  by (simp add: SmartChatStart_def GetSession_def emptyState_def NewSession_def
      makeSlice_def emptyHeap_def sessionAdd_def AddMessage_def appendSlice_def Let_def
      buildSmartConversationPrompt_def GetMessages_def copySlice_def view_def firstVars_def
      resliceFrom_def demoAgent_def demoSmartAgent_def demoLib_def split: prod.splits)

lemma demo_round:
  assumes "ctx w = None" and "filter (\<lambda>e. e = ''completion'') w = []"
  shows "loopAfter demoLib (demoAgent (Inr twoCallsBlock # rest) 10) ctx sp rq (Suc 0) (firstVars p) w
     = Some (\<lparr>conversationPrompt = p @ foldBack demoLib rq twoCalls twoResults,
               finalResponse = [], toolCallCount = 2, completions = 1\<rparr>,
             w @ [''completion'', ''get_balance'', ''get_balance''])"
  using assms
  by (simp add: loopBody_def demoAgent_def scriptedAI_def parse_two firstVars_def twoCalls_def
      twoResults_def executeToolCalls_def executeOne_def demoTools_def okTool_def)

lemma demo_agent_of: "agent (demoSmartAgent script n) = demoAgent script n"
  by (simp add: demoSmartAgent_def)

theorem Chat_abort_witness:
  "(\<exists>st'. Chat demoLib (demoAgent [Inl ''connection refused''] 10) background ''tg_1'' ''balance?'' emptyState
            = (Failed ''AI call failed: connection refused'', st')
          \<and> world st' = [''completion'']
          \<and> history st' ''tg_1'' = [\<lparr>Role = ''user'', Content = ''balance?'', Timestamp = 0\<rparr>])
   \<and> (\<exists>st'. Chat demoLib (demoAgent failAfterTools 10) background ''tg_1'' ''balance?'' emptyState
            = (Failed ''AI call failed: connection reset'', st')
          \<and> world st' = [''completion'', ''get_balance'', ''get_balance'', ''completion'']
          \<and> history st' ''tg_1'' = [\<lparr>Role = ''user'', Content = ''balance?'', Timestamp = 0\<rparr>])
   \<and> (\<exists>st'. Chat demoLib (demoAgent failAfterTools 10) cancelled ''tg_1'' ''balance?'' emptyState
            = (Failed ''context canceled'', st')
          \<and> world st' = []
          \<and> history st' ''tg_1'' = [\<lparr>Role = ''user'', Content = ''balance?'', Timestamp = 0\<rparr>])
   \<and> (\<exists>st'. SmartChat demoLib (demoSmartAgent failAfterTools 10) cancelledByTool ''tg_1'' ''balance?''
              emptyState
            = (Failed ''context canceled'', st')
          \<and> world st' = [''snapshot'', ''completion'', ''get_balance'', ''get_balance'']
          \<and> history st' ''tg_1'' = [\<lparr>Role = ''user'', Content = ''balance?'', Timestamp = 0\<rparr>])
   \<and> (\<exists>st'. SmartChat demoLib (demoSmartAgent [Inl ''connection refused''] 10) background ''tg_1''
              ''balance?'' emptyState
            = (Failed ''AI call failed: connection refused'', st')
          \<and> world st' = [''snapshot'', ''completion'']
          \<and> history st' ''tg_1'' = [\<lparr>Role = ''user'', Content = ''balance?'', Timestamp = 0\<rparr>])
   \<and> (\<exists>v0. ChatStart demoLib (demoAgent failAfterTools 10) ''tg_1'' ''balance?'' emptyState
            = Some (v0, []) \<and> toolCallCount v0 = 0)
   \<and> (\<exists>v0. SmartChatStart demoLib (demoSmartAgent failAfterTools 10) ''tg_1'' ''balance?'' emptyState
            = Some (v0, [''snapshot'']) \<and> toolCallCount v0 = 0)"
proof -
  note T = Chat_abort [OF stateOK_emptyState, where L = demoLib and sid = "''tg_1''"
      and userMessage = "''balance?''"]
  have m: "\<And>script. 0 \<le> MaxHistoryMessages (demoAgent script 10)"
    "\<And>script. capacity (demoAgent script 10) emptyState ''tg_1'' = 50"
    "\<And>script. MaxToolCalls (demoAgent script 10) = 10"
    by (simp_all add: demoAgent_def capacity_def emptyState_def)
  have h0: "history emptyState ''tg_1'' = []" "Now demoLib [] = 0" "world emptyState = []"
    by (simp_all add: history_def emptyState_def demoLib_def)
  have refused: "\<And>sp p w. filter (\<lambda>e. e = ''completion'') w = [] \<Longrightarrow>
      aiClient (demoAgent [Inl ''connection refused''] 10) sp p w
        = (Inl ''connection refused'', w @ [''completion''])"
    by (simp add: demoAgent_def scriptedAI_def)
  have reset: "\<And>sp p w. length (filter (\<lambda>e. e = ''completion'') w) = 1 \<Longrightarrow>
      aiClient (demoAgent failAfterTools 10) sp p w
        = (Inl ''connection reset'', w @ [''completion''])"
    by (simp add: demoAgent_def scriptedAI_def failAfterTools_def)
  have script: "failAfterTools = Inr twoCallsBlock # [Inl ''connection reset'']"
    by (simp add: failAfterTools_def)
  have 1: "\<exists>st'. Chat demoLib (demoAgent [Inl ''connection refused''] 10) background ''tg_1'' ''balance?'' emptyState
            = (Failed ''AI call failed: connection refused'', st')
          \<and> world st' = [''completion'']
          \<and> history st' ''tg_1'' = [\<lparr>Role = ''user'', Content = ''balance?'', Timestamp = 0\<rparr>]"
    using T [where a = "demoAgent [Inl ''connection refused''] 10" and ctx = background and k = 0
          and ?v0.0 = "firstVars ''user: balance?''" and ?w0.0 = "[]"
          and v = "firstVars ''user: balance?''" and w = "[]"
          and e = "''connection refused''" and w' = "[''completion'']",
        THEN conjunct2, THEN conjunct2, THEN conjunct1]
    by (simp add: m h0 demo_ChatStart refused background_def firstVars_def keepLast_def; blast)
  have 2: "\<exists>st'. Chat demoLib (demoAgent failAfterTools 10) background ''tg_1'' ''balance?'' emptyState
            = (Failed ''AI call failed: connection reset'', st')
          \<and> world st' = [''completion'', ''get_balance'', ''get_balance'', ''completion'']
          \<and> history st' ''tg_1'' = [\<lparr>Role = ''user'', Content = ''balance?'', Timestamp = 0\<rparr>]"
    using T [where a = "demoAgent failAfterTools 10" and ctx = background and k = "Suc 0"
          and ?v0.0 = "firstVars ''user: balance?''" and ?w0.0 = "[]"
          and v = "\<lparr>conversationPrompt = ''user: balance?'' @ foldBack demoLib chatRequest twoCalls twoResults,
               finalResponse = [], toolCallCount = 2, completions = 1\<rparr>"
          and w = "[''completion'', ''get_balance'', ''get_balance'']"
          and e = "''connection reset''"
          and w' = "[''completion'', ''get_balance'', ''get_balance'', ''completion'']",
        THEN conjunct2, THEN conjunct2, THEN conjunct1]
      demo_round [where ctx = background and w = "[]" and rest = "[Inl ''connection reset'']"
          and sp = "promptWithTools (demoAgent failAfterTools 10)" and rq = chatRequest
          and p = "''user: balance?''"]
    by (simp add: m h0 demo_ChatStart reset background_def keepLast_def script [symmetric]; blast)
  have 3: "\<exists>st'. Chat demoLib (demoAgent failAfterTools 10) cancelled ''tg_1'' ''balance?'' emptyState
            = (Failed ''context canceled'', st')
          \<and> world st' = []
          \<and> history st' ''tg_1'' = [\<lparr>Role = ''user'', Content = ''balance?'', Timestamp = 0\<rparr>]"
    using T [where a = "demoAgent failAfterTools 10" and ctx = cancelled and k = 0
          and ?v0.0 = "firstVars ''user: balance?''" and ?w0.0 = "[]"
          and v = "firstVars ''user: balance?''" and w = "[]" and cancel = "''context canceled''",
        THEN conjunct2, THEN conjunct1]
    by (simp add: m h0 demo_ChatStart cancelled_def keepLast_def; blast)
  have 4: "\<exists>st'. SmartChat demoLib (demoSmartAgent failAfterTools 10) cancelledByTool ''tg_1'' ''balance?''
              emptyState
            = (Failed ''context canceled'', st')
          \<and> world st' = [''snapshot'', ''completion'', ''get_balance'', ''get_balance'']
          \<and> history st' ''tg_1'' = [\<lparr>Role = ''user'', Content = ''balance?'', Timestamp = 0\<rparr>]"
    using T [where sa = "demoSmartAgent failAfterTools 10" and ctx = cancelledByTool and k = "Suc 0"
          and ?v0.0 = "firstVars (''Equity: 100'' @ [CHR 0x0A] @ ''user: balance?'' @ [CHR 0x0A])"
          and ?w0.0 = "[''snapshot'']"
          and v = "\<lparr>conversationPrompt = (''Equity: 100'' @ [CHR 0x0A] @ ''user: balance?'' @ [CHR 0x0A])
                      @ foldBack demoLib smartChatRequest twoCalls twoResults,
               finalResponse = [], toolCallCount = 2, completions = 1\<rparr>"
          and w = "[''snapshot'', ''completion'', ''get_balance'', ''get_balance'']"
          and cancel = "''context canceled''",
        THEN conjunct2, THEN conjunct2, THEN conjunct2, THEN conjunct2, THEN conjunct2, THEN conjunct1]
      demo_round [where ctx = cancelledByTool and w = "[''snapshot'']"
          and rest = "[Inl ''connection reset'']"
          and sp = "smartPromptWithTools (demoSmartAgent failAfterTools 10)" and rq = smartChatRequest
          and p = "''Equity: 100'' @ [CHR 0x0A] @ ''user: balance?'' @ [CHR 0x0A]"]
    by (simp add: m h0 demo_SmartChatStart demo_agent_of cancelledByTool_def keepLast_def
        script [symmetric]; blast)
  have 5: "\<exists>st'. SmartChat demoLib (demoSmartAgent [Inl ''connection refused''] 10) background ''tg_1''
              ''balance?'' emptyState
            = (Failed ''AI call failed: connection refused'', st')
          \<and> world st' = [''snapshot'', ''completion'']
          \<and> history st' ''tg_1'' = [\<lparr>Role = ''user'', Content = ''balance?'', Timestamp = 0\<rparr>]"
    using T [where sa = "demoSmartAgent [Inl ''connection refused''] 10" and ctx = background and k = 0
          and ?v0.0 = "firstVars (''Equity: 100'' @ [CHR 0x0A] @ ''user: balance?'' @ [CHR 0x0A])"
          and ?w0.0 = "[''snapshot'']"
          and v = "firstVars (''Equity: 100'' @ [CHR 0x0A] @ ''user: balance?'' @ [CHR 0x0A])"
          and w = "[''snapshot'']"
          and e = "''connection refused''" and w' = "[''snapshot'', ''completion'']",
        THEN conjunct2, THEN conjunct2, THEN conjunct2, THEN conjunct2, THEN conjunct2, THEN conjunct2, THEN conjunct1]
    by (simp add: m h0 demo_SmartChatStart demo_agent_of refused background_def firstVars_def
        keepLast_def; blast)
  have 6: "\<exists>v0. ChatStart demoLib (demoAgent failAfterTools 10) ''tg_1'' ''balance?'' emptyState
            = Some (v0, []) \<and> toolCallCount v0 = 0"
    using T [where a = "demoAgent failAfterTools 10",
        THEN conjunct1]
    by (simp add: m h0)
  have 7: "\<exists>v0. SmartChatStart demoLib (demoSmartAgent failAfterTools 10) ''tg_1'' ''balance?'' emptyState
            = Some (v0, [''snapshot'']) \<and> toolCallCount v0 = 0"
    using T [where sa = "demoSmartAgent failAfterTools 10",
        THEN conjunct2, THEN conjunct2, THEN conjunct2, THEN conjunct2, THEN conjunct1]
    by (simp add: m h0 demo_agent_of demoSmartAgent_def; blast)
  from 1 2 3 4 5 6 7 show ?thesis by blast
qed


subsection \<open>Properties of the extraction\<close>

lemma Index_negative: "Index s c < 0 \<longleftrightarrow> c \<notin> set s"
  by (induction s) (auto simp add: Let_def)

lemma Index_range: "- 1 \<le> Index s c \<and> Index s c < int (length s)"
  by (induction s) (auto simp add: Let_def)

lemma Index_first:
  "0 \<le> Index s c \<Longrightarrow>
     s ! nat (Index s c) = c \<and> c \<notin> set (take (nat (Index s c)) s) \<and> nat (Index s c) < length s"
proof (induction s)
  case Nil
  then show ?case by simp
next
  case (Cons x s)
  show ?case
  proof (cases "x = c")
    case True
    then show ?thesis by simp
  next
    case False
    with Cons.prems have i: "0 \<le> Index s c" and e: "Index (x # s) c = Index s c + 1"
      by (auto simp add: Let_def split: if_splits)
    from Cons.IH [OF i] False i show ?thesis
      by (simp add: e nat_add_distrib)
  qed
qed

lemma LastIndex_last:
  assumes "0 \<le> LastIndex s c"
  shows "nat (LastIndex s c) < length s \<and> s ! nat (LastIndex s c) = c
         \<and> c \<notin> set (drop (Suc (nat (LastIndex s c))) s)"
proof -
  let ?i = "Index (rev s) c"
  from assms have i: "0 \<le> ?i" and l: "LastIndex s c = int (length s) - 1 - ?i"
    by (auto simp add: LastIndex_def Let_def split: if_splits)
  from Index_first [OF i] have f: "rev s ! nat ?i = c" "c \<notin> set (take (nat ?i) (rev s))"
    "nat ?i < length s" by simp_all
  have n: "nat (LastIndex s c) = length s - 1 - nat ?i" using l i f(3) by simp
  have 1: "nat (LastIndex s c) < length s" using n f(3) by simp
  have 2: "s ! nat (LastIndex s c) = c"
    using f(1) f(3) by (simp add: n rev_nth)
  have "take (nat ?i) (rev s) = rev (drop (length s - nat ?i) s)"
    by (simp add: take_rev)
  with f(2) have "c \<notin> set (drop (length s - nat ?i) s)" by simp
  moreover have "Suc (nat (LastIndex s c)) = length s - nat ?i" using n f(3) by simp
  ultimately have 3: "c \<notin> set (drop (Suc (nat (LastIndex s c))) s)" by simp
  from 1 2 3 show ?thesis by blast
qed


lemma block_decomposition:
  assumes s: "0 \<le> Index response (CHR ''{'')"
    and e: "Index response (CHR ''{'') < LastIndex response (CHR ''}'')"
  defines "start \<equiv> nat (Index response (CHR ''{''))"
  defines "stop \<equiv> nat (LastIndex response (CHR ''}'') + 1)"
  shows "response = take start response @ take (stop - start) (drop start response) @ drop stop response"
    and "CHR ''{'' \<notin> set (take start response)"
    and "hd (take (stop - start) (drop start response)) = CHR ''{''"
    and "last (take (stop - start) (drop start response)) = CHR ''}''"
    and "CHR ''}'' \<notin> set (drop stop response)"
    and "2 \<le> length (take (stop - start) (drop start response))"
proof -
  have e0: "0 \<le> LastIndex response (CHR ''}'')" using s e by simp
  note f = Index_first [OF s]
  note l = LastIndex_last [OF e0]
  have st: "stop = Suc (nat (LastIndex response (CHR ''}'')))" using e0 by (simp add: stop_def)
  have lt: "start < nat (LastIndex response (CHR ''}''))" using s e by (simp add: start_def)
  have le: "stop \<le> length response" using l by (simp add: st)
  let ?block = "take (stop - start) (drop start response)"
  have d: "drop stop response = drop (stop - start) (drop start response)"
    using lt by (simp add: st)
  show "response = take start response @ ?block @ drop stop response"
    by (simp only: d append_take_drop_id)
  show "CHR ''{'' \<notin> set (take start response)" using f by (simp add: start_def)
  have len: "length ?block = stop - start" using le by simp
  have pos: "0 < stop - start" using lt by (simp add: st)
  have sl: "start < length response" using lt l by simp
  have "hd ?block = hd (drop start response)" using pos by (cases "stop - start") simp_all
  also have "\<dots> = response ! start" using sl by (rule hd_drop_conv_nth)
  also have "\<dots> = CHR ''{''" using f by (simp add: start_def)
  finally show "hd ?block = CHR ''{''" .
  have ne: "?block \<noteq> []" using len pos by auto
  have "last ?block = ?block ! (stop - start - 1)" using ne len by (simp add: last_conv_nth)
  also have "\<dots> = drop start response ! (stop - start - 1)" using pos by simp
  also have "\<dots> = response ! (start + (stop - start - 1))" using sl by simp
  also have "start + (stop - start - 1) = nat (LastIndex response (CHR ''}''))"
    using lt by (simp add: st)
  also have "response ! nat (LastIndex response (CHR ''}'')) = CHR ''}''" using l by simp
  finally show "last ?block = CHR ''}''" .
  show "CHR ''}'' \<notin> set (drop stop response)" using l by (simp add: st)
  show "2 \<le> length ?block" using lt le by (simp add: st)
qed


lemma parseResponse_no_error: "snd (snd (parseResponse L response)) = None"
  by (simp add: parseResponse_def Let_def split: option.splits)

lemma agentLoop_plain_answer:
  assumes "ctx w = None" "toolCallCount v < MaxToolCalls a"
    and "aiClient a sp (conversationPrompt v) w = (Inr response, w1)"
    and "fst (parseResponse L response) = []"
  shows "agentLoop L a ctx sp rq v w =
     (None, v\<lparr>completions := completions v + 1,
               finalResponse := fst (snd (parseResponse L response))\<rparr>, w1)"
proof -
  obtain tcs tx er where p: "parseResponse L response = (tcs, tx, er)"
    by (metis prod_cases3)
  with parseResponse_no_error [of L response] have "er = None" by simp
  with assms p show ?thesis
    by (simp add: agentLoop.simps loopBody_def)
qed

text \<open>
  The extraction as the specification words it, for comparison with \<open>parseResponse\<close>:
  locate the first \<open>{\<close> and the last \<open>}\<close>, decode that substring, on success remove it from
  the surrounding text; otherwise the entire response is the answer.
\<close>

definition extractAsSpecified :: "('w, 'r) stdlib \<Rightarrow> string \<Rightarrow> ToolCall list \<times> string" where
  "extractAsSpecified L response =
     (let start = Index response (CHR ''{''); end = LastIndex response (CHR ''}'')
      in if start \<ge> 0 \<and> end > start
         then (case Unmarshal L (take (nat (end + 1 - start)) (drop (nat start) response)) of
                 Some calls \<Rightarrow> (calls, take (nat start) response @ drop (nat (end + 1)) response)
               | None \<Rightarrow> ([], response))
         else ([], response))"

text \<open>
  C6 (amended). For every model response: when the response contains the text
  \<open>tool_calls\<close> and its first \<open>{\<close> stands before its last \<open>}\<close>, the response splits into
  the text before the first \<open>{\<close>, the block from the first \<open>{\<close> to the last \<open>}\<close>, and the
  text after it, and the block is decoded: on success the tool calls are the decoded ones
  and the accompanying text is what surrounds the block, with leading and trailing white
  space trimmed; on a decoding failure there are no tool calls and the text is the entire
  raw response. When the response lacks the text \<open>tool_calls\<close> or such a block, nothing is
  decoded: no tool calls, and the text is the entire raw response. A response without tool
  calls ends the loop of the turn at once, with that text as the final answer: one
  completion, no retry and no correction prompt.
\<close>

theorem parseResponse_extraction:
  fixes L :: "('w, 'r) stdlib" and a :: "('w, 'r) Agent"
  shows
  "(Contains response ''tool_calls'' \<and> 0 \<le> Index response (CHR ''{'')
      \<and> Index response (CHR ''{'') < LastIndex response (CHR ''}'') \<longrightarrow>
     (\<exists>before block after.
         response = before @ block @ after
       \<and> CHR ''{'' \<notin> set before \<and> hd block = CHR ''{''
       \<and> last block = CHR ''}'' \<and> CHR ''}'' \<notin> set after \<and> 2 \<le> length block
       \<and> parseResponse L response =
           (case Unmarshal L block of
              Some calls \<Rightarrow> (calls, TrimSpace L (before @ after), None)
            | None \<Rightarrow> ([], response, None))))
   \<and> (\<not> (Contains response ''tool_calls'' \<and> 0 \<le> Index response (CHR ''{'')
          \<and> Index response (CHR ''{'') < LastIndex response (CHR ''}'')) \<longrightarrow>
        parseResponse L response = ([], response, None))
   \<and> (ctx w = None \<and> toolCallCount v < MaxToolCalls a
        \<and> aiClient a sp (conversationPrompt v) w = (Inr response, w1)
        \<and> fst (parseResponse L response) = [] \<longrightarrow>
        agentLoop L a ctx sp rq v w =
          (None, v\<lparr>completions := completions v + 1,
                    finalResponse := fst (snd (parseResponse L response))\<rparr>, w1))"
proof (intro conjI impI)
  assume h: "Contains response ''tool_calls'' \<and> 0 \<le> Index response (CHR ''{'')
      \<and> Index response (CHR ''{'') < LastIndex response (CHR ''}'')"
  then have s: "0 \<le> Index response (CHR ''{'')"
    and e: "Index response (CHR ''{'') < LastIndex response (CHR ''}'')"
    and c: "Contains response ''tool_calls''" by simp_all
  let ?start = "nat (Index response (CHR ''{''))"
  let ?stop = "nat (LastIndex response (CHR ''}'') + 1)"
  let ?block = "take (?stop - ?start) (drop ?start response)"
  note d = block_decomposition [OF s e]
  have n: "nat (LastIndex response (CHR ''}'') + 1 - Index response (CHR ''{'')) = ?stop - ?start"
    using s e by simp
  have p: "parseResponse L response =
           (case Unmarshal L ?block of
              Some calls \<Rightarrow> (calls, TrimSpace L (take ?start response @ drop ?stop response), None)
            | None \<Rightarrow> ([], response, None))"
  proof -
    have cond: "(Index response (CHR ''{'') \<ge> 0
        \<and> LastIndex response (CHR ''}'') > Index response (CHR ''{'')) = True"
      using s e by simp
    show ?thesis
      unfolding parseResponse_def Let_def n
      by (simp only: c cond if_True append_Nil)
  qed
  show "\<exists>before block after.
         response = before @ block @ after
       \<and> CHR ''{'' \<notin> set before \<and> hd block = CHR ''{''
       \<and> last block = CHR ''}'' \<and> CHR ''}'' \<notin> set after \<and> 2 \<le> length block
       \<and> parseResponse L response =
           (case Unmarshal L block of
              Some calls \<Rightarrow> (calls, TrimSpace L (before @ after), None)
            | None \<Rightarrow> ([], response, None))"
    apply (rule exI [where x = "take ?start response"])
    apply (rule exI [where x = ?block])
    apply (rule exI [where x = "drop ?stop response"])
    apply (intro conjI)
          apply (rule d(1))
         apply (rule d(2))
        apply (rule d(3))
       apply (rule d(4))
      apply (rule d(5))
     apply (rule d(6))
    apply (rule p)
    done
next
  assume n: "\<not> (Contains response ''tool_calls'' \<and> 0 \<le> Index response (CHR ''{'')
          \<and> Index response (CHR ''{'') < LastIndex response (CHR ''}''))"
  show "parseResponse L response = ([], response, None)"
  proof (cases "Contains response ''tool_calls''")
    case False
    then show ?thesis by (simp add: parseResponse_def)
  next
    case True
    with n have "(Index response (CHR ''{'') \<ge> 0
        \<and> LastIndex response (CHR ''}'') > Index response (CHR ''{'')) = False" by simp
    then show ?thesis using True by (simp only: parseResponse_def Let_def if_True if_False)
  qed
next
  assume h: "ctx w = None \<and> toolCallCount v < MaxToolCalls a
        \<and> aiClient a sp (conversationPrompt v) w = (Inr response, w1)
        \<and> fst (parseResponse L response) = []"
  from h have a1: "ctx w = None" and a2: "toolCallCount v < MaxToolCalls a"
    and a3: "aiClient a sp (conversationPrompt v) w = (Inr response, w1)"
    and a4: "fst (parseResponse L response) = []" by simp_all
  show "agentLoop L a ctx sp rq v w =
          (None, v\<lparr>completions := completions v + 1,
                    finalResponse := fst (snd (parseResponse L response))\<rparr>, w1)"
    by (rule agentLoop_plain_answer [where ctx = ctx and w = w, OF a1 a2 a3 a4])
qed

text \<open>
  Two responses on which the code departs from the extraction as specified. The empty
  object decodes (to no tool calls), yet the code leaves the response as it is, because
  the text \<open>tool_calls\<close> does not occur in it. With prose around a block that decodes, the
  code trims the white space that removing the block leaves at the end.
\<close>

definition proseAndBlock :: string where
  "proseAndBlock = ''Checking. '' @ twoCallsBlock @ '' ''"

theorem parseResponse_extraction_counterexample:
  "Unmarshal demoLib ''{}'' = Some []
   \<and> extractAsSpecified demoLib ''{}'' = ([], [])
   \<and> parseResponse demoLib ''{}'' = ([], ''{}'', None)
   \<and> snd (extractAsSpecified demoLib proseAndBlock) = ''Checking.  ''
   \<and> fst (snd (parseResponse demoLib proseAndBlock)) = ''Checking.''"
proof -
  have 1: "snd (extractAsSpecified demoLib proseAndBlock) = ''Checking.  ''"
    by (simp add: extractAsSpecified_def LastIndex_def Let_def demoLib_def demoUnmarshal_def
        proseAndBlock_def twoCallsBlock_def balanceCall_def q_def)
  have 2: "fst (snd (parseResponse demoLib proseAndBlock)) = ''Checking.''"
    by (simp add: parseResponse_def LastIndex_def Let_def demoLib_def demoUnmarshal_def
        proseAndBlock_def twoCallsBlock_def balanceCall_def q_def
        asciiTrimSpace_def isAsciiSpace_def)
  have 3: "Unmarshal demoLib ''{}'' = Some []" by (simp add: demoLib_def demoUnmarshal_def)
  have 4: "extractAsSpecified demoLib ''{}'' = ([], [])"
    by (simp add: extractAsSpecified_def LastIndex_def Let_def demoLib_def demoUnmarshal_def)
  have 5: "parseResponse demoLib ''{}'' = ([], ''{}'', None)"
    by (simp add: parseResponse_def)
  from 1 2 3 4 5 show ?thesis by simp
qed


theorem parseResponse_extraction_witness:
  "(\<exists>before block after.
         proseAndBlock = before @ block @ after
       \<and> CHR ''{'' \<notin> set before \<and> hd block = CHR ''{''
       \<and> last block = CHR ''}'' \<and> CHR ''}'' \<notin> set after \<and> 2 \<le> length block
       \<and> parseResponse demoLib proseAndBlock =
           (case Unmarshal demoLib block of
              Some calls \<Rightarrow> (calls, TrimSpace demoLib (before @ after), None)
            | None \<Rightarrow> ([], proseAndBlock, None)))
   \<and> parseResponse demoLib ''Done.'' = ([], ''Done.'', None)
   \<and> agentLoop demoLib (demoAgent [Inr ''Done.''] 10) background ''system'' ''request''
        \<lparr>conversationPrompt = ''User: hi'', finalResponse = [], toolCallCount = 0, completions = 0\<rparr> []
      = (None, \<lparr>conversationPrompt = ''User: hi'', finalResponse = ''Done.'', toolCallCount = 0,
                 completions = 1\<rparr>, [''completion''])"
proof -
  let ?v = "\<lparr>conversationPrompt = ''User: hi'', finalResponse = [], toolCallCount = 0, completions = 0\<rparr>"
  have i: "Index proseAndBlock (CHR ''{'') = 10"
    by (simp add: proseAndBlock_def twoCallsBlock_def)
  have l: "10 < LastIndex proseAndBlock (CHR ''}'')"
    by (simp add: proseAndBlock_def twoCallsBlock_def LastIndex_def balanceCall_def q_def)
  have c: "Contains proseAndBlock ''tool_calls''"
    by (simp add: proseAndBlock_def twoCallsBlock_def q_def)
  have d: "\<not> Contains ''Done.'' ''tool_calls''" by simp
  have p: "parseResponse demoLib ''Done.'' = ([], ''Done.'', None)"
    by (simp add: parseResponse_def)
  have a: "aiClient (demoAgent [Inr ''Done.''] 10) ''system'' (conversationPrompt ?v) []
      = (Inr ''Done.'', [''completion''])"
    by (simp add: demoAgent_def scriptedAI_def)
  have m: "toolCallCount ?v < MaxToolCalls (demoAgent [Inr ''Done.''] 10)"
    by (simp add: demoAgent_def)
  have 1: "\<exists>before block after.
         proseAndBlock = before @ block @ after
       \<and> CHR ''{'' \<notin> set before \<and> hd block = CHR ''{''
       \<and> last block = CHR ''}'' \<and> CHR ''}'' \<notin> set after \<and> 2 \<le> length block
       \<and> parseResponse demoLib proseAndBlock =
           (case Unmarshal demoLib block of
              Some calls \<Rightarrow> (calls, TrimSpace demoLib (before @ after), None)
            | None \<Rightarrow> ([], proseAndBlock, None))"
    using parseResponse_extraction [of proseAndBlock demoLib background "[]" ?v "demoAgent [Inr ''Done.''] 10"
        "''system''" "[''completion'']" "''request''"] c i l
    by simp
  have 2: "agentLoop demoLib (demoAgent [Inr ''Done.''] 10) background ''system'' ''request'' ?v []
      = (None, \<lparr>conversationPrompt = ''User: hi'', finalResponse = ''Done.'', toolCallCount = 0,
                 completions = 1\<rparr>, [''completion''])"
    using parseResponse_extraction [of "''Done.''" demoLib background "[]" ?v "demoAgent [Inr ''Done.''] 10" "''system''"
        "[''completion'']" "''request''"] a m
    by (simp add: p background_def)
  from 1 2 p show ?thesis by blast
qed

subsection \<open>The bound on tool calls\<close>

text \<open>
  Once the counter has reached the maximum the loop ends without another completion, with
  the variables as they are. The number of completions of a turn is at most the maximum.
  The counter itself is compared only at the head of an iteration, and a batch is executed
  whole.
\<close>

lemma agentLoop_at_limit:
  "ctx w = None \<Longrightarrow> MaxToolCalls a \<le> toolCallCount v \<Longrightarrow>
     agentLoop L a ctx sp rq v w = (None, v, w)"
  by (simp add: agentLoop.simps loopBody_def)

lemma loopBody_Exit_completions:
  "loopBody L a ctx sp rq v w = Exit e v' w' \<Longrightarrow>
     completions v' \<le> completions v + 1 \<and> toolCallCount v' = toolCallCount v
     \<and> (completions v' = completions v + 1 \<longrightarrow> toolCallCount v < MaxToolCalls a)"
  by (auto simp add: loopBody_def split: option.splits if_splits prod.splits sum.splits)

lemma agentLoop_completions_bound:
  "agentLoop L a ctx sp rq v w = (e, v', w') \<Longrightarrow>
     int (completions v') - int (completions v) \<le> max 0 (MaxToolCalls a - toolCallCount v)"
proof (induction L a ctx sp rq v w rule: agentLoop.induct)
  case (1 L a ctx sp rq v w)
  show ?case
  proof (cases "loopBody L a ctx sp rq v w")
    case (Exit e1 v1 w1)
    with "1.prems" have "v' = v1" by (simp add: agentLoop.simps)
    with loopBody_Exit_completions [OF Exit] show ?thesis by auto
  next
    case (Again v1 w1)
    with "1.prems" have "agentLoop L a ctx sp rq v1 w1 = (e, v', w')" by (simp add: agentLoop.simps)
    from "1.IH" [OF Again this] loopBody_Again [OF Again] show ?thesis by simp
  qed
qed

definition overshootScript :: "(string + string) list" where
  "overshootScript = [Inr twoCallsBlock, Inr ''Your balance is 10.'']"

lemma agentLoop_overshoot:
  "agentLoop demoLib (demoAgent overshootScript 1) background sp rq
      \<lparr>conversationPrompt = p, finalResponse = [], toolCallCount = 0, completions = 0\<rparr> w
    = (None,
       \<lparr>conversationPrompt = p @ foldBack demoLib rq
            [\<lparr>Name = ''get_balance'', Arguments = ''{}''\<rparr>, \<lparr>Name = ''get_balance'', Arguments = ''{}''\<rparr>]
            [\<lparr>Name' = ''get_balance'', Result = Some ''done {}'', Error = []\<rparr>,
             \<lparr>Name' = ''get_balance'', Result = Some ''done {}'', Error = []\<rparr>],
         finalResponse = [], toolCallCount = 2, completions = 1\<rparr>,
       w @ [''completion'', ''get_balance'', ''get_balance''])"
  if "filter (\<lambda>e. e = ''completion'') w = []"
  apply (subst agentLoop.simps)
  apply (simp add: loopBody_def background_def demoAgent_def scriptedAI_def parse_two overshootScript_def
      executeToolCalls_def executeOne_def demoTools_def okTool_def that)
  apply (subst agentLoop.simps)
  apply (simp add: loopBody_def background_def)
  done

text \<open>
  C1 (the code at a failing input). With \<open>MaxToolCalls = 1\<close> and a first model response
  that requests two calls of a registered tool, a single turn executes both calls: two
  tool executions, one more than the configured maximum. The turn then ends without
  another completion and replies with the last captured text, which is empty.
\<close>

theorem MaxToolCalls_overshoot:
  "MaxToolCalls (demoAgent overshootScript 1) = 1
   \<and> fst (Chat demoLib (demoAgent overshootScript 1) background ''tg_1'' ''balance?'' emptyState)
       = Replied \<lparr>Text = [], SessionID = ''tg_1''\<rparr>
   \<and> world (snd (Chat demoLib (demoAgent overshootScript 1) background ''tg_1'' ''balance?'' emptyState))
       = [''completion'', ''get_balance'', ''get_balance'']"
  by (simp add: Chat_def GetSession_def emptyState_def NewSession_def
      makeSlice_def emptyHeap_def sessionAdd_def AddMessage_def appendSlice_def Let_def
      buildConversationPrompt_def GetMessages_def copySlice_def view_def
      agentLoop_overshoot resliceFrom_def split: prod.splits)
    (simp add: demoAgent_def demoLib_def)

section \<open>Monitor\<close>


















subsection \<open>The filter\<close>




subsection \<open>The position scan\<close>












subsection \<open>The recorded instants along a run\<close>









subsection \<open>Runs of the monitor\<close>






















section \<open>Lock Discipline\<close>



subsection \<open>Sessions and the agent\<close>












subsection \<open>The monitor\<close>






subsection \<open>Locks held at an event\<close>






















end
